(* ===== verification/Prelude.thy ===== *)
theory Prelude
  imports Main "HOL-Library.Sublist"
begin

text \<open>
  Shared vocabulary of the development: the JavaScript string primitives the
  sources call (\<open>String.prototype.split\<close> with a one-character separator,
  \<open>indexOf\<close>, \<open>startsWith\<close>, \<open>trim\<close>), an error-propagating bind on the sum
  type used for thrown exceptions, and the generic list lemmas the component
  theories share.  JavaScript strings are modelled as \<open>string\<close> (lists of
  \<open>char\<close>); the sources only compare, concatenate, split and search them, so the
  model is exact on strings whose code units are single characters (all the
  ASCII protocol tokens the program uses).
\<close>

named_theorems js_string_simps "evaluation rules of the JavaScript string primitives"

type_synonym path = string

definition nl :: char where
  "nl = CHR 0x0A"

definition apos :: char where
  "apos = CHR 0x27"

subsection \<open>Definitions\<close>

text \<open>Thrown exceptions are the left summand; \<open>bind_r\<close> propagates them.\<close>

definition bind_r :: "'e + 'a \<Rightarrow> ('a \<Rightarrow> 'e + 'b) \<Rightarrow> 'e + 'b" where
  "bind_r m f = (case m of Inl e \<Rightarrow> Inl e | Inr a \<Rightarrow> f a)"

text \<open>
  \<open>s.split(c)\<close>: the pieces of \<open>s\<close> between occurrences of \<open>c\<close>, in order; the
  empty string splits into one empty piece, and consecutive separators give
  empty pieces.  \<open>js_join\<close> is \<open>Array.prototype.join(c)\<close>.
\<close>

fun js_split :: "char \<Rightarrow> string \<Rightarrow> string list" where
  "js_split c [] = [[]]"
| "js_split c (x # xs) =
     (if x = c then [] # js_split c xs
      else (case js_split c xs of w # ws \<Rightarrow> (x # w) # ws | [] \<Rightarrow> [[x]]))"

text \<open>The first \<open>Some\<close> of a list of attempts, tried in order.\<close>

fun first_some :: "('a \<Rightarrow> 'b option) \<Rightarrow> 'a list \<Rightarrow> 'b option" where
  "first_some f [] = None"
| "first_some f (x # xs) = (case f x of Some y \<Rightarrow> Some y | None \<Rightarrow> first_some f xs)"

fun js_join :: "char \<Rightarrow> string list \<Rightarrow> string" where
  "js_join c [] = []"
| "js_join c [w] = w"
| "js_join c (w # ws) = w @ c # js_join c ws"

text \<open>
  \<open>h.indexOf(n)\<close>: the first position at which \<open>n\<close> occurs in \<open>h\<close>; the
  source's \<open>-1\<close> is \<open>None\<close>.  The search starts at every position of \<open>h\<close>
  including its end, so the empty needle is found at 0.
\<close>

fun index_of_from :: "string \<Rightarrow> string \<Rightarrow> nat \<Rightarrow> nat option" where
  "index_of_from n [] i = (if n = [] then Some i else None)"
| "index_of_from n (x # h) i =
     (if prefix n (x # h) then Some i else index_of_from n h (Suc i))"

definition index_of :: "string \<Rightarrow> string \<Rightarrow> nat option" where
  "index_of h n = index_of_from n h 0"

text \<open>
  The whitespace characters \<open>String.prototype.trim\<close> removes, restricted to
  single-byte characters: space, tab, line feed, vertical tab, form feed,
  carriage return.
\<close>

definition is_ws :: "char \<Rightarrow> bool" where
  "is_ws ch \<longleftrightarrow> ch \<in> {CHR '' '', CHR 0x09, CHR 0x0A, CHR 0x0B, CHR 0x0C, CHR 0x0D}"

definition js_trim :: "string \<Rightarrow> string" where
  "js_trim s = rev (dropWhile is_ws (rev (dropWhile is_ws s)))"

text \<open>\<open>Array.prototype.join(sep)\<close> with a string separator.\<close>

fun join_with :: "string \<Rightarrow> string list \<Rightarrow> string" where
  "join_with sep [] = []"
| "join_with sep [w] = w"
| "join_with sep (w # ws) = w @ sep @ join_with sep ws"

text \<open>\<open>xs.map(f)\<close> with an \<open>f\<close> that may throw: the first exception propagates.\<close>

fun map_r :: "('a \<Rightarrow> 'e + 'b) \<Rightarrow> 'a list \<Rightarrow> 'e + 'b list" where
  "map_r f [] = Inr []"
| "map_r f (x # xs) = bind_r (f x) (\<lambda>y. bind_r (map_r f xs) (\<lambda>ys. Inr (y # ys)))"

subsection \<open>Exceptions\<close>

lemma bind_r_Inr [simp]: "bind_r (Inr a) f = f a"
  and bind_r_Inl [simp]: "bind_r (Inl e) f = Inl e"
  by (simp_all add: bind_r_def)

lemma bind_r_eq_Inr:
  "bind_r m f = Inr b \<longleftrightarrow> (\<exists>a. m = Inr a \<and> f a = Inr b)"
  by (cases m) (simp_all add: bind_r_def)

lemma map_r_cong [fundef_cong]:
  "xs = ys \<Longrightarrow> (\<And>x. x \<in> set ys \<Longrightarrow> f x = g x) \<Longrightarrow> map_r f xs = map_r g ys"
  by (induction ys arbitrary: xs) auto

lemma map_r_Inr_iff:
  "map_r f xs = Inr ys \<longleftrightarrow> list_all2 (\<lambda>x y. f x = Inr y) xs ys"
  by (induction xs arbitrary: ys) (auto simp: bind_r_eq_Inr list_all2_Cons1)

lemma map_r_total: "(\<And>x. x \<in> set xs \<Longrightarrow> \<exists>y. f x = Inr y) \<Longrightarrow> \<exists>ys. map_r f xs = Inr ys"
  by (induction xs) (auto simp: bind_r_eq_Inr)

subsection \<open>\<open>split\<close> and \<open>join\<close>\<close>

lemma js_split_not_Nil [simp]: "js_split c s \<noteq> []"
  by (induction s) (auto split: list.split)

lemma js_split_no_sep [js_string_simps]: "c \<notin> set s \<Longrightarrow> js_split c s = [s]"
  by (induction s) auto

lemma js_split_append_sep [js_string_simps]:
  "c \<notin> set a \<Longrightarrow> js_split c (a @ c # b) = a # js_split c b"
  by (induction a) auto

lemma js_split_append_sep_general:
  "js_split c (a @ c # b) = js_split c a @ js_split c b"
proof (induction a)
  case Nil
  then show ?case by simp
next
  case (Cons x xs)
  obtain w ws where "js_split c xs = w # ws"
    using js_split_not_Nil by (cases "js_split c xs") auto
  with Cons show ?case by simp
qed

lemma js_split_hd_eq:
  "js_split c s = w # ws \<Longrightarrow> c \<notin> set w \<and>
     (ws = [] \<and> s = w \<or> (\<exists>r. s = w @ c # r \<and> js_split c r = ws))"
proof (induction s arbitrary: w ws)
  case Nil
  then show ?case by simp
next
  case (Cons x xs)
  show ?case
  proof (cases "x = c")
    case True
    with Cons.prems show ?thesis by auto
  next
    case False
    obtain v vs where v: "js_split c xs = v # vs"
      using js_split_not_Nil by (cases "js_split c xs") auto
    with Cons.prems False have "w = x # v" "ws = vs" by simp_all
    with Cons.IH [OF v] False show ?thesis by auto
  qed
qed

lemma js_join_Cons_Cons: "js_join c ((x # w) # ws) = x # js_join c (w # ws)"
  by (cases ws) simp_all

lemma js_join_js_split [js_string_simps]: "js_join c (js_split c s) = s"
proof (induction s)
  case Nil
  then show ?case by simp
next
  case (Cons x xs)
  obtain w ws where sp: "js_split c xs = w # ws"
    using js_split_not_Nil by (cases "js_split c xs") auto
  with Cons.IH show ?case
    by (cases ws) (simp_all add: js_join_Cons_Cons)
qed

lemma js_split_inj: "js_split c p = js_split c q \<Longrightarrow> p = q"
  by (metis js_join_js_split)

lemma js_split_js_join [js_string_simps]:
  "ws \<noteq> [] \<Longrightarrow> \<forall>w\<in>set ws. c \<notin> set w \<Longrightarrow> js_split c (js_join c ws) = ws"
  by (induction c ws rule: js_join.induct) (simp_all add: js_split_append_sep js_split_no_sep)

subsection \<open>\<open>indexOf\<close>\<close>

lemma index_of_from_Some:
  "index_of_from n h i = Some j \<Longrightarrow>
     i \<le> j \<and> j - i \<le> length h \<and> prefix n (drop (j - i) h) \<and>
     (\<forall>k < j - i. \<not> prefix n (drop k h))"
proof (induction n h i rule: index_of_from.induct)
  case (1 n i)
  then show ?case by (simp split: if_splits)
next
  case (2 n x h i)
  show ?case
  proof (cases "prefix n (x # h)")
    case True
    with "2.prems" show ?thesis by simp
  next
    case False
    with "2.prems" have "index_of_from n h (Suc i) = Some j" by simp
    with "2.IH" False have ih: "Suc i \<le> j \<and> j - Suc i \<le> length h \<and>
        prefix n (drop (j - Suc i) h) \<and> (\<forall>k < j - Suc i. \<not> prefix n (drop k h))"
      by simp
    have "\<not> prefix n (drop k (x # h))" if "k < j - i" for k
      using ih False that by (cases k) auto
    moreover from ih have "j - i = Suc (j - Suc i)" by arith
    ultimately show ?thesis using ih by simp
  qed
qed

lemma index_of_from_None:
  "index_of_from n h i = None \<longleftrightarrow> \<not> sublist n h"
proof (induction n h i rule: index_of_from.induct)
  case (1 n i)
  then show ?case by simp
next
  case (2 n x h i)
  then show ?case by (auto simp: sublist_Cons_right)
qed

lemma index_of_from_shift:
  "index_of_from n h (Suc i) = map_option Suc (index_of_from n h i)"
  by (induction n h i rule: index_of_from.induct) auto

text \<open>The occurrence found first, characterised without recursion.\<close>

lemma index_of_first:
  assumes "k \<le> length h" and "prefix n (drop k h)"
    and "\<forall>j < k. \<not> prefix n (drop j h)"
  shows "index_of h n = Some k"
  using assms unfolding index_of_def
proof (induction h arbitrary: k)
  case Nil
  then show ?case by simp
next
  case (Cons x h)
  show ?case
  proof (cases k)
    case 0
    with Cons.prems show ?thesis by simp
  next
    case (Suc k')
    with Cons.prems have np: "\<not> prefix n (x # h)" by (metis drop0 zero_less_Suc)
    have "index_of_from n h 0 = Some k'"
      using Cons.prems Suc by (intro Cons.IH) auto
    with np Suc show ?thesis by (simp add: index_of_from_shift)
  qed
qed

subsection \<open>\<open>trim\<close>\<close>

lemma is_ws_code [code]:
  "is_ws ch \<longleftrightarrow> ch = CHR '' '' \<or> ch = CHR 0x09 \<or> ch = CHR 0x0A \<or> ch = CHR 0x0B
     \<or> ch = CHR 0x0C \<or> ch = CHR 0x0D"
  by (auto simp: is_ws_def)

lemma js_trim_no_ws [js_string_simps]:
  assumes "s = [] \<or> (\<not> is_ws (hd s) \<and> \<not> is_ws (last s))"
  shows "js_trim s = s"
proof (cases "s = []")
  case False
  with assms have "\<not> is_ws (hd s)" and "\<not> is_ws (hd (rev s))"
    by (simp_all add: hd_rev)
  then have "dropWhile is_ws s = s" and "dropWhile is_ws (rev s) = rev s"
    by (cases s, simp_all, cases "rev s", simp_all)
  then show ?thesis by (simp add: js_trim_def)
qed (simp add: js_trim_def)

lemma hd_rev_dropWhile_rev:
  "rev (dropWhile P (rev u)) \<noteq> [] \<Longrightarrow> hd (rev (dropWhile P (rev u))) = hd u"
proof (induction u rule: rev_induct)
  case Nil then show ?case by simp
next
  case (snoc x xs)
  then show ?case by (cases "P x") (auto simp: hd_append)
qed

lemma js_trim_idem [js_string_simps]: "js_trim (js_trim s) = js_trim s"
proof (rule js_trim_no_ws)
  let ?u = "dropWhile is_ws s"
  let ?t = "rev (dropWhile is_ws (rev ?u))"
  show "js_trim s = [] \<or> \<not> is_ws (hd (js_trim s)) \<and> \<not> is_ws (last (js_trim s))"
  proof (cases "?t = []")
    case True then show ?thesis by (simp add: js_trim_def)
  next
    case False
    then have "?u \<noteq> []" by (metis Nil_is_rev_conv dropWhile.simps(1))
    then have "\<not> is_ws (hd ?u)" using hd_dropWhile by blast
    moreover have "hd ?t = hd ?u" using False by (rule hd_rev_dropWhile_rev)
    moreover have "\<not> is_ws (last ?t)"
      using False by (simp add: last_rev) (metis False Nil_is_rev_conv hd_dropWhile)
    ultimately show ?thesis using False by (simp add: js_trim_def)
  qed
qed

subsection \<open>Searching for a separator\<close>

lemma prefix_drop_sublist: "prefix n (drop j zs) \<Longrightarrow> sublist n zs"
  by (meson prefix_imp_sublist sublist_order.dual_order.trans suffix_drop suffix_imp_sublist)

lemma index_of_append_first:
  assumes "n \<noteq> []" and "\<not> sublist n (xs @ butlast n)"
  shows "index_of (xs @ n @ ys) n = Some (length xs)"
proof (rule index_of_first)
  show "length xs \<le> length (xs @ n @ ys)" by simp
  show "prefix n (drop (length xs) (xs @ n @ ys))" by simp
  show "\<forall>j < length xs. \<not> prefix n (drop j (xs @ n @ ys))"
  proof (intro allI impI notI)
    fix j assume j: "j < length xs" and pre: "prefix n (drop j (xs @ n @ ys))"
    let ?zs = "xs @ butlast n"
    have split: "xs @ n @ ys = ?zs @ (last n # ys)"
      using assms(1) by (metis append.assoc append_butlast_last_id append_Cons append_Nil)
    have len: "length n \<le> length (drop j ?zs)" using j assms(1) by (cases n) auto
    from pre split have p1: "prefix n (drop j ?zs @ (last n # ys))"
      using j by simp
    have p2: "prefix (drop j ?zs) (drop j ?zs @ (last n # ys))" by (rule prefixI) (rule refl)
    have "prefix n (drop j ?zs)"
      by (rule prefix_length_prefix [OF p1 p2 len])
    then have "sublist n ?zs" by (rule prefix_drop_sublist)
    with assms(2) show False by simp
  qed
qed

lemma index_of_before:
  assumes "n \<noteq> []" and "sublist n (xs @ butlast n)"
  shows "\<exists>i < length xs. index_of (xs @ n @ ys) n = Some i"
proof -
  from assms(2) obtain ps ss where ps: "xs @ butlast n = ps @ n @ ss"
    by (auto simp: sublist_def)
  have pos: "0 < length n" using assms(1) by simp
  have "length xs + (length n - 1) = length ps + (length n + length ss)"
    using arg_cong [OF ps, of length] by simp
  then have "length ps + length n \<le> length xs + length n - 1" using pos by linarith
  then have lt: "length ps < length xs" using assms(1) by (cases n) auto
  have buf: "xs @ n @ ys = ps @ n @ (ss @ last n # ys)"
    using ps assms(1) by (metis append.assoc append_butlast_last_id append_Cons append_Nil)
  then have "sublist n (xs @ n @ ys)" by (metis sublist_appendI)
  then obtain i where i: "index_of (xs @ n @ ys) n = Some i"
    by (cases "index_of (xs @ n @ ys) n") (auto simp: index_of_def index_of_from_None)
  from index_of_from_Some [OF i [unfolded index_of_def]]
  have "\<forall>k < i. \<not> prefix n (drop k (xs @ n @ ys))" by simp
  moreover have "prefix n (drop (length ps) (xs @ n @ ys))" unfolding buf by simp
  ultimately have "i \<le> length ps" by (meson not_less)
  with lt i show ?thesis by auto
qed

lemma prefix_append_not_in:
  assumes "c \<notin> set p" and "prefix p (x @ c # b)"
  shows "prefix p x"
proof -
  from assms(2) consider "prefix p x" | us where "p = x @ us" "prefix us (c # b)"
    by (auto simp: prefix_append)
  then show ?thesis
  proof cases
    case 2
    with assms(1) show ?thesis by (cases us) auto
  qed
qed

lemma find_upt_least:
  assumes "k < n" and "P k" and "\<forall>i < k. \<not> P i"
  shows "find P [0..<n] = Some k"
  using assms by (auto simp: find_Some_iff)

subsection \<open>Lists\<close>

lemma list_all_butlast_last:
  "xs \<noteq> [] \<Longrightarrow> list_all P xs \<longleftrightarrow> list_all P (butlast xs) \<and> P (last xs)"
  by (induction xs rule: rev_induct) auto

subsection \<open>\<open>indexOf\<close> against its specification\<close>

text \<open>\<open>indexOf\<close> agrees with its specification: when the needle occurs
  it returns the least position at which the text continues with the needle,
  and otherwise -1 (\<open>None\<close>).\<close>

theorem index_of_least:
  "index_of h n = (if sublist n h then Some (LEAST i. prefix n (drop i h)) else None)"
proof (cases "index_of h n")
  case None
  then show ?thesis by (simp add: index_of_def index_of_from_None)
next
  case (Some j)
  then have j: "prefix n (drop j h)" "\<forall>k < j. \<not> prefix n (drop k h)"
    using index_of_from_Some [of n h 0 j] by (simp_all add: index_of_def)
  then have "(LEAST i. prefix n (drop i h)) = j"
    by (intro Least_equality) (auto simp: not_less [symmetric])
  with Some j(1) show ?thesis by (simp add: prefix_drop_sublist)
qed

end
