(* ===== verification/DocTree.thy ===== *)
theory DocTree
  imports Prelude
begin

text \<open>
  The Document Tree Store (\<open>src/types.ts\<close> \<open>DocNode\<close>, \<open>src/utils.ts\<close>
  \<open>findNodeByPath\<close>, \<open>findAndUpdateFile\<close>, \<open>addNodeToZip\<close>, and
  \<open>getFileTree\<close> of \<open>src/services/geminiService.ts\<close>).  A node is a folder
  with an ordered child list or a file with a text body; a path is the
  slash-joined list of names from the root.  Next to the string-path code the
  theory keeps a reference model over segment lists (\<open>walk_segments\<close>,
  \<open>upd_segs\<close>) and proves that the string-path update implements it when no
  name contains a slash; lookup-after-update, the frame properties and
  idempotence are then proved on the segment model.
\<close>

subsection \<open>Data\<close>

datatype doc_node =
    DocFolder (name: string) (description: string) (children: "doc_node list")
  | DocFile (name: string) (description: string) (exampleContent: string)

definition slash :: char where
  "slash = CHR ''/''"

subsection \<open>Operations of the source\<close>

text \<open>
  \<open>findNodeByPath\<close>: the loop over \<open>pathSegments[1..]\<close> is a recursion over the
  remaining segments; at each step a non-folder fails, and the first child
  with the segment's name is taken (\<open>Array.prototype.find\<close>).
\<close>

fun walk_segments :: "doc_node \<Rightarrow> string list \<Rightarrow> doc_node option" where
  "walk_segments cur [] = Some cur"
| "walk_segments cur (seg # segs) =
     (case cur of
        DocFile _ _ _ \<Rightarrow> None
      | DocFolder _ _ cs \<Rightarrow>
          (case find (\<lambda>child. name child = seg) cs of
             None \<Rightarrow> None
           | Some next_node \<Rightarrow> walk_segments next_node segs))"

definition find_node_by_path :: "doc_node \<Rightarrow> path \<Rightarrow> doc_node option" where
  "find_node_by_path root p =
     (if p = [] then None
      else (case js_split slash p of
              [] \<Rightarrow> None
            | seg0 # segs \<Rightarrow> if name root \<noteq> seg0 then None else walk_segments root segs))"

text \<open>
  \<open>findAndUpdateFile\<close>: the inner \<open>recurse\<close> carries the path of the current
  node; it replaces the body of a file whose path equals the target, keeps a
  folder whose path equals it, and descends into a folder only when the
  target starts with the folder's path and a slash.
\<close>

fun recurse_update :: "path \<Rightarrow> string \<Rightarrow> doc_node \<Rightarrow> path \<Rightarrow> doc_node" where
  "recurse_update target content (DocFile n d c) current_path =
     (if current_path = target then DocFile n d content else DocFile n d c)"
| "recurse_update target content (DocFolder n d cs) current_path =
     (if current_path = target then DocFolder n d cs
      else if prefix (current_path @ [slash]) target
      then DocFolder n d
             (map (\<lambda>child. recurse_update target content child
                             (current_path @ [slash] @ name child)) cs)
      else DocFolder n d cs)"

definition find_and_update_file :: "doc_node \<Rightarrow> path \<Rightarrow> string \<Rightarrow> doc_node" where
  "find_and_update_file node target content = recurse_update target content node (name node)"

text \<open>\<open>getFileTree\<close>: the paths of all files, depth first, in child order.\<close>

fun get_file_tree :: "doc_node \<Rightarrow> path \<Rightarrow> path list" where
  "get_file_tree (DocFolder n d cs) p =
     concat (map (\<lambda>child. get_file_tree child (if p = [] then n else p @ [slash] @ n)) cs)"
| "get_file_tree (DocFile n d c) p = [if p = [] then n else p @ [slash] @ n]"

text \<open>
  \<open>addNodeToZip\<close>: the calls it makes on the archive, in order.  A folder is
  created as \<open>prefix/name/\<close> and its children are added inside it; a file is
  written at \<open>prefix/name\<close> with its body.
\<close>

datatype zip_entry = ZipFolder path | ZipFile path string

fun add_node_to_zip :: "doc_node \<Rightarrow> path \<Rightarrow> zip_entry list" where
  "add_node_to_zip (DocFolder n d cs) folder =
     ZipFolder (folder @ n @ [slash])
       # concat (map (\<lambda>child. add_node_to_zip child (folder @ n @ [slash])) cs)"
| "add_node_to_zip (DocFile n d c) folder = [ZipFile (folder @ n) c]"

subsection \<open>Reference model over segment lists\<close>

fun upd_segs :: "string list \<Rightarrow> string \<Rightarrow> doc_node \<Rightarrow> doc_node" where
  "upd_segs [] c (DocFile n d x) = DocFile n d c"
| "upd_segs [] c (DocFolder n d cs) = DocFolder n d cs"
| "upd_segs (s # ss) c (DocFile n d x) = DocFile n d x"
| "upd_segs (s # ss) c (DocFolder n d cs) =
     DocFolder n d (map (\<lambda>child. if name child = s then upd_segs ss c child else child) cs)"

text \<open>Names that are path segments: no slash inside.\<close>

fun no_slash :: "doc_node \<Rightarrow> bool" where
  "no_slash (DocFolder n d cs) \<longleftrightarrow> slash \<notin> set n \<and> (\<forall>child \<in> set cs. no_slash child)"
| "no_slash (DocFile n d c) \<longleftrightarrow> slash \<notin> set n"

text \<open>The spec's well-formedness: segment names, non-empty, unique among siblings.\<close>

fun wf_tree :: "doc_node \<Rightarrow> bool" where
  "wf_tree (DocFolder n d cs) \<longleftrightarrow> n \<noteq> [] \<and> slash \<notin> set n \<and> distinct (map name cs)
     \<and> (\<forall>child \<in> set cs. wf_tree child)"
| "wf_tree (DocFile n d c) \<longleftrightarrow> n \<noteq> [] \<and> slash \<notin> set n"

text \<open>
  Abstraction of a tree to the map from string paths to file bodies that
  \<open>findNodeByPath\<close> exposes (a folder or a missing path has no body), and the
  file paths of an archive.
\<close>

fun content_of :: "doc_node option \<Rightarrow> string option" where
  "content_of (Some (DocFile n d x)) = Some x"
| "content_of _ = None"

definition doc_contents :: "doc_node \<Rightarrow> path \<Rightarrow> string option" where
  "doc_contents root q = content_of (find_node_by_path root q)"

definition zip_file_paths :: "zip_entry list \<Rightarrow> path list" where
  "zip_file_paths es = concat (map (\<lambda>e. case e of ZipFile q _ \<Rightarrow> [q] | ZipFolder _ \<Rightarrow> []) es)"

text \<open>The tree with every file body erased: what the updates never change.\<close>

fun doc_skeleton :: "doc_node \<Rightarrow> doc_node" where
  "doc_skeleton (DocFolder n d cs) = DocFolder n d (map doc_skeleton cs)"
| "doc_skeleton (DocFile n d c) = DocFile n d []"

subsection \<open>The string-path update implements the segment update\<close>

lemma name_upd_segs [simp]: "name (upd_segs ss c n) = name n"
  by (cases "(ss, c, n)" rule: upd_segs.cases) simp_all

lemma name_recurse_update [simp]: "name (recurse_update t c n cp) = name n"
  by (cases n) simp_all

lemma no_slash_name: "no_slash n \<Longrightarrow> slash \<notin> set (name n)"
  by (cases n) simp_all

lemma wf_tree_no_slash: "wf_tree n \<Longrightarrow> no_slash n"
  by (induction n) auto

lemma slash_free_prefix_eq:
  assumes "slash \<notin> set a" "slash \<notin> set b" "prefix (a @ [slash]) (b @ slash # r)"
  shows "a = b"
  using assms
proof (induction a arbitrary: b)
  case Nil
  then show ?case by (cases b) auto
next
  case (Cons x a)
  then show ?case by (cases b) auto
qed

lemma slash_free_not_prefix:
  "slash \<notin> set b \<Longrightarrow> \<not> prefix (a @ [slash]) b"
  by (auto dest: set_mono_prefix)

lemma recurse_update_segs:
  assumes "no_slash n"
  shows "recurse_update t c n cp =
    (if t = cp then upd_segs [] c n
     else if prefix (cp @ [slash]) t then upd_segs (js_split slash (drop (Suc (length cp)) t)) c n
     else n)"
  using assms
proof (induction n arbitrary: cp)
  case (DocFile n d x)
  then show ?case
    by (cases "js_split slash (drop (Suc (length cp)) t)") auto
next
  case (DocFolder n d cs)
  show ?case
  proof (cases "t \<noteq> cp \<and> prefix (cp @ [slash]) t")
    case True
    then obtain r where t: "t = cp @ slash # r" by (auto simp: prefix_def)
    obtain s ss where split_r: "js_split slash r = s # ss"
      using js_split_not_Nil by (cases "js_split slash r") auto
    have child: "recurse_update t c ch (cp @ [slash] @ name ch) =
        (if name ch = s then upd_segs ss c ch else ch)" if ch: "ch \<in> set cs" for ch
    proof -
      have ns1: "no_slash ch" using DocFolder.prems ch by simp
      then have ns: "no_slash ch" "slash \<notin> set (name ch)" by (simp_all add: no_slash_name)
      have ih: "recurse_update t c ch (cp @ [slash] @ name ch) =
        (if t = cp @ [slash] @ name ch then upd_segs [] c ch
         else if prefix ((cp @ [slash] @ name ch) @ [slash]) t
         then upd_segs (js_split slash (drop (Suc (length (cp @ [slash] @ name ch))) t)) c ch
         else ch)"
        using DocFolder.IH [OF ch ns1] .
      from js_split_hd_eq [OF split_r]
      consider (last) "slash \<notin> set s" "ss = []" "r = s"
        | (more) r' where "slash \<notin> set s" "r = s @ slash # r'" "js_split slash r' = ss"
        by blast
      then show ?thesis
      proof cases
        case last
        then show ?thesis using ih ns t
          by (auto simp: slash_free_not_prefix)
      next
        case more
        then have "slash \<in> set r" by simp
        then have "r \<noteq> name ch" using ns by blast
        with more show ?thesis using ih ns t
          by (auto dest: slash_free_prefix_eq)
      qed
    qed
    have "map (\<lambda>ch. recurse_update t c ch (cp @ [slash] @ name ch)) cs =
        map (\<lambda>ch. if name ch = s then upd_segs ss c ch else ch) cs"
      using child by simp
    with True t split_r show ?thesis by simp
  next
    case False
    then show ?thesis by auto
  qed
qed

lemma find_and_update_file_segs:
  assumes "no_slash n"
  shows "find_and_update_file n t c =
    (case js_split slash t of
       [] \<Rightarrow> n
     | s # ss \<Rightarrow> if s = name n then upd_segs ss c n else n)"
proof -
  have nn: "slash \<notin> set (name n)" using assms by (rule no_slash_name)
  obtain s ss where sp: "js_split slash t = s # ss"
    using js_split_not_Nil by (cases "js_split slash t") auto
  from js_split_hd_eq [OF sp]
  consider (one) "slash \<notin> set s" "ss = []" "t = s"
    | (more) r where "slash \<notin> set s" "t = s @ slash # r" "js_split slash r = ss"
    by blast
  then show ?thesis
  proof cases
    case one
    with nn sp show ?thesis
      by (auto simp: find_and_update_file_def recurse_update_segs [OF assms] slash_free_not_prefix)
  next
    case more
    then have "slash \<in> set t" by simp
    then have "t \<noteq> name n" using nn by blast
    with more nn sp show ?thesis
      by (auto simp: find_and_update_file_def recurse_update_segs [OF assms]
               dest: slash_free_prefix_eq)
  qed
qed

lemma find_map_same_name:
  assumes "\<And>x. name (g x) = name x"
  shows "find (\<lambda>child. name child = s) (map g cs) = map_option g (find (\<lambda>child. name child = s) cs)"
  using assms by (induction cs) auto

lemma walk_upd_segs:
  "walk_segments (upd_segs ss c n) ss' =
     (if prefix ss' ss then map_option (upd_segs (drop (length ss') ss) c) (walk_segments n ss')
      else walk_segments n ss')"
proof (induction ss' arbitrary: n ss)
  case Nil
  then show ?case by simp
next
  case (Cons s' rest)
  show ?case
  proof (cases n)
    case (DocFile nm d x)
    then show ?thesis by (cases ss) simp_all
  next
    case (DocFolder nm d cs)
    show ?thesis
    proof (cases ss)
      case Nil
      with DocFolder show ?thesis by simp
    next
      case (Cons s ss1)
      let ?g = "\<lambda>child. if name child = s then upd_segs ss1 c child else child"
      have fm: "find (\<lambda>child. name child = s') (map ?g cs) =
          map_option ?g (find (\<lambda>child. name child = s') cs)"
        by (rule find_map_same_name) simp
      show ?thesis
      proof (cases "find (\<lambda>child. name child = s') cs")
        case None
        with fm DocFolder Cons show ?thesis by (cases "s' = s") simp_all
      next
        case (Some ch)
        then have "name ch = s'" by (auto simp: find_Some_iff)
        with Cons.IH [of ss1 ch] fm Some DocFolder \<open>ss = s # ss1\<close> show ?thesis
          by auto
      qed
    qed
  qed
qed

lemma find_node_by_path_segs:
  "find_node_by_path root p = Some m \<longleftrightarrow>
     p \<noteq> [] \<and> (\<exists>ss. js_split slash p = name root # ss \<and> walk_segments root ss = Some m)"
  by (auto simp: find_node_by_path_def split: list.splits)

lemma content_of_upd_segs:
  "content_of (map_option (upd_segs ss c) m) =
     (if ss = [] \<and> content_of m \<noteq> None then Some c else content_of m)"
proof (cases m)
  case (Some a)
  then show ?thesis by (cases a; cases ss) simp_all
qed simp

lemma content_walk_upd_segs:
  "content_of (walk_segments (upd_segs ss c n) ss') =
     (if ss' = ss \<and> content_of (walk_segments n ss') \<noteq> None then Some c
      else content_of (walk_segments n ss'))"
proof (cases "prefix ss' ss")
  case True
  then obtain z where z: "ss = ss' @ z" by (auto simp: prefix_def)
  then have "drop (length ss') ss = [] \<longleftrightarrow> ss' = ss" by simp
  with True show ?thesis by (simp add: walk_upd_segs content_of_upd_segs)
next
  case False
  then show ?thesis by (auto simp: walk_upd_segs)
qed

lemma doc_contents_segs:
  "doc_contents root q =
     (if q = [] then None
      else case js_split slash q of
             [] \<Rightarrow> None
           | s # ss \<Rightarrow> if s = name root then content_of (walk_segments root ss) else None)"
  by (auto simp: doc_contents_def find_node_by_path_def split: list.split)

lemma recurse_update_idem:
  "recurse_update t c (recurse_update t c n cp) cp = recurse_update t c n cp"
  by (induction n arbitrary: cp) (auto simp: comp_def)

lemma find_distinct_name:
  "distinct (map name cs) \<Longrightarrow> ch \<in> set cs \<Longrightarrow> find (\<lambda>x. name x = name ch) cs = Some ch"
  by (induction cs) (auto simp: image_iff)

lemma upd_segs_noop:
  "wf_tree n \<Longrightarrow> content_of (walk_segments n ss) = None \<Longrightarrow> upd_segs ss c n = n"
proof (induction ss arbitrary: n)
  case Nil
  then show ?case by (cases n) simp_all
next
  case (Cons s ss)
  show ?case
  proof (cases n)
    case (DocFile nm d x)
    then show ?thesis by simp
  next
    case (DocFolder nm d cs)
    have "upd_segs ss c ch = ch" if ch: "ch \<in> set cs" "name ch = s" for ch
    proof -
      from Cons.prems DocFolder ch have "find (\<lambda>x. name x = s) cs = Some ch"
        using find_distinct_name [of cs ch] by simp
      with Cons.prems DocFolder have "content_of (walk_segments ch ss) = None" by simp
      moreover from Cons.prems DocFolder ch have "wf_tree ch" by simp
      ultimately show ?thesis by (rule Cons.IH [rotated])
    qed
    then have "map (\<lambda>child. if name child = s then upd_segs ss c child else child) cs = cs"
      by (simp add: map_idI)
    with DocFolder show ?thesis by simp
  qed
qed

lemma get_file_tree_recurse_update:
  "get_file_tree (recurse_update t c n cp) q = get_file_tree n q"
  by (induction n arbitrary: cp q) (auto simp: comp_def cong: map_cong)

lemma wf_tree_recurse_update:
  "wf_tree (recurse_update t c n cp) = wf_tree n"
  by (induction n arbitrary: cp) (auto simp: comp_def cong: map_cong)

lemma skeleton_recurse_update [simp]: "doc_skeleton (recurse_update t c n cp) = doc_skeleton n"
  by (induction n arbitrary: cp) (auto simp: comp_def cong: map_cong)

lemma skeleton_find_and_update_file [simp]: "doc_skeleton (find_and_update_file t p c) = doc_skeleton t"
  by (simp add: find_and_update_file_def)

lemma name_skeleton [simp]: "name (doc_skeleton n) = name n"
  by (cases n) simp_all

lemma get_file_tree_skeleton: "get_file_tree (doc_skeleton n) q = get_file_tree n q"
  by (induction n arbitrary: q) (auto simp: comp_def cong: map_cong)

lemma wf_tree_skeleton: "wf_tree (doc_skeleton n) = wf_tree n"
  by (induction n) (auto simp: comp_def cong: map_cong)

lemma skeleton_eq_shape:
  assumes "doc_skeleton a = doc_skeleton b"
  shows "get_file_tree a = get_file_tree b \<and> wf_tree a = wf_tree b"
proof
  have "get_file_tree a q = get_file_tree b q" for q
    using get_file_tree_skeleton [of a q] get_file_tree_skeleton [of b q] assms by simp
  then show "get_file_tree a = get_file_tree b" ..
  show "wf_tree a = wf_tree b" using wf_tree_skeleton [of a] wf_tree_skeleton [of b] assms by simp
qed

lemma find_and_update_file_shape:
  "get_file_tree (find_and_update_file t p c) = get_file_tree t \<and> wf_tree (find_and_update_file t p c) = wf_tree t"
  by (simp add: find_and_update_file_def get_file_tree_recurse_update wf_tree_recurse_update fun_eq_iff)

lemma zip_file_paths_concat:
  "zip_file_paths (concat xss) = concat (map zip_file_paths xss)"
  by (induction xss) (simp_all add: zip_file_paths_def)

lemma zip_file_paths_Cons_folder [simp]:
  "zip_file_paths (ZipFolder q # es) = zip_file_paths es"
  by (simp add: zip_file_paths_def)

lemma zip_file_paths_below:
  "p \<noteq> [] \<Longrightarrow> zip_file_paths (add_node_to_zip n (p @ [slash])) = get_file_tree n p"
proof (induction n arbitrary: p)
  case (DocFolder n d cs)
  have "zip_file_paths (add_node_to_zip ch (p @ [slash] @ n @ [slash])) =
      get_file_tree ch (p @ [slash] @ n)" if "ch \<in> set cs" for ch
    using DocFolder.IH [OF that, of "p @ [slash] @ n"] by simp
  with DocFolder.prems show ?case
    by (simp add: zip_file_paths_concat comp_def cong: map_cong)
qed (simp add: zip_file_paths_def)

lemma resolve_after_update:
  assumes "no_slash root" and "find_node_by_path root p = Some (DocFile n d x)"
  shows "find_node_by_path (find_and_update_file root p c) p = Some (DocFile n d c)"
proof -
  from assms(2) obtain ss where p: "p \<noteq> []" "js_split slash p = name root # ss"
    and w: "walk_segments root ss = Some (DocFile n d x)"
    by (auto simp: find_node_by_path_segs)
  have u: "find_and_update_file root p c = upd_segs ss c root"
    using find_and_update_file_segs [OF assms(1)] p by simp
  have "walk_segments (upd_segs ss c root) ss = Some (DocFile n d c)"
    using w by (simp add: walk_upd_segs)
  with u p show ?thesis by (simp add: find_node_by_path_segs)
qed

lemma walk_upd_segs_None:
  "walk_segments (upd_segs ss c n) ss' = None \<longleftrightarrow> walk_segments n ss' = None"
  by (simp add: walk_upd_segs)

subsection \<open>Properties of the store\<close>

text \<open>
  C7. Updating a path that resolves to a file and then resolving the same path
  gives that file with the new body (name and description kept), for every tree
  whose names are path segments.
\<close>

theorem update_then_resolve:
  assumes "no_slash root" and "find_node_by_path root p = Some (DocFile n d x)"
  shows "find_node_by_path (find_and_update_file root p c) p = Some (DocFile n d c)"
  using resolve_after_update [OF assms] .

theorem update_then_resolve_witness:
  "no_slash (DocFolder ''docs'' ''root'' [DocFile ''README.md'' ''entry'' ''old''])
   \<and> find_node_by_path (DocFolder ''docs'' ''root'' [DocFile ''README.md'' ''entry'' ''old''])
       ''docs/README.md'' = Some (DocFile ''README.md'' ''entry'' ''old'')
   \<and> find_node_by_path
       (find_and_update_file (DocFolder ''docs'' ''root'' [DocFile ''README.md'' ''entry'' ''old''])
          ''docs/README.md'' ''new'') ''docs/README.md''
     = Some (DocFile ''README.md'' ''entry'' ''new'')"
proof -
  have h1: "no_slash (DocFolder ''docs'' ''root'' [DocFile ''README.md'' ''entry'' ''old''])"
    by (simp add: slash_def)
  have h2: "find_node_by_path (DocFolder ''docs'' ''root'' [DocFile ''README.md'' ''entry'' ''old''])
       ''docs/README.md'' = Some (DocFile ''README.md'' ''entry'' ''old'')"
    by (simp add: find_node_by_path_def slash_def)
  show ?thesis using h1 h2 update_then_resolve [OF h1 h2] by blast
qed

lemma contents_update_at_root:
  assumes "no_slash root" "js_split slash p = s # ss" "s = name root"
  shows "doc_contents (find_and_update_file root p c) q =
           (if q = p \<and> doc_contents root p \<noteq> None then Some c else doc_contents root q)"
proof -
  obtain s' ss' where q: "js_split slash q = s' # ss'"
    using js_split_not_Nil by (cases "js_split slash q") auto
  have pq: "(s' = s \<and> ss' = ss) \<longleftrightarrow> q = p"
  proof
    assume "s' = s \<and> ss' = ss"
    then show "q = p" using assms(2) q by (intro js_split_inj [of slash]) simp
  qed (use assms(2) q in simp)
  have upd: "find_and_update_file root p c = upd_segs ss c root"
    using find_and_update_file_segs [OF assms(1)] assms(2,3) by simp
  have cq: "doc_contents (find_and_update_file root p c) q =
      (if q = [] \<or> s' \<noteq> name root then None else content_of (walk_segments (upd_segs ss c root) ss'))"
    using upd q by (simp add: doc_contents_segs)
  have cq0: "doc_contents root q =
      (if q = [] \<or> s' \<noteq> name root then None else content_of (walk_segments root ss'))"
    using q by (simp add: doc_contents_segs)
  have cp0: "doc_contents root p = (if p = [] then None else content_of (walk_segments root ss))"
    using assms(2,3) by (simp add: doc_contents_segs)
  show ?thesis
  proof (cases "q = p")
    case True
    with cq cq0 cp0 pq show ?thesis by (simp add: content_walk_upd_segs)
  next
    case False
    with cq cq0 pq assms(3) show ?thesis by (simp add: content_walk_upd_segs)
  qed
qed

text \<open>
  C8. Refinement: on trees whose names are path segments, \<open>findAndUpdateFile\<close>
  acts on the path-to-body map exactly as a map update at the path when the path
  holds a file, and leaves the map unchanged otherwise (folders and missing
  paths are ignored, no other file changes).
\<close>

theorem update_refines_content_map:
  assumes "no_slash root"
  shows "doc_contents (find_and_update_file root p c) =
    (if doc_contents root p \<noteq> None then (doc_contents root)(p \<mapsto> c) else doc_contents root)"
proof -
  obtain s ss where p: "js_split slash p = s # ss"
    using js_split_not_Nil by (cases "js_split slash p") auto
  show ?thesis
  proof (cases "s = name root")
    case False
    then have "find_and_update_file root p c = root" "doc_contents root p = None"
      using find_and_update_file_segs [OF assms] p by (simp_all add: doc_contents_segs)
    then show ?thesis by simp
  next
    case True
    show ?thesis using contents_update_at_root [OF assms p True] by (auto simp: fun_eq_iff)
  qed
qed

theorem update_refines_content_map_witness:
  "no_slash (DocFolder ''docs'' ''root'' [DocFolder ''a'' ''f'' [DocFile ''x.md'' ''e'' ''old'']])
   \<and> doc_contents (find_and_update_file
        (DocFolder ''docs'' ''root'' [DocFolder ''a'' ''f'' [DocFile ''x.md'' ''e'' ''old'']])
        ''docs/a/x.md'' ''new'') ''docs/a/x.md'' = Some ''new''"
proof -
  have h: "no_slash (DocFolder ''docs'' ''root'' [DocFolder ''a'' ''f'' [DocFile ''x.md'' ''e'' ''old'']])"
    by (simp add: slash_def)
  have "doc_contents (DocFolder ''docs'' ''root'' [DocFolder ''a'' ''f'' [DocFile ''x.md'' ''e'' ''old'']])
      ''docs/a/x.md'' = Some ''old''"
    by (simp add: doc_contents_def find_node_by_path_def slash_def)
  then show ?thesis
    using h update_refines_content_map [OF h, of "''docs/a/x.md''" "''new''"] by simp
qed

text \<open>
  The update is idempotent: applying it twice with the same path and body
  gives the same tree as applying it once, for every tree.
\<close>

theorem update_idempotent:
  "find_and_update_file (find_and_update_file n t c) t c = find_and_update_file n t c"
  by (simp add: find_and_update_file_def recurse_update_idem)

text \<open>
  The update never makes a path resolve that did not resolve before: a
  path that \<open>findNodeByPath\<close> maps to null still maps to null after any update.
\<close>

theorem update_keeps_missing:
  assumes "no_slash root" and "find_node_by_path root q = None"
  shows "find_node_by_path (find_and_update_file root p c) q = None"
proof -
  obtain s ss where p: "js_split slash p = s # ss"
    using js_split_not_Nil by (cases "js_split slash p") auto
  have upd: "find_and_update_file root p c = (if s = name root then upd_segs ss c root else root)"
    using find_and_update_file_segs [OF assms(1)] p by simp
  show ?thesis
  proof (cases "s = name root")
    case True
    with assms(2) upd show ?thesis
      by (auto simp: find_node_by_path_def walk_upd_segs_None split: list.split)
  qed (simp add: upd assms(2))
qed

theorem update_keeps_missing_witness:
  "no_slash (DocFolder ''docs'' ''root'' [DocFile ''README.md'' ''entry'' ''old''])
   \<and> find_node_by_path (DocFolder ''docs'' ''root'' [DocFile ''README.md'' ''entry'' ''old''])
       ''docs/MISSING.md'' = None
   \<and> find_node_by_path
       (find_and_update_file (DocFolder ''docs'' ''root'' [DocFile ''README.md'' ''entry'' ''old''])
          ''docs/README.md'' ''new'') ''docs/MISSING.md'' = None"
proof -
  have h1: "no_slash (DocFolder ''docs'' ''root'' [DocFile ''README.md'' ''entry'' ''old''])"
    by (simp add: slash_def)
  have h2: "find_node_by_path (DocFolder ''docs'' ''root'' [DocFile ''README.md'' ''entry'' ''old''])
       ''docs/MISSING.md'' = None"
    by (simp add: find_node_by_path_def slash_def)
  show ?thesis using h1 h2 update_keeps_missing [OF h1 h2] by blast
qed

text \<open>
  Best-effort merge: on a well-formed tree (segment names, unique among
  siblings), an update at a path that does not hold a file (a folder or a
  missing path) returns the tree unchanged.
\<close>

theorem update_noop_unless_file:
  assumes "wf_tree root" and "doc_contents root p = None"
  shows "find_and_update_file root p c = root"
proof -
  obtain s ss where p: "js_split slash p = s # ss"
    using js_split_not_Nil by (cases "js_split slash p") auto
  have upd: "find_and_update_file root p c = (if s = name root then upd_segs ss c root else root)"
    using find_and_update_file_segs [OF wf_tree_no_slash [OF assms(1)]] p by simp
  show ?thesis
  proof (cases "s = name root")
    case True
    have "name root \<noteq> []" using assms(1) by (cases root) simp_all
    with True p have "p \<noteq> []" by auto
    with True p assms(2) have "content_of (walk_segments root ss) = None"
      by (simp add: doc_contents_segs)
    with upd True assms(1) show ?thesis by (simp add: upd_segs_noop)
  qed (simp add: upd)
qed

theorem update_noop_unless_file_witness:
  "wf_tree (DocFolder ''docs'' ''root'' [DocFolder ''a'' ''f'' []])
   \<and> doc_contents (DocFolder ''docs'' ''root'' [DocFolder ''a'' ''f'' []]) ''docs/a'' = None
   \<and> find_and_update_file (DocFolder ''docs'' ''root'' [DocFolder ''a'' ''f'' []]) ''docs/a'' ''x''
     = DocFolder ''docs'' ''root'' [DocFolder ''a'' ''f'' []]"
proof -
  have h1: "wf_tree (DocFolder ''docs'' ''root'' [DocFolder ''a'' ''f'' []])"
    by (simp add: slash_def)
  have h2: "doc_contents (DocFolder ''docs'' ''root'' [DocFolder ''a'' ''f'' []]) ''docs/a'' = None"
    by (simp add: doc_contents_def find_node_by_path_def slash_def)
  show ?thesis using h1 h2 update_noop_unless_file [OF h1 h2] by blast
qed

text \<open>
  The update never changes the shape of the tree: the file listing that
  \<open>getFileTree\<close> sends to the model is the same before and after, and
  well-formedness is kept.
\<close>

theorem update_keeps_shape:
  "get_file_tree (find_and_update_file root p c) q = get_file_tree root q \<and>
   wf_tree (find_and_update_file root p c) = wf_tree root"
  by (simp add: find_and_update_file_def get_file_tree_recurse_update wf_tree_recurse_update)

text \<open>
  The archive \<open>addNodeToZip\<close> builds holds one file entry per file of the
  tree, at the same paths and in the same order as \<open>getFileTree\<close> lists them.
\<close>

theorem archive_matches_file_tree:
  assumes "name root \<noteq> []"
  shows "zip_file_paths (add_node_to_zip root []) = get_file_tree root []"
proof (cases root)
  case (DocFolder n d cs)
  with assms show ?thesis
    using zip_file_paths_below [of n] by (simp add: zip_file_paths_concat comp_def cong: map_cong)
qed (simp add: zip_file_paths_def)

theorem archive_matches_file_tree_witness:
  "name (DocFolder ''docs'' ''r'' [DocFile ''a.md'' ''e'' ''x'']) \<noteq> []
   \<and> zip_file_paths (add_node_to_zip (DocFolder ''docs'' ''r'' [DocFile ''a.md'' ''e'' ''x'']) [])
     = get_file_tree (DocFolder ''docs'' ''r'' [DocFile ''a.md'' ''e'' ''x'']) []"
proof -
  have h: "name (DocFolder ''docs'' ''r'' [DocFile ''a.md'' ''e'' ''x'']) \<noteq> []" by simp
  show ?thesis using h archive_matches_file_tree [OF h] by blast
qed

end
