(* ===== verification/DocumentationData.thy ===== *)
theory DocumentationData
  imports DocTree
begin

text \<open>
  The static template the session is seeded with (\<open>src/documentationData.ts\<close>
  \<open>documentationStructure\<close>): every folder, file, description and initial
  body of the source, the template literals' line breaks written as \<open>nl\<close>.
  Each top-level folder is a definition of its own (\<open>seed_analysis\<close> and
  the four after it), in the order of the source.
\<close>

definition seed_analysis :: doc_node where
\<open>seed_analysis =
  DocFolder ''analysis''
    ''Contains documents related to understanding the problem and the business domain.''
    [
      DocFile ''domain_model.md''
        ''Defines the key business concepts (entities) and their relationships.''
        (''<!-- AI: Describe the main entities of the project, their key attributes, and how they relate to each other. For example: User, Product, Order. -->'' @ [nl] @ ''# Domain Model'' @ [nl]),
      DocFile ''glossary.md''
        ''A list of definitions for key terms specific to the project.''
        (''<!-- AI: Define any technical or business terms that are specific to this project to ensure everyone on the team has a shared understanding. -->'' @ [nl] @ ''# Project Glossary'' @ [nl]),
      DocFile ''initial_research.md''
        ''A summary of preliminary studies or market analysis.''
        (''<!-- AI: If the user provided any market research, competitor analysis, or initial findings, summarize them here. -->'' @ [nl] @ ''# Initial Research Summary'' @ [nl])
    ]\<close>

definition seed_requirements :: doc_node where
\<open>seed_requirements =
  DocFolder ''requirements''
    ''Defines what the system must do.''
    [
      DocFile ''functional_requirements.md''
        ''Details the specific behaviors and functions of the system.''
        (''<!-- AI: List the key functional requirements based on the user's project description. Use a format like FR-1.1, FR-1.2. -->'' @ [nl] @ ''# Functional Requirements'' @ [nl]),
      DocFile ''non_functional_requirements.md''
        ''Specifies the quality attributes like performance, security, etc.''
        (''<!-- AI: List key non-functional requirements. Focus on performance (e.g., page load time), security (e.g., password hashing), and usability. -->'' @ [nl] @ ''# Non-Functional Requirements'' @ [nl]),
      DocFile ''user_stories.md''
        ''Describes functionalities from an end-user perspective.''
        (''<!-- AI: Create a few core user stories based on the project's main goals. Use the format: "As a [type of user], I want [an action] so that [a benefit]." and include acceptance criteria. -->'' @ [nl] @ ''# User Stories'' @ [nl])
    ]\<close>

definition seed_design :: doc_node where
\<open>seed_design =
  DocFolder ''design''
    ''Contains technical design documents.''
    [
      DocFile ''api_design.md''
        ''Specifications for the system's APIs (e.g., REST).''
        (''<!-- AI: Design a basic REST API for the project. Specify key resources and endpoints (e.g., GET /users, POST /orders) and show example request/response JSON. -->'' @ [nl] @ ''# API Design (REST)'' @ [nl]),
      DocFile ''database_schema.md''
        ''Describes the database structure.''
        (''<!-- AI: Propose a database schema. List the main tables, their columns, data types, and primary/foreign key relationships. -->'' @ [nl] @ ''# Database Schema'' @ [nl]),
      DocFolder ''uml''
        ''Contains UML diagrams for visual modeling.''
        [
          DocFile ''use_case_diagram.md''
            ''Visualizes the interactions between actors and use cases.''
            (''<!-- AI: Generate a Use Case diagram in Mermaid syntax. Identify the main actors (e.g., User, Admin) and the primary use cases. -->'' @ [nl] @ ''# Use Case Diagram'' @ [nl]),
          DocFile ''class_diagram.md''
            ''Represents the static structure of the system.''
            (''<!-- AI: Generate a Class Diagram in Mermaid syntax showing the core classes (from the domain model), their attributes, and relationships. -->'' @ [nl] @ ''# Class Diagram'' @ [nl]),
          DocFolder ''sequence_diagrams''
            ''Folder to hold multiple sequence diagrams.''
            [
              DocFile ''user_login_sequence.md''
                ''Shows the sequence of interactions for a user logging in.''
                (''<!-- AI: Generate a Sequence Diagram in Mermaid syntax for a critical flow, like a user login or placing an order. -->'' @ [nl] @ ''# User Login Sequence Diagram'' @ [nl])
            ]
        ]
    ]\<close>

definition seed_architecture :: doc_node where
\<open>seed_architecture =
  DocFolder ''architecture''
    ''Documents describing the high-level structure.''
    [
      DocFile ''architecture_overview.md''
        ''A high-level description of the chosen architectural style.''
        (''<!-- AI: Propose a high-level architecture (e.g., 3-Tier, Microservices). Describe the main components and create a simple diagram in Mermaid syntax. -->'' @ [nl] @ ''# Architecture Overview'' @ [nl]),
      DocFolder ''decision_records''
        ''A collection of Architectural Decision Records (ADRs).''
        [
          DocFile ''adr_001_database_choice.md''
            ''An example ADR for choosing the primary database.''
            (''<!-- AI: Write an Architectural Decision Record (ADR) for a key technology choice, like the primary database (e.g., PostgreSQL vs. MongoDB). Justify the decision. -->'' @ [nl] @ ''# ADR-001: Choice of Primary Database'' @ [nl])
        ]
    ]\<close>

definition seed_meetings :: doc_node where
\<open>seed_meetings =
  DocFolder ''meetings''
    ''A record of meeting notes.''
    [
      DocFile ''2024-01-01_project_kickoff.md''
        ''Example notes from a project kick-off meeting.''
        (''<!-- AI: Create a sample meeting notes document for a project kickoff. Include attendees, agenda, and key decisions made. -->'' @ [nl] @ ''# Project Kick-off Meeting Notes'' @ [nl])
    ]\<close>

definition documentationStructure :: doc_node where
\<open>documentationStructure =
  DocFolder ''docs''
    ''Root folder for all project documentation.''
    [
      DocFile ''README.md''
        ''The entry point for the documentation.''
        (''<!-- AI: Generate a high-level README for the project. Include a brief overview, a link to the architecture overview, and a summary of the project's purpose. -->'' @ [nl] @ ''# Project Documentation'' @ [nl] @ [nl] @ ''Welcome! This is the central documentation repository for the project.'' @ [nl] @ [nl] @ ''Select a file from the list on the left to view its contents.'' @ [nl]),
      seed_analysis,
      seed_requirements,
      seed_design,
      seed_architecture,
      seed_meetings
    ]\<close>

lemmas seed_tree_defs = documentationStructure_def seed_analysis_def seed_requirements_def seed_design_def
  seed_architecture_def seed_meetings_def

text \<open>
  The spec's worked example on the real seed tree: \<open>docs/README.md\<close>
  resolves to the README file and \<open>docs/MISSING.md\<close> resolves to null.
\<close>

theorem seed_tree_resolve_example:
  "(\<exists>d c. find_node_by_path documentationStructure ''docs/README.md'' = Some (DocFile ''README.md'' d c))
   \<and> find_node_by_path documentationStructure ''docs/MISSING.md'' = None"
  by (simp add: seed_tree_defs find_node_by_path_def slash_def)

text \<open>
  The seed tree satisfies the store's invariant: every name is a non-empty
  path segment and sibling names are unique, so the lookup, update and archive
  theorems of \<open>DocTree\<close> apply to the tree the session starts from.
\<close>

lemma seed_tree_wf: "wf_tree documentationStructure"
  by (simp add: seed_tree_defs slash_def)

end
