(* ===== verification/Types.thy ===== *)
theory Types
  imports Prelude
begin

text \<open>
  The data of \<open>src/types.ts\<close> that the logic reads, and the JavaScript values it
  handles.  The model's replies are parsed by \<open>JSON.parse\<close> and never
  type-checked beyond two fields, so a payload is kept as the JSON value it is
  (\<open>json\<close>), with JavaScript's property access, truthiness and \<open>typeof\<close>
  written out: reading a property of \<open>null\<close> throws a \<open>TypeError\<close>, an absent
  property is \<open>undefined\<close> (\<open>None\<close>), and of duplicate keys \<open>JSON.parse\<close>
  keeps the last.  Numbers are kept as integers: the code tests them for
  truthiness and turns them into text (\<open>js_to_string\<close>, JavaScript's
  \<open>String(v)\<close> on the values a payload holds).
\<close>

datatype json =
    JNull
  | JBool bool
  | JNum int
  | JStr string
  | JArr "json list"
  | JObj "(string \<times> json) list"

text \<open>A thrown exception, by its class and message.\<close>

datatype js_exn = TypeError string | SyntaxError string | JsError string

type_synonym json_parser = "string \<Rightarrow> js_exn + json"

fun exn_message :: "js_exn \<Rightarrow> string" where
  "exn_message (TypeError m) = m"
| "exn_message (SyntaxError m) = m"
| "exn_message (JsError m) = m"

text \<open>Truthiness of a value that may be \<open>undefined\<close> (\<open>None\<close>).\<close>

fun truthy :: "json option \<Rightarrow> bool" where
  "truthy None = False"
| "truthy (Some JNull) = False"
| "truthy (Some (JBool b)) = b"
| "truthy (Some (JNum n)) = (n \<noteq> 0)"
| "truthy (Some (JStr s)) = (s \<noteq> [])"
| "truthy (Some (JArr xs)) = True"
| "truthy (Some (JObj kvs)) = True"

text \<open>\<open>v.k\<close> on a value that is not \<open>undefined\<close>.\<close>

fun get_prop :: "json \<Rightarrow> string \<Rightarrow> js_exn + json option" where
  "get_prop JNull k = Inl (TypeError (''Cannot read properties of null (reading '' @ [apos] @ k @ [apos] @ '')''))"
| "get_prop (JObj kvs) k = Inr (map_of (rev kvs) k)"
| "get_prop _ k = Inr None"

text \<open>\<open>v?.k\<close>: \<open>undefined\<close> when \<open>v\<close> is \<open>null\<close> or \<open>undefined\<close>; never throws.\<close>

fun opt_prop :: "json option \<Rightarrow> string \<Rightarrow> json option" where
  "opt_prop None k = None"
| "opt_prop (Some JNull) k = None"
| "opt_prop (Some (JObj kvs)) k = map_of (rev kvs) k"
| "opt_prop (Some _) k = None"

fun is_boolean :: "json option \<Rightarrow> bool" where
  "is_boolean (Some (JBool b)) = True"
| "is_boolean _ = False"

text \<open>JavaScript's \<open>String(v)\<close>, as \<open>+=\<close> on a string and template literals apply it.\<close>

definition digits :: string where
  "digits = ''0123456789''"

fun nat_to_dec :: "nat \<Rightarrow> string" where
  "nat_to_dec n = (if n < 10 then [digits ! n] else nat_to_dec (n div 10) @ [digits ! (n mod 10)])"

definition int_to_dec :: "int \<Rightarrow> string" where
  "int_to_dec i = (if i < 0 then CHR ''-'' # nat_to_dec (nat (- i)) else nat_to_dec (nat i))"

fun js_to_string :: "json \<Rightarrow> string" where
  "js_to_string JNull = ''null''"
| "js_to_string (JBool b) = (if b then ''true'' else ''false'')"
| "js_to_string (JNum n) = int_to_dec n"
| "js_to_string (JStr s) = s"
| "js_to_string (JArr xs) = js_join (CHR '','') (map (\<lambda>x. if x = JNull then [] else js_to_string x) xs)"
| "js_to_string (JObj kvs) = ''[object Object]''"

text \<open>Property access on a value that may be \<open>undefined\<close>: \<open>v.k\<close> throws on it.\<close>

fun js_member :: "json option \<Rightarrow> string \<Rightarrow> js_exn + json option" where
  "js_member None k = Inl (TypeError (''Cannot read properties of undefined (reading '' @ [apos] @ k @ [apos] @ '')''))"
| "js_member (Some v) k = get_prop v k"

subsection \<open>Declared types\<close>

record message =
  author :: string
  content :: string

datatype llm_provider = Google | OpenRouter

text \<open>\<open>AgentStreamEvent\<close>: the events a cycle yields; an update carries the parsed JSON.\<close>

datatype agent_stream_event =
    Chunk string
  | Update json
  | EventError string

subsection \<open>Lemmas\<close>

declare nat_to_dec.simps [simp del]

lemma nat_to_dec_small [simp]: "n < 10 \<Longrightarrow> nat_to_dec n = [digits ! n]"
  by (simp add: nat_to_dec.simps)

lemma nat_to_dec_large [simp]: "\<not> n < 10 \<Longrightarrow> nat_to_dec n = nat_to_dec (n div 10) @ [digits ! (n mod 10)]"
  by (subst nat_to_dec.simps) simp


lemma get_prop_obj_Inr [simp]: "v \<noteq> JNull \<Longrightarrow> get_prop v k = Inr (opt_prop (Some v) k)"
  by (cases v) simp_all

lemma get_prop_Inl: "get_prop v k = Inl e \<longleftrightarrow> v = JNull \<and> e = TypeError (''Cannot read properties of null (reading '' @ [apos] @ k @ [apos] @ '')'')"
  by (cases v) auto

end
