(* ===== verification/Reducer.thy ===== *)
theory Reducer
  imports DocumentationData Types
begin

text \<open>
  The session reducer (\<open>src/state.ts\<close>, \<open>appReducer\<close>) over the session
  aggregate \<open>AppState\<close> (\<open>src/types.ts\<close>), and the state the session starts
  from (\<open>src/constants.ts\<close> \<open>INITIAL_STATE\<close>, \<open>INITIAL_AGENT_SCHEMA\<close>, and the
  \<open>useReducer\<close> initialiser of \<open>src/App.tsx\<close>).  The untyped action object
  becomes a datatype with one constructor per \<open>case\<close> and one for the
  \<open>default\<close> branch.  The agent schema is kept as the JSON value the model
  sent (the client never interprets it).  A reducer that throws is an
  \<open>Inl\<close>: only \<open>APPLY_AGENT_UPDATE\<close> can, when the model's \<open>fileUpdate\<close>
  carries a truthy non-string \<open>fileName\<close> (\<open>targetPath.startsWith\<close> is then
  not a function); a truthy non-string \<open>content\<close> that reaches a file would be
  stored into the file's string body, which the model reports as an ill-typed
  update instead of representing.
\<close>

subsection \<open>Definitions\<close>

record app_state =
  conversation_history :: "message list"
  agent_schema :: "json option"
  docStructure :: doc_node
  isLoading :: bool
  llmProvider :: llm_provider
  apiKeys :: "llm_provider \<Rightarrow> string option"

datatype action =
    ADD_MESSAGE message
  | UPDATE_LAST_MESSAGE string
  | SET_LOADING bool
  | APPLY_AGENT_UPDATE json
  | SAVE_FILE_CONTENT path string
  | SET_LLM_PROVIDER llm_provider
  | SET_API_KEY llm_provider string
  | OTHER_ACTION

datatype reducer_error = Thrown js_exn | IllTypedFileContent

definition is_placeholder :: "message \<Rightarrow> bool" where
  "is_placeholder m \<longleftrightarrow> author m = ''assistant'' \<and> content m = []"

text \<open>
  Whether \<open>recurse\<close> of \<open>findAndUpdateFile\<close> reaches a file whose path equals
  the target (where it would write the new body).
\<close>

fun reaches_file :: "path \<Rightarrow> doc_node \<Rightarrow> path \<Rightarrow> bool" where
  "reaches_file target (DocFile n d c) current_path = (current_path = target)"
| "reaches_file target (DocFolder n d cs) current_path =
     (current_path \<noteq> target \<and> prefix (current_path @ [slash]) target
      \<and> (\<exists>child \<in> set cs. reaches_file target child (current_path @ [slash] @ name child)))"

text \<open>
  \<open>if (fileUpdate?.fileName && fileUpdate.content) newDocStructure =
  findAndUpdateFile(state.docStructure, fileUpdate.fileName, fileUpdate.content)\<close>.
\<close>

definition apply_file_update :: "doc_node \<Rightarrow> json option \<Rightarrow> reducer_error + doc_node" where
  "apply_file_update tree fileUpdate =
     (let fileName = opt_prop fileUpdate ''fileName''; body = opt_prop fileUpdate ''content'' in
      if truthy fileName \<and> truthy body then
        (case fileName of
           Some (JStr p) \<Rightarrow>
             (case body of
                Some (JStr c) \<Rightarrow> Inr (find_and_update_file tree p c)
              | _ \<Rightarrow> if reaches_file p tree (name tree) then Inl IllTypedFileContent else Inr tree)
         | _ \<Rightarrow>
             (case tree of
                DocFolder _ _ _ \<Rightarrow> Inl (Thrown (TypeError ''targetPath.startsWith is not a function''))
              | DocFile _ _ _ \<Rightarrow> Inr tree))
      else Inr tree)"

fun app_reducer :: "app_state \<Rightarrow> action \<Rightarrow> reducer_error + app_state" where
  "app_reducer s (ADD_MESSAGE m) =
     (let history = conversation_history s in
      Inr (s\<lparr>conversation_history :=
             (if history \<noteq> [] \<and> is_placeholder (last history) then butlast history @ [m]
              else history @ [m])\<rparr>))"
| "app_reducer s (UPDATE_LAST_MESSAGE p) =
     (let history = conversation_history s in
      Inr (s\<lparr>conversation_history :=
             (if history \<noteq> [] \<and> author (last history) = ''assistant''
              then butlast history @ [(last history)\<lparr>content := p\<rparr>]
              else history)\<rparr>))"
| "app_reducer s (SET_LOADING b) = Inr (s\<lparr>isLoading := b\<rparr>)"
| "app_reducer s (APPLY_AGENT_UPDATE payload) =
     (if payload = JNull
      then Inl (Thrown (TypeError ''Cannot destructure property 'updatedSchema' of 'action.payload' as it is null.''))
      else bind_r (apply_file_update (docStructure s) (opt_prop (Some payload) ''fileUpdate'')) (\<lambda>tree.
             Inr (s\<lparr>agent_schema := opt_prop (Some payload) ''updatedSchema'', docStructure := tree\<rparr>)))"
| "app_reducer s (SAVE_FILE_CONTENT p c) =
     Inr (s\<lparr>docStructure := find_and_update_file (docStructure s) p c\<rparr>)"
| "app_reducer s (SET_LLM_PROVIDER p) = Inr (s\<lparr>llmProvider := p\<rparr>)"
| "app_reducer s (SET_API_KEY p k) = Inr (s\<lparr>apiKeys := (apiKeys s)(p \<mapsto> k)\<rparr>)"
| "app_reducer s OTHER_ACTION = Inr s"

subsection \<open>The initial state\<close>

definition INITIAL_AGENT_SCHEMA :: json where
\<open>INITIAL_AGENT_SCHEMA =
  JObj [
    (''mode'', JStr ''ANALYSIS''),
    (''available_modes'', JArr [
      JStr ''ANALYSIS'',
      JStr ''CONTENT_GENERATION'',
      JStr ''REFINEMENT'']),
    (''mode_transitions'', JArr [
      JObj [
        (''from'', JStr ''ANALYSIS''),
        (''to'', JStr ''CONTENT_GENERATION''),
        (''trigger'', JStr ''User provides initial project scope.'')],
      JObj [
        (''from'', JStr ''CONTENT_GENERATION''),
        (''to'', JStr ''REFINEMENT''),
        (''trigger'', JStr ''Initial documents are generated.'')],
      JObj [
        (''from'', JStr ''REFINEMENT''),
        (''to'', JStr ''REFINEMENT''),
        (''trigger'', JStr ''User provides feedback.'')]]),
    (''wm'', JObj [
      (''g'', JStr ''Generate a complete and coherent project documentation from user descriptions.''),
      (''sg'', JStr ''Clarify the project scope with the user.''),
      (''ctx'', JStr ''Awaiting user's initial project description.''),
      (''pr'', JObj [
        (''completed'', JArr []),
        (''current'', JArr [
          JStr ''Understand project scope''])])]),
    (''chain'', JObj [
      (''steps'', JArr []),
      (''reflect'', JStr ''Ready to receive project details from the user. The first step is to understand what we are building.''),
      (''note'', JArr []),
      (''warn'', JArr []),
      (''err'', JArr [])]),
    (''kg'', JObj [
      (''tri'', JArr [])]),
    (''logic'', JObj [
      (''propos'', JArr []),
      (''proofs'', JArr []),
      (''crits'', JArr []),
      (''doubts'', JArr [])]),
    (''exp'', JArr [
      JStr ''Software Architecture'',
      JStr ''Technical Writing'',
      JStr ''Requirement Analysis'',
      JStr ''UML & Mermaid.js'']),
    (''se'', JArr [
      JStr ''Documentation Structure'',
      JStr ''Markdown Formatting'',
      JStr ''API Design'',
      JStr ''Database Schema''])]\<close>

definition initial_greeting :: string where
\<open>initial_greeting = ''Bonjour! I am AGENTX. I now operate with a more advanced reasoning model. Describe your project, and I'll generate the documentation while showing you my thought process. What we are building today?''\<close>

definition initial_app_state :: app_state where
  "initial_app_state =
     \<lparr>conversation_history = [\<lparr>author = ''assistant'', content = initial_greeting\<rparr>],
      agent_schema = Some INITIAL_AGENT_SCHEMA,
      docStructure = documentationStructure,
      isLoading = False,
      llmProvider = Google,
      apiKeys = [Google \<mapsto> [], OpenRouter \<mapsto> []]\<rparr>"


text \<open>
  The placeholder rule of the history: an assistant message with an empty
  body is the one being streamed into, and only the last message may be one.
\<close>

definition no_stale_placeholder :: "app_state \<Rightarrow> bool" where
  "no_stale_placeholder s \<longleftrightarrow> list_all (\<lambda>m. \<not> is_placeholder m) (butlast (conversation_history s))"

subsection \<open>Lemmas\<close>

lemma greeting_ne [simp]: "initial_greeting \<noteq> []"
  by (simp add: initial_greeting_def)

lemma reducer_Inr_cases:
  assumes "app_reducer s a = Inr s'"
  shows "isLoading s' = (case a of SET_LOADING b \<Rightarrow> b | _ \<Rightarrow> isLoading s)
    \<and> (docStructure s' \<noteq> docStructure s \<longrightarrow> (\<exists>pl. a = APPLY_AGENT_UPDATE pl) \<or> (\<exists>p b. a = SAVE_FILE_CONTENT p b))
    \<and> (agent_schema s' \<noteq> agent_schema s \<longrightarrow> (\<exists>pl. a = APPLY_AGENT_UPDATE pl))
    \<and> llmProvider s' = (case a of SET_LLM_PROVIDER p \<Rightarrow> p | _ \<Rightarrow> llmProvider s)"
  using assms by (cases a) (auto simp: Let_def bind_r_eq_Inr split: if_splits)

lemma reducer_apply_Inr:
  assumes "app_reducer s (APPLY_AGENT_UPDATE pl) = Inr s'"
  shows "s' = s\<lparr>agent_schema := opt_prop (Some pl) ''updatedSchema'', docStructure := docStructure s'\<rparr>
    \<and> apply_file_update (docStructure s) (opt_prop (Some pl) ''fileUpdate'') = Inr (docStructure s')"
  using assms by (auto simp: bind_r_eq_Inr split: if_splits)

lemma apply_file_update_cases:
  "apply_file_update t fu = Inr t' \<Longrightarrow> t' = t \<or> (\<exists>p c. t' = find_and_update_file t p c)"
  by (auto simp: apply_file_update_def Let_def split: if_splits option.splits json.splits doc_node.splits)

lemma reducer_keeps_shape:
  assumes "app_reducer s a = Inr s'"
  shows "doc_skeleton (docStructure s') = doc_skeleton (docStructure s)"
proof (cases a)
  case (APPLY_AGENT_UPDATE pl)
  then have "apply_file_update (docStructure s) (opt_prop (Some pl) ''fileUpdate'') = Inr (docStructure s')"
    using reducer_apply_Inr assms by blast
  from apply_file_update_cases [OF this] show ?thesis by auto
qed (use assms in \<open>auto simp: Let_def\<close>)

subsection \<open>Properties\<close>

text \<open>C19. Every action keeps the placeholder rule of the history: no message
  other than the last is an assistant message with an empty body.\<close>

lemma reducer_keeps_placeholder_invariant:
  assumes "no_stale_placeholder s" "app_reducer s a = Inr s'"
  shows "no_stale_placeholder s'"
  using assms
  by (cases a; cases "conversation_history s = []")
     (auto simp: no_stale_placeholder_def Let_def bind_r_eq_Inr list_all_butlast_last split: if_splits)

lemma reducer_keeps_placeholder_invariant_witness:
  "no_stale_placeholder initial_app_state
   \<and> app_reducer initial_app_state (ADD_MESSAGE \<lparr>author = ''user'', content = ''hi''\<rparr>)
       = Inr (initial_app_state\<lparr>conversation_history := conversation_history initial_app_state @ [\<lparr>author = ''user'', content = ''hi''\<rparr>]\<rparr>)
   \<and> no_stale_placeholder (initial_app_state\<lparr>conversation_history := conversation_history initial_app_state @ [\<lparr>author = ''user'', content = ''hi''\<rparr>]\<rparr>)"
proof -
  have h: "no_stale_placeholder initial_app_state"
    by (simp add: no_stale_placeholder_def initial_app_state_def)
  have r: "app_reducer initial_app_state (ADD_MESSAGE \<lparr>author = ''user'', content = ''hi''\<rparr>)
       = Inr (initial_app_state\<lparr>conversation_history := conversation_history initial_app_state @ [\<lparr>author = ''user'', content = ''hi''\<rparr>]\<rparr>)"
    by (simp add: initial_app_state_def is_placeholder_def)
  show ?thesis using reducer_keeps_placeholder_invariant [OF h r] h r by simp
qed

text \<open>An update whose fileUpdate names a file path and a non-empty body
  replaces the agent schema by the payload's updatedSchema and writes the body
  with findAndUpdateFile.\<close>

lemma apply_update_writes_file:
  assumes "payload \<noteq> JNull" "opt_prop (Some payload) ''fileUpdate'' = Some fu"
    "opt_prop (Some fu) ''fileName'' = Some (JStr p)" "opt_prop (Some fu) ''content'' = Some (JStr b)"
    "p \<noteq> []" "b \<noteq> []"
  shows "app_reducer s (APPLY_AGENT_UPDATE payload) =
    Inr (s\<lparr>agent_schema := opt_prop (Some payload) ''updatedSchema'',
           docStructure := find_and_update_file (docStructure s) p b\<rparr>)"
  using assms by (simp add: apply_file_update_def)

lemma apply_update_writes_file_witness:
  "app_reducer initial_app_state (APPLY_AGENT_UPDATE (JObj [(''updatedSchema'', JObj []),
      (''fileUpdate'', JObj [(''fileName'', JStr ''docs/README.md''), (''content'', JStr ''new'')]),
      (''autoContinue'', JBool False)])) =
   Inr (initial_app_state\<lparr>agent_schema := Some (JObj []),
          docStructure := find_and_update_file documentationStructure ''docs/README.md'' ''new''\<rparr>)"
  using apply_update_writes_file [of "JObj [(''updatedSchema'', JObj []),
      (''fileUpdate'', JObj [(''fileName'', JStr ''docs/README.md''), (''content'', JStr ''new'')]),
      (''autoContinue'', JBool False)]" "JObj [(''fileName'', JStr ''docs/README.md''), (''content'', JStr ''new'')]"
      "''docs/README.md''" "''new''" initial_app_state]
  by (simp add: initial_app_state_def)

text \<open>C25. An update whose fileUpdate carries an empty body changes only the
  agent schema: the empty string is falsy, so no file is written even when the
  path names one.\<close>

lemma apply_update_skips_empty_body:
  assumes "payload \<noteq> JNull" "opt_prop (Some payload) ''fileUpdate'' = Some fu"
    "opt_prop (Some fu) ''content'' = Some (JStr [])"
  shows "app_reducer s (APPLY_AGENT_UPDATE payload) =
    Inr (s\<lparr>agent_schema := opt_prop (Some payload) ''updatedSchema''\<rparr>)"
  using assms by (simp add: apply_file_update_def)

lemma apply_update_skips_empty_body_witness:
  "doc_contents documentationStructure ''docs/README.md'' \<noteq> None
   \<and> app_reducer initial_app_state (APPLY_AGENT_UPDATE (JObj [(''updatedSchema'', JObj []),
      (''fileUpdate'', JObj [(''fileName'', JStr ''docs/README.md''), (''content'', JStr [])]),
      (''autoContinue'', JBool False)])) =
     Inr (initial_app_state\<lparr>agent_schema := Some (JObj [])\<rparr>)"
proof -
  have "doc_contents documentationStructure ''docs/README.md'' \<noteq> None"
    by (simp add: doc_contents_def seed_tree_defs find_node_by_path_def slash_def)
  then show ?thesis
    using apply_update_skips_empty_body [of "JObj [(''updatedSchema'', JObj []),
      (''fileUpdate'', JObj [(''fileName'', JStr ''docs/README.md''), (''content'', JStr [])]),
      (''autoContinue'', JBool False)]" "JObj [(''fileName'', JStr ''docs/README.md''), (''content'', JStr [])]"
      initial_app_state]
    by simp
qed

text \<open>An update whose fileUpdate has a truthy fileName that is not a
  string (a number) and a truthy content makes the reducer throw a TypeError
  (targetPath.startsWith is not a function) on any folder root.\<close>

lemma apply_update_nonstring_name_throws:
  assumes "payload \<noteq> JNull" "opt_prop (Some payload) ''fileUpdate'' = Some fu"
    "opt_prop (Some fu) ''fileName'' = Some (JNum i)" "i \<noteq> 0"
    "truthy (opt_prop (Some fu) ''content'')" "docStructure s = DocFolder n d cs"
  shows "app_reducer s (APPLY_AGENT_UPDATE payload) =
    Inl (Thrown (TypeError ''targetPath.startsWith is not a function''))"
  using assms by (simp add: apply_file_update_def)

lemma apply_update_nonstring_name_throws_witness:
  "app_reducer initial_app_state (APPLY_AGENT_UPDATE (JObj [(''updatedSchema'', JObj []),
      (''fileUpdate'', JObj [(''fileName'', JNum 7), (''content'', JStr ''x'')]),
      (''autoContinue'', JBool False)])) =
   Inl (Thrown (TypeError ''targetPath.startsWith is not a function''))"
  using apply_update_nonstring_name_throws [of "JObj [(''updatedSchema'', JObj []),
      (''fileUpdate'', JObj [(''fileName'', JNum 7), (''content'', JStr ''x'')]),
      (''autoContinue'', JBool False)]" "JObj [(''fileName'', JNum 7), (''content'', JStr ''x'')]" 7
      initial_app_state]
  by (simp add: initial_app_state_def seed_tree_defs)

end
