(* ===== verification/AgentCycle.thy ===== *)
theory AgentCycle
  imports Types
begin

text \<open>
  The Agent Cycle Protocol (\<open>src/services/geminiService.ts\<close>, \<open>streamAgentCycle\<close>):
  after the backend's text stream has been accumulated into one buffer, the
  buffer is split at the first occurrence of the sentinel
  \<open>|||AGENT_RESPONSE_JSON|||\<close>; the part before is yielded as one \<open>chunk\<close>, the
  part after is trimmed, stripped of a markdown code fence, parsed with
  \<open>JSON.parse\<close> and checked for a truthy \<open>updatedSchema\<close> and a boolean
  \<open>autoContinue\<close>.  The backend call itself is the interface to
  \<open>Backend.thy\<close>: its outcome is a thrown exception or the accumulated buffer.
  \<open>JSON.parse\<close> is a parameter (\<open>json_parser\<close>): every theorem holds for any
  parser.
\<close>

subsection \<open>Definitions\<close>

definition JSON_RESPONSE_SEPARATOR :: string where
  "JSON_RESPONSE_SEPARATOR = ''|||AGENT_RESPONSE_JSON|||''"

text \<open>
  The fence regex \<open>/^\s*```(?:json)?\n?(.*?)\n?```\s*$/s\<close>, with the
  backtracking order of the regex engine: the optional \<open>json\<close> and the
  optional newline are tried present first, then absent; for each choice the
  lazy group is tried from the shortest; the first success gives \<open>match[1]\<close>.
\<close>

definition fence :: string where
  "fence = ''```''"

definition fence_tail_ok :: "string \<Rightarrow> bool" where
  "fence_tail_ok t \<longleftrightarrow> prefix fence t \<and> list_all is_ws (drop (length fence) t)"

definition close_at :: "string \<Rightarrow> bool" where
  "close_at t \<longleftrightarrow> (case t of c # t' \<Rightarrow> c = nl \<and> fence_tail_ok t' | [] \<Rightarrow> False) \<or> fence_tail_ok t"

definition lazy_body :: "string \<Rightarrow> string option" where
  "lazy_body u = map_option (\<lambda>k. take k u) (find (\<lambda>k. close_at (drop k u)) [0..<Suc (length u)])"

definition fence_match :: "string \<Rightarrow> string option" where
  "fence_match s =
     (let s1 = dropWhile is_ws s in
      if prefix fence s1 then
        (let r = drop (length fence) s1;
             langs = (if prefix ''json'' r then [drop 4 r, r] else [r]);
             bodies = concat (map (\<lambda>v. case v of c # v' \<Rightarrow> if c = nl then [v', v] else [v] | [] \<Rightarrow> [v]) langs)
         in first_some lazy_body bodies)
      else None)"

text \<open>\<open>if (match && match[1]) jsonPart = match[1].trim();\<close>\<close>

definition strip_fence :: "string \<Rightarrow> string" where
  "strip_fence jp = (case fence_match jp of Some g \<Rightarrow> if g \<noteq> [] then js_trim g else jp | None \<Rightarrow> jp)"

definition missing_fields_error :: js_exn where
  "missing_fields_error =
     JsError ''AI response is missing required fields: updatedSchema and autoContinue are mandatory.''"

text \<open>
  \<open>if (!parsedData.updatedSchema || typeof parsedData.autoContinue !== 'boolean') throw ...\<close>;
  reading \<open>updatedSchema\<close> of \<open>null\<close> throws first.
\<close>

definition validate_payload :: "json \<Rightarrow> js_exn + json" where
  "validate_payload d =
     bind_r (get_prop d ''updatedSchema'') (\<lambda>us.
       if \<not> truthy us then Inl missing_fields_error
       else bind_r (get_prop d ''autoContinue'') (\<lambda>ac.
         if \<not> is_boolean ac then Inl missing_fields_error else Inr d))"

definition parse_failure_message :: "string \<Rightarrow> js_exn \<Rightarrow> string" where
  "parse_failure_message jp e =
     ''Failed to parse JSON payload. Raw: '' @ [apos] @ jp @ [apos] @ ''. Error: '' @ exn_message e"

definition no_separator_message :: string where
  "no_separator_message = ''Agent did not return the required separator token and JSON object.''"

text \<open>Lines 147--178: the buffered response into events.\<close>

definition process_buffer :: "json_parser \<Rightarrow> string \<Rightarrow> agent_stream_event list" where
  "process_buffer parse buffer =
     (case index_of buffer JSON_RESPONSE_SEPARATOR of
        Some i \<Rightarrow>
          (let chatPart = take i buffer;
               jsonPart = strip_fence (js_trim (drop (i + length JSON_RESPONSE_SEPARATOR) buffer))
           in Chunk chatPart #
              (case bind_r (parse jsonPart) validate_payload of
                 Inr d \<Rightarrow> [Update d]
               | Inl e \<Rightarrow> [EventError (parse_failure_message jsonPart e)]))
      | None \<Rightarrow>
          [EventError (no_separator_message @ [nl] @ ''Full response from LLM:'' @ [nl] @ buffer)])"

fun missing_key_message :: "llm_provider \<Rightarrow> string" where
  "missing_key_message Google = ''Google Gemini API key is missing. Please set it in the settings.''"
| "missing_key_message OpenRouter = ''OpenRouter API key is missing. Please set it in the settings.''"

text \<open>
  The whole generator: the missing-key check of the selected provider comes
  before any call; an exception of the transport (\<open>Inl\<close>) becomes one error
  event through the outer \<open>catch\<close>; otherwise the buffer is processed.
\<close>

definition stream_agent_cycle ::
  "json_parser \<Rightarrow> llm_provider \<Rightarrow> string \<Rightarrow> js_exn + string \<Rightarrow> agent_stream_event list" where
  "stream_agent_cycle parse provider apiKey transport =
     (if apiKey = [] then [EventError (''Error calling API: '' @ missing_key_message provider)]
      else (case transport of
              Inl e \<Rightarrow> [EventError (''Error calling API: '' @ exn_message e)]
            | Inr buffer \<Rightarrow> process_buffer parse buffer))"

subsection \<open>Lemmas\<close>

lemma separator_not_Nil [simp]: "JSON_RESPONSE_SEPARATOR \<noteq> []"
  by (simp add: JSON_RESPONSE_SEPARATOR_def)

lemma validate_payload_Inr:
  "validate_payload d = Inr d' \<longleftrightarrow>
     d' = d \<and> truthy (opt_prop (Some d) ''updatedSchema'') \<and> is_boolean (opt_prop (Some d) ''autoContinue'')"
  by (cases "d = JNull") (auto simp: validate_payload_def)

lemma validate_payload_Inl:
  "\<not> (truthy (opt_prop (Some d) ''updatedSchema'') \<and> is_boolean (opt_prop (Some d) ''autoContinue''))
   \<Longrightarrow> validate_payload d =
       Inl (if d = JNull then TypeError (''Cannot read properties of null (reading '' @ [apos] @ ''updatedSchema'' @ [apos] @ '')'')
            else missing_fields_error)"
  by (cases "d = JNull") (auto simp: validate_payload_def)

lemma process_buffer_at:
  assumes "\<not> sublist JSON_RESPONSE_SEPARATOR (chat @ butlast JSON_RESPONSE_SEPARATOR)"
  shows "process_buffer parse (chat @ JSON_RESPONSE_SEPARATOR @ rest) =
     Chunk chat # (case bind_r (parse (strip_fence (js_trim rest))) validate_payload of
                     Inr d \<Rightarrow> [Update d]
                   | Inl e \<Rightarrow> [EventError (parse_failure_message (strip_fence (js_trim rest)) e)])"
  using index_of_append_first [OF separator_not_Nil assms, of rest]
  by (simp add: process_buffer_def Let_def)

lemma nl_not_in_fence: "nl \<notin> set fence"
  by (simp add: nl_def fence_def)

lemma no_fence_at:
  assumes "\<not> sublist fence j" and "m \<le> length j"
  shows "\<not> prefix fence (drop m (j @ nl # fence))"
proof
  assume "prefix fence (drop m (j @ nl # fence))"
  with assms(2) have "prefix fence (drop m j @ nl # fence)" by simp
  then have "prefix fence (drop m j)" by (rule prefix_append_not_in [OF nl_not_in_fence])
  then have "sublist fence j" by (rule prefix_drop_sublist)
  with assms(1) show False by simp
qed

lemma no_close_before:
  assumes "\<not> sublist fence j" and "k < length j"
  shows "\<not> close_at (drop k (j @ nl # fence))"
proof
  assume c: "close_at (drop k (j @ nl # fence))"
  have dk: "drop k (j @ nl # fence) = j ! k # drop (Suc k) (j @ nl # fence)"
    using assms(2) by (simp add: Cons_nth_drop_Suc)
  from c dk no_fence_at [OF assms(1), of k] no_fence_at [OF assms(1), of "Suc k"] assms(2)
  show False by (auto simp: close_at_def fence_tail_ok_def)
qed

lemma lazy_body_fenced:
  assumes "\<not> sublist fence j"
  shows "lazy_body (j @ nl # fence) = Some j"
proof -
  have "close_at (drop (length j) (j @ nl # fence))"
    by (simp add: close_at_def fence_tail_ok_def)
  then have "find (\<lambda>k. close_at (drop k (j @ nl # fence))) [0..<Suc (length (j @ nl # fence))]
      = Some (length j)"
    using no_close_before [OF assms] by (intro find_upt_least) auto
  then show ?thesis by (simp add: lazy_body_def)
qed

lemma fence_match_json:
  assumes "\<not> sublist fence j"
  shows "fence_match (fence @ ''json'' @ nl # j @ nl # fence) = Some j"
proof -
  have "dropWhile is_ws (fence @ ''json'' @ nl # j @ nl # fence) = fence @ ''json'' @ nl # j @ nl # fence"
    by (simp add: fence_def is_ws_def)
  then show ?thesis
    using lazy_body_fenced [OF assms] by (simp add: fence_match_def Let_def fence_def)
qed

lemma stream_events_cases:
  "(\<exists>e. stream_agent_cycle parse provider apiKey transport = [EventError e])
   \<or> (\<exists>ch e. stream_agent_cycle parse provider apiKey transport = [Chunk ch, EventError e])
   \<or> (\<exists>ch d. stream_agent_cycle parse provider apiKey transport = [Chunk ch, Update d])"
  by (auto simp: stream_agent_cycle_def process_buffer_def Let_def split: sum.splits option.splits)

subsection \<open>Properties of a cycle\<close>

text \<open>
  C1. A well-formed response: when the chat text cannot overlap the sentinel
  (the sentinel does not occur in the chat text followed by all but the last
  character of the sentinel), the JSON after the sentinel parses and carries a
  truthy \<open>updatedSchema\<close> and a boolean \<open>autoContinue\<close>, the cycle yields
  exactly one \<open>chunk\<close> equal to the chat text and one \<open>update\<close> carrying the
  parsed value.
\<close>

theorem cycle_valid_response:
  assumes "apiKey \<noteq> []"
    and "\<not> sublist JSON_RESPONSE_SEPARATOR (chat @ butlast JSON_RESPONSE_SEPARATOR)"
    and "parse (strip_fence (js_trim rest)) = Inr d"
    and "truthy (opt_prop (Some d) ''updatedSchema'')"
    and "is_boolean (opt_prop (Some d) ''autoContinue'')"
  shows "stream_agent_cycle parse provider apiKey (Inr (chat @ JSON_RESPONSE_SEPARATOR @ rest)) =
    [Chunk chat, Update d]"
proof -
  have "validate_payload d = Inr d" using assms(4,5) by (simp add: validate_payload_Inr)
  with assms(1,3) process_buffer_at [OF assms(2)] show ?thesis
    by (simp add: stream_agent_cycle_def)
qed

theorem cycle_valid_response_witness:
  "stream_agent_cycle
     (\<lambda>s. if s = ''{}'' then Inr (JObj [(''updatedSchema'', JObj []), (''autoContinue'', JBool True)])
          else Inl (SyntaxError ''bad'')) Google ''key''
     (Inr (''Hi'' @ JSON_RESPONSE_SEPARATOR @ '' {} ''))
   = [Chunk ''Hi'', Update (JObj [(''updatedSchema'', JObj []), (''autoContinue'', JBool True)])]"
proof (rule cycle_valid_response)
  show "''key'' \<noteq> []" by simp
  show "\<not> sublist JSON_RESPONSE_SEPARATOR (''Hi'' @ butlast JSON_RESPONSE_SEPARATOR)"
    by (simp add: JSON_RESPONSE_SEPARATOR_def sublist_code)
  show "(\<lambda>s. if s = ''{}'' then Inr (JObj [(''updatedSchema'', JObj []), (''autoContinue'', JBool True)])
          else Inl (SyntaxError ''bad'')) (strip_fence (js_trim '' {} ''))
        = Inr (JObj [(''updatedSchema'', JObj []), (''autoContinue'', JBool True)])"
    by (simp add: strip_fence_def fence_match_def fence_def js_trim_def is_ws_def)
qed simp_all

text \<open>
  C2. A response without the sentinel yields exactly one error event, whose
  message carries the whole raw buffer, and no chunk and no update.
\<close>

theorem cycle_missing_separator:
  assumes "apiKey \<noteq> []" and "\<not> sublist JSON_RESPONSE_SEPARATOR buffer"
  shows "stream_agent_cycle parse provider apiKey (Inr buffer) =
    [EventError (no_separator_message @ [nl] @ ''Full response from LLM:'' @ [nl] @ buffer)]"
proof -
  have "index_of buffer JSON_RESPONSE_SEPARATOR = None"
    using assms(2) by (simp add: index_of_def index_of_from_None)
  with assms(1) show ?thesis by (simp add: stream_agent_cycle_def process_buffer_def)
qed

theorem cycle_missing_separator_witness:
  "stream_agent_cycle (\<lambda>s. Inl (SyntaxError ''bad'')) Google ''key'' (Inr ''no sentinel here'') =
    [EventError (no_separator_message @ [nl] @ ''Full response from LLM:'' @ [nl] @ ''no sentinel here'')]"
proof (rule cycle_missing_separator)
  show "''key'' \<noteq> []" by simp
  show "\<not> sublist JSON_RESPONSE_SEPARATOR ''no sentinel here''"
    by (simp add: JSON_RESPONSE_SEPARATOR_def sublist_code)
qed

text \<open>
  C3. A JSON payload that parses but lacks a truthy \<open>updatedSchema\<close> or a
  boolean \<open>autoContinue\<close> yields the chat chunk and then exactly one error whose
  message quotes the raw JSON text; no update is yielded.  A payload that is
  \<open>null\<close> fails on reading \<open>updatedSchema\<close> with a \<open>TypeError\<close>.
\<close>

theorem cycle_missing_fields:
  assumes "apiKey \<noteq> []"
    and "\<not> sublist JSON_RESPONSE_SEPARATOR (chat @ butlast JSON_RESPONSE_SEPARATOR)"
    and "parse (strip_fence (js_trim rest)) = Inr d"
    and "\<not> (truthy (opt_prop (Some d) ''updatedSchema'') \<and> is_boolean (opt_prop (Some d) ''autoContinue''))"
  shows "stream_agent_cycle parse provider apiKey (Inr (chat @ JSON_RESPONSE_SEPARATOR @ rest)) =
    [Chunk chat, EventError (parse_failure_message (strip_fence (js_trim rest))
       (if d = JNull then TypeError (''Cannot read properties of null (reading '' @ [apos] @ ''updatedSchema'' @ [apos] @ '')'')
        else missing_fields_error))]"
  using assms process_buffer_at [OF assms(2)] validate_payload_Inl [OF assms(4)]
  by (simp add: stream_agent_cycle_def)

theorem cycle_missing_fields_witness:
  "stream_agent_cycle
     (\<lambda>s. if s = ''{}'' then Inr (JObj [(''updatedSchema'', JObj [])]) else Inl (SyntaxError ''bad''))
     OpenRouter ''key'' (Inr (''Hi'' @ JSON_RESPONSE_SEPARATOR @ ''{}''))
   = [Chunk ''Hi'', EventError (parse_failure_message ''{}'' missing_fields_error)]"
proof -
  have h1: "''key'' \<noteq> []" by simp
  have h2: "\<not> sublist JSON_RESPONSE_SEPARATOR (''Hi'' @ butlast JSON_RESPONSE_SEPARATOR)"
    by (simp add: JSON_RESPONSE_SEPARATOR_def sublist_code)
  have sf: "strip_fence (js_trim ''{}'') = ''{}''"
    by (simp add: strip_fence_def fence_match_def fence_def js_trim_def is_ws_def)
  have h3: "(\<lambda>s. if s = ''{}'' then Inr (JObj [(''updatedSchema'', JObj [])]) else Inl (SyntaxError ''bad''))
      (strip_fence (js_trim ''{}'')) = Inr (JObj [(''updatedSchema'', JObj [])])"
    by (simp add: sf)
  have h4: "\<not> (truthy (opt_prop (Some (JObj [(''updatedSchema'', JObj [])])) ''updatedSchema'')
      \<and> is_boolean (opt_prop (Some (JObj [(''updatedSchema'', JObj [])])) ''autoContinue''))"
    by simp
  show ?thesis
    using cycle_missing_fields [where parse = "\<lambda>s. if s = ''{}'' then Inr (JObj [(''updatedSchema'', JObj [])])
        else Inl (SyntaxError ''bad'')" and provider = OpenRouter, OF h1 h2 h3 h4]
    by (simp add: sf)
qed

text \<open>
  Whatever the backend returns, a cycle yields one of three event
  sequences: a single error; the chat chunk then an error; or the chat chunk
  then an update.  An update is always last, at most one is yielded, and its
  payload always carries a truthy \<open>updatedSchema\<close> and a boolean
  \<open>autoContinue\<close>: a payload is never partially applied.
\<close>

theorem cycle_events_shape:
  "(\<exists>e. stream_agent_cycle parse provider apiKey transport = [EventError e])
   \<or> (\<exists>c e. stream_agent_cycle parse provider apiKey transport = [Chunk c, EventError e])
   \<or> (\<exists>c d. stream_agent_cycle parse provider apiKey transport = [Chunk c, Update d]
        \<and> truthy (opt_prop (Some d) ''updatedSchema'') \<and> is_boolean (opt_prop (Some d) ''autoContinue''))"
  by (auto simp: stream_agent_cycle_def process_buffer_def Let_def validate_payload_Inr bind_r_def
      split: sum.splits option.splits)

text \<open>
  C34. Exactly when the first chunk is the whole chat text: with the sentinel
  appended after a chat text, the cycle's first event is that chat text if and
  only if the sentinel does not occur in the chat text followed by all but the
  last character of the sentinel.  The sentinel begins and ends with
  \<open>|||\<close>, so a chat text ending in \<open>|||AGENT_RESPONSE_JSON\<close> (which does not
  contain the sentinel) is cut short and its payload fails to parse.
\<close>

theorem cycle_first_chunk_iff:
  assumes "apiKey \<noteq> []"
  shows "(\<exists>evs. stream_agent_cycle parse provider apiKey (Inr (chat @ JSON_RESPONSE_SEPARATOR @ rest))
            = Chunk chat # evs)
         \<longleftrightarrow> \<not> sublist JSON_RESPONSE_SEPARATOR (chat @ butlast JSON_RESPONSE_SEPARATOR)"
proof
  assume ex: "\<exists>evs. stream_agent_cycle parse provider apiKey (Inr (chat @ JSON_RESPONSE_SEPARATOR @ rest))
            = Chunk chat # evs"
  show "\<not> sublist JSON_RESPONSE_SEPARATOR (chat @ butlast JSON_RESPONSE_SEPARATOR)"
  proof
    assume "sublist JSON_RESPONSE_SEPARATOR (chat @ butlast JSON_RESPONSE_SEPARATOR)"
    then obtain i where lt: "i < length chat"
      and i: "index_of (chat @ JSON_RESPONSE_SEPARATOR @ rest) JSON_RESPONSE_SEPARATOR = Some i"
      using index_of_before [OF separator_not_Nil] by blast
    with ex assms have "take i (chat @ JSON_RESPONSE_SEPARATOR @ rest) = chat"
      by (auto simp: stream_agent_cycle_def process_buffer_def Let_def)
    then have "length chat = i" using lt by (metis length_take min.absorb4 length_append trans_less_add1)
    with lt show False by simp
  qed
next
  assume "\<not> sublist JSON_RESPONSE_SEPARATOR (chat @ butlast JSON_RESPONSE_SEPARATOR)"
  then show "\<exists>evs. stream_agent_cycle parse provider apiKey (Inr (chat @ JSON_RESPONSE_SEPARATOR @ rest))
            = Chunk chat # evs"
    using assms by (simp add: stream_agent_cycle_def process_buffer_at)
qed

theorem cycle_first_chunk_iff_witness:
  "\<not> sublist JSON_RESPONSE_SEPARATOR ''x|||AGENT_RESPONSE_JSON''
   \<and> \<not> (\<exists>evs. stream_agent_cycle (\<lambda>s. Inl (SyntaxError ''bad'')) Google ''key''
          (Inr (''x|||AGENT_RESPONSE_JSON'' @ JSON_RESPONSE_SEPARATOR @ ''{}''))
        = Chunk ''x|||AGENT_RESPONSE_JSON'' # evs)"
proof -
  have h: "''key'' \<noteq> []" by simp
  have s: "sublist JSON_RESPONSE_SEPARATOR (''x|||AGENT_RESPONSE_JSON'' @ butlast JSON_RESPONSE_SEPARATOR)"
    by (simp add: JSON_RESPONSE_SEPARATOR_def sublist_code)
  have n: "\<not> sublist JSON_RESPONSE_SEPARATOR ''x|||AGENT_RESPONSE_JSON''"
    by (simp add: JSON_RESPONSE_SEPARATOR_def sublist_code)
  show ?thesis
    using n s cycle_first_chunk_iff [OF h, of "\<lambda>s. Inl (SyntaxError ''bad'')" Google
        "''x|||AGENT_RESPONSE_JSON''" "''{}''"] by blast
qed

text \<open>
  Fence stripping round trip: a JSON text without a triple backtick,
  wrapped in a \<open>```json\<close> fence, is restored to the trimmed text.
\<close>

theorem strip_fence_roundtrip:
  assumes "\<not> sublist fence j" and "js_trim j \<noteq> []"
  shows "strip_fence (js_trim (fence @ ''json'' @ [nl] @ j @ [nl] @ fence)) = js_trim j"
proof -
  have "js_trim (fence @ ''json'' @ [nl] @ j @ [nl] @ fence) = fence @ ''json'' @ [nl] @ j @ [nl] @ fence"
    by (rule js_trim_no_ws) (simp add: fence_def is_ws_def)
  moreover have "j \<noteq> []" using assms(2) by (auto simp: js_trim_def)
  ultimately show ?thesis
    using fence_match_json [OF assms(1)] by (simp add: strip_fence_def)
qed

theorem strip_fence_roundtrip_witness:
  "\<not> sublist fence ''{}'' \<and> js_trim ''{}'' \<noteq> []
   \<and> strip_fence (js_trim (fence @ ''json'' @ [nl] @ ''{}'' @ [nl] @ fence)) = ''{}''"
proof -
  have h1: "\<not> sublist fence ''{}''" by (simp add: fence_def sublist_code)
  have h2: "js_trim ''{}'' \<noteq> []" by (simp add: js_trim_def is_ws_def)
  have "js_trim ''{}'' = ''{}''" by (simp add: js_trim_def is_ws_def)
  then show ?thesis using h1 h2 strip_fence_roundtrip [OF h1 h2] by simp
qed

end
