(* ===== verification/Controller.thy ===== *)
theory Controller
  imports Reducer AgentCycle
begin

text \<open>
  The session controller (\<open>src/App.tsx\<close>): \<open>handleSendMessage\<close>,
  \<open>handleStop\<close>, the continuation effect with its 2.5 s timer, and the
  chat panel's submit gate (\<open>src/components/ChatPanel.tsx\<close>).  Its state is
  the reducer's \<open>app_state\<close> plus the refs and React state the handlers read:
  \<open>isRunningRef.current\<close> (\<open>running\<close>), \<open>nextAutoPrompt\<close> (\<open>next_auto\<close>),
  whether a \<open>setTimeout(executeNextStep, 2500)\<close> is pending
  (\<open>timer_armed\<close>), and the cycles whose backend call has not yet answered
  (\<open>inflight\<close>, each with the provider and key it was started with), and
  \<open>selectedNodePath\<close> and \<open>lastUpdatedFile\<close>, which an update sets to its
  file name.
  Every suspension point of the code is an event of \<open>ui_event\<close>: the user
  submits, stops, saves or edits settings; the backend answers one pending
  cycle (with its outcome, the \<open>Backend\<close> interface); the timer fires.  A
  cycle's events are processed in one step: they are yielded back to back once
  the buffer is complete.  A reducer that throws crashes the session
  (\<open>Inl\<close>).  The delay itself is not modelled, only that the timer fires
  later, once, unless cleared.  The lemmas give the effect of each handler on
  the flags; the invariants over reachable states follow by rule induction,
  and a sample session gives the concrete runs of the properties.
\<close>

subsection \<open>Definitions\<close>

record ctrl =
  st :: app_state
  running :: bool
  next_auto :: "string option"
  timer_armed :: bool
  inflight :: "(nat \<times> llm_provider \<times> string) list"
  next_cycle :: nat
  selected :: "json option"
  last_updated :: "json option"

datatype ui_event =
    Submit string
  | Respond nat "js_exn + string"
  | TimerFires
  | StopClicked
  | SaveFile path string
  | ChooseProvider llm_provider
  | EnterKey llm_provider string

definition continue_prompt :: string where
  "continue_prompt = ''Continue with the plan.''"

definition stop_message :: string where
  "stop_message = [CHR 0xE2, CHR 0x80, CHR 0x9A, CHR 0xC3, CHR 0xA8, CHR 0xCF, CHR 0x80, CHR 0xC3, CHR 0x94, CHR 0xE2, CHR 0x88, CHR 0x8F, CHR 0xC3, CHR 0xA8] @ '' Autonomous process stopped by user.''"

definition error_annotation :: "string \<Rightarrow> string" where
  "error_annotation e = [nl, nl] @ ''**Error:** '' @ e"

definition dispatch :: "action \<Rightarrow> ctrl \<Rightarrow> reducer_error + ctrl" where
  "dispatch a c = bind_r (app_reducer (st c) a) (\<lambda>s. Inr (c\<lparr>st := s\<rparr>))"

text \<open>
  \<open>setNextAutoPrompt(v)\<close>: React ignores a set to the current value; on a
  change the effect's cleanup clears a pending timer and, for a non-null
  value, the effect arms a new one.
\<close>

definition set_next_auto :: "string option \<Rightarrow> ctrl \<Rightarrow> ctrl" where
  "set_next_auto v c = (if next_auto c = v then c else c\<lparr>next_auto := v, timer_armed := (v \<noteq> None)\<rparr>)"

text \<open>
  \<open>handleSendMessage\<close> up to its \<open>await\<close>: the guard on an empty message and
  on \<open>isRunningRef\<close>, the missing-key alert, then the running flag, the user
  message, the loading flag, the assistant placeholder, and the call of
  \<open>streamAgentCycle\<close>, which stays pending until the backend answers.
\<close>

definition handle_send_message :: "string \<Rightarrow> ctrl \<Rightarrow> reducer_error + ctrl" where
  "handle_send_message msg c =
     (if js_trim msg = [] \<or> running c then Inr c
      else (case apiKeys (st c) (llmProvider (st c)) of
              None \<Rightarrow> Inr c
            | Some key \<Rightarrow>
                if key = [] then Inr c
                else bind_r (dispatch (ADD_MESSAGE \<lparr>author = ''user'', content = msg\<rparr>) (c\<lparr>running := True\<rparr>)) (\<lambda>c2.
                     bind_r (dispatch (SET_LOADING True) c2) (\<lambda>c3.
                     bind_r (dispatch (ADD_MESSAGE \<lparr>author = ''assistant'', content = []\<rparr>) c3) (\<lambda>c4.
                     Inr (c4\<lparr>inflight := inflight c4 @ [(next_cycle c4, llmProvider (st c), key)],
                             next_cycle := Suc (next_cycle c4)\<rparr>))))))"

text \<open>
  \<open>if (event.payload.fileUpdate?.fileName)\<close>: \<open>setLastUpdatedFile\<close> and
  \<open>setSelectedNodePath\<close> with that value, whatever its type.
\<close>

definition note_file_update :: "json \<Rightarrow> ctrl \<Rightarrow> ctrl" where
  "note_file_update payload c =
     (let fileName = opt_prop (opt_prop (Some payload) ''fileUpdate'') ''fileName'' in
      if truthy fileName then c\<lparr>last_updated := fileName, selected := fileName\<rparr> else c)"

text \<open>The \<open>for await\<close> loop over a cycle's events; \<open>full\<close> is \<open>fullStreamedContent\<close>.\<close>

fun handle_events :: "string \<Rightarrow> agent_stream_event list \<Rightarrow> ctrl \<Rightarrow> reducer_error + ctrl" where
  "handle_events full [] c = Inr c"
| "handle_events full (Chunk p # evs) c =
     bind_r (dispatch (UPDATE_LAST_MESSAGE (full @ p)) c) (handle_events (full @ p) evs)"
| "handle_events full (Update payload # evs) c =
     bind_r (dispatch (APPLY_AGENT_UPDATE payload) c) (\<lambda>c0. let c' = note_file_update payload c0 in
       if truthy (opt_prop (Some payload) ''autoContinue'')
       then handle_events full evs (set_next_auto (Some continue_prompt) c')
       else bind_r (dispatch (SET_LOADING False) (c'\<lparr>running := False\<rparr>)) (handle_events full evs))"
| "handle_events full (EventError e # evs) c =
     bind_r (dispatch (UPDATE_LAST_MESSAGE (full @ error_annotation e)) c) (\<lambda>c'.
       bind_r (dispatch (SET_LOADING False) (c'\<lparr>running := False\<rparr>)) (handle_events full evs))"

definition handle_stop :: "ctrl \<Rightarrow> reducer_error + ctrl" where
  "handle_stop c =
     bind_r (dispatch (SET_LOADING False) ((set_next_auto None c)\<lparr>running := False\<rparr>)) (\<lambda>c'.
       dispatch (ADD_MESSAGE \<lparr>author = ''assistant'', content = stop_message\<rparr>) c')"

text \<open>
  \<open>executeNextStep\<close>: nothing while a cycle is marked running; otherwise the
  pending prompt is cleared and sent with the state current at fire time.
\<close>

definition timer_fires :: "ctrl \<Rightarrow> reducer_error + ctrl" where
  "timer_fires c =
     (let c1 = c\<lparr>timer_armed := False\<rparr> in
      if running c1 then Inr c1
      else (case next_auto c1 of
              None \<Rightarrow> Inr c1
            | Some p \<Rightarrow> handle_send_message p (set_next_auto None c1)))"

fun ctrl_step :: "json_parser \<Rightarrow> ctrl \<Rightarrow> ui_event \<Rightarrow> reducer_error + ctrl" where
  "ctrl_step parse c (Submit input) =
     (if js_trim input \<noteq> [] \<and> \<not> isLoading (st c) then handle_send_message (js_trim input) c else Inr c)"
| "ctrl_step parse c (Respond k outcome) =
     (case map_of (inflight c) k of
        None \<Rightarrow> Inr c
      | Some (provider, key) \<Rightarrow>
          handle_events [] (stream_agent_cycle parse provider key outcome)
            (c\<lparr>inflight := filter (\<lambda>x. fst x \<noteq> k) (inflight c)\<rparr>))"
| "ctrl_step parse c TimerFires = (if timer_armed c then timer_fires c else Inr c)"
| "ctrl_step parse c StopClicked = (if isLoading (st c) then handle_stop c else Inr c)"
| "ctrl_step parse c (SaveFile p body) =
     (if p \<noteq> [] then dispatch (SAVE_FILE_CONTENT p body) c else Inr c)"
| "ctrl_step parse c (ChooseProvider p) = dispatch (SET_LLM_PROVIDER p) c"
| "ctrl_step parse c (EnterKey p k) = dispatch (SET_API_KEY p k) c"

fun ctrl_run :: "json_parser \<Rightarrow> ctrl \<Rightarrow> ui_event list \<Rightarrow> reducer_error + ctrl" where
  "ctrl_run parse c [] = Inr c"
| "ctrl_run parse c (e # es) = bind_r (ctrl_step parse c e) (\<lambda>c'. ctrl_run parse c' es)"

definition initial_ctrl :: ctrl where
  "initial_ctrl =
     \<lparr>st = initial_app_state, running = False, next_auto = None, timer_armed = False,
      inflight = [], next_cycle = 0, selected = None, last_updated = None\<rparr>"

inductive reachable :: "json_parser \<Rightarrow> ctrl \<Rightarrow> bool" for parse where
  init: "reachable parse initial_ctrl"
| step: "reachable parse c \<Longrightarrow> ctrl_step parse c e = Inr c' \<Longrightarrow> reachable parse c'"

inductive reachable_no_stop :: "json_parser \<Rightarrow> ctrl \<Rightarrow> bool" for parse where
  init: "reachable_no_stop parse initial_ctrl"
| step: "reachable_no_stop parse c \<Longrightarrow> e \<noteq> StopClicked \<Longrightarrow> ctrl_step parse c e = Inr c'
         \<Longrightarrow> reachable_no_stop parse c'"

subsection \<open>Predicates over controller states\<close>

text \<open>
  What one handled response can do to the controller flags: it either ends
  the cycle (running and loading cleared, continuation untouched) or asks for
  a continuation (flags kept, \<open>setNextAutoPrompt\<close> applied).
\<close>

definition cycle_outcome :: "ctrl \<Rightarrow> ctrl \<Rightarrow> bool" where
  "cycle_outcome c c' \<longleftrightarrow> inflight c' = inflight c \<and> next_cycle c' = next_cycle c \<and>
     ((\<not> running c' \<and> \<not> isLoading (st c') \<and> next_auto c' = next_auto c \<and> timer_armed c' = timer_armed c)
      \<or> (running c' = running c \<and> isLoading (st c') = isLoading (st c)
         \<and> next_auto c' = next_auto (set_next_auto (Some continue_prompt) c)
         \<and> timer_armed c' = timer_armed (set_next_auto (Some continue_prompt) c)))"

text \<open>
  The discipline of spec section 5 as a state predicate: the loading flag
  mirrors \<open>isRunningRef\<close>, at most one cycle is in flight and only while
  running with no continuation pending, and an armed timer has a prompt.
\<close>

definition single_flight :: "ctrl \<Rightarrow> bool" where
  "single_flight c \<longleftrightarrow> isLoading (st c) = running c \<and> length (inflight c) \<le> 1
     \<and> (inflight c \<noteq> [] \<longrightarrow> running c \<and> next_auto c = None)
     \<and> (next_auto c \<noteq> None \<longrightarrow> running c) \<and> (timer_armed c \<longrightarrow> next_auto c \<noteq> None)"

text \<open>
  A continuation is pending but can never be sent: the running flag is still
  set and nothing is in flight to clear it.
\<close>

definition stalled :: "ctrl \<Rightarrow> bool" where
  "stalled c \<longleftrightarrow> running c \<and> isLoading (st c) \<and> next_auto c \<noteq> None \<and> inflight c = []"

text \<open>An event that neither answers a cycle nor clicks Stop.\<close>

definition no_response_nor_stop :: "ui_event \<Rightarrow> bool" where
  "no_response_nor_stop e \<longleftrightarrow> (case e of StopClicked \<Rightarrow> False | Respond k r \<Rightarrow> False | _ \<Rightarrow> True)"

subsection \<open>A sample session\<close>

text \<open>
  A sample \<open>JSON.parse\<close> for the concrete runs of the theorems below: it
  knows two payloads, one asking for a continuation and one ending the cycle;
  and the session after entering a Google key and sending one message.
\<close>

definition sample_parser :: json_parser where
  "sample_parser s =
     (if s = ''{}'' then Inr (JObj [(''updatedSchema'', JObj []), (''autoContinue'', JBool True)])
      else if s = ''{final}'' then Inr (JObj [(''updatedSchema'', JObj []), (''autoContinue'', JBool False)])
      else Inl (SyntaxError ''Unexpected token''))"

definition sample_session :: ctrl where
  "sample_session = initial_ctrl\<lparr>st := (st initial_ctrl)\<lparr>conversation_history := conversation_history (st initial_ctrl) @
       [\<lparr>author = ''user'', content = ''hello''\<rparr>, \<lparr>author = ''assistant'', content = []\<rparr>],
       isLoading := True, apiKeys := (apiKeys (st initial_ctrl))(Google \<mapsto> ''k'')\<rparr>,
      running := True, inflight := [(0, Google, ''k'')], next_cycle := 1\<rparr>"

text \<open>The sample session once the reply \<open>Hi\<close> with an update asking to continue
  has been handled: the continuation is pending and its timer armed.\<close>

definition sample_awaiting :: ctrl where
  "sample_awaiting = sample_session\<lparr>st := (st sample_session)\<lparr>conversation_history := conversation_history (st initial_ctrl) @
       [\<lparr>author = ''user'', content = ''hello''\<rparr>, \<lparr>author = ''assistant'', content = ''Hi''\<rparr>],
       agent_schema := Some (JObj [])\<rparr>, inflight := [], next_auto := Some continue_prompt, timer_armed := True\<rparr>"

subsection \<open>Lemmas\<close>

lemma dispatch_Inr:
  "dispatch a c = Inr c' \<longleftrightarrow> (\<exists>s'. app_reducer (st c) a = Inr s' \<and> c' = c\<lparr>st := s'\<rparr>)"
  by (auto simp: dispatch_def bind_r_eq_Inr)

lemma note_file_update_frame [simp]:
  "st (note_file_update p c) = st c" "running (note_file_update p c) = running c"
  "next_auto (note_file_update p c) = next_auto c" "timer_armed (note_file_update p c) = timer_armed c"
  "inflight (note_file_update p c) = inflight c" "next_cycle (note_file_update p c) = next_cycle c"
  by (simp_all add: note_file_update_def Let_def)

lemma handle_events_error:
  assumes "handle_events full [EventError e] c = Inr c'"
  shows "\<not> running c' \<and> \<not> isLoading (st c') \<and> next_auto c' = next_auto c \<and> timer_armed c' = timer_armed c
    \<and> inflight c' = inflight c \<and> next_cycle c' = next_cycle c
    \<and> docStructure (st c') = docStructure (st c) \<and> agent_schema (st c') = agent_schema (st c)"
  using assms by (auto simp: dispatch_Inr bind_r_eq_Inr Let_def)

lemma handle_events_chunk:
  assumes "handle_events full (Chunk p # evs) c = Inr c'"
  shows "\<exists>c1. handle_events (full @ p) evs c1 = Inr c' \<and> running c1 = running c \<and> st c1 = (st c)\<lparr>conversation_history := conversation_history (st c1)\<rparr>
    \<and> next_auto c1 = next_auto c \<and> timer_armed c1 = timer_armed c \<and> inflight c1 = inflight c \<and> next_cycle c1 = next_cycle c"
  using assms by (auto simp: dispatch_Inr bind_r_eq_Inr Let_def)

lemma handle_events_Nil_fun [simp]: "handle_events full [] = Inr"
  by (rule ext) simp

lemma handle_events_update:
  assumes "handle_events full [Update pl] c = Inr c'"
  shows "inflight c' = inflight c \<and> next_cycle c' = next_cycle c
    \<and> agent_schema (st c') = opt_prop (Some pl) ''updatedSchema''
    \<and> apply_file_update (docStructure (st c)) (opt_prop (Some pl) ''fileUpdate'') = Inr (docStructure (st c'))
    \<and> (if truthy (opt_prop (Some pl) ''autoContinue'')
       then running c' = running c \<and> isLoading (st c') = isLoading (st c)
            \<and> next_auto c' = next_auto (set_next_auto (Some continue_prompt) c)
            \<and> timer_armed c' = timer_armed (set_next_auto (Some continue_prompt) c)
       else \<not> running c' \<and> \<not> isLoading (st c') \<and> next_auto c' = next_auto c \<and> timer_armed c' = timer_armed c)"
proof -
  obtain c1 where d: "dispatch (APPLY_AGENT_UPDATE pl) c = Inr c1"
    and r: "(if truthy (opt_prop (Some pl) ''autoContinue'')
             then Inr (set_next_auto (Some continue_prompt) (note_file_update pl c1))
             else bind_r (dispatch (SET_LOADING False) ((note_file_update pl c1)\<lparr>running := False\<rparr>)) Inr) = Inr c'"
  proof -
    have "bind_r (dispatch (APPLY_AGENT_UPDATE pl) c) (\<lambda>c1.
            if truthy (opt_prop (Some pl) ''autoContinue'')
            then Inr (set_next_auto (Some continue_prompt) (note_file_update pl c1))
            else bind_r (dispatch (SET_LOADING False) ((note_file_update pl c1)\<lparr>running := False\<rparr>)) Inr) = Inr c'"
      using assms by (simp add: Let_def cong: if_cong)
    then show ?thesis using that unfolding bind_r_eq_Inr by blast
  qed
  obtain s1 where s1: "app_reducer (st c) (APPLY_AGENT_UPDATE pl) = Inr s1" and c1: "c1 = c\<lparr>st := s1\<rparr>"
    using d by (auto simp: dispatch_Inr)
  have sch: "agent_schema s1 = opt_prop (Some pl) ''updatedSchema''" "isLoading s1 = isLoading (st c)"
    "apply_file_update (docStructure (st c)) (opt_prop (Some pl) ''fileUpdate'') = Inr (docStructure s1)"
    using arg_cong [OF conjunct1 [OF reducer_apply_Inr [OF s1]], of agent_schema]
      arg_cong [OF conjunct1 [OF reducer_apply_Inr [OF s1]], of isLoading]
      conjunct2 [OF reducer_apply_Inr [OF s1]] by simp_all
  show ?thesis
  proof (cases "truthy (opt_prop (Some pl) ''autoContinue'')")
    case True
    then have "c' = set_next_auto (Some continue_prompt) (note_file_update pl c1)" using r by simp
    then show ?thesis using True c1 sch by (simp add: set_next_auto_def)
  next
    case False
    then have "c' = (note_file_update pl c1)\<lparr>running := False, st := (st c1)\<lparr>isLoading := False\<rparr>\<rparr>"
      using r by (auto simp: dispatch_def bind_r_eq_Inr)
    then show ?thesis using False c1 sch by simp
  qed
qed

lemma handle_cycle_events:
  assumes "handle_events [] (stream_agent_cycle parse provider apiKey transport) c = Inr c'"
  shows "cycle_outcome c c'"
proof -
  from stream_events_cases [of parse provider apiKey transport]
  consider (err) e where "stream_agent_cycle parse provider apiKey transport = [EventError e]"
    | (chunk_err) ch e where "stream_agent_cycle parse provider apiKey transport = [Chunk ch, EventError e]"
    | (chunk_upd) ch d where "stream_agent_cycle parse provider apiKey transport = [Chunk ch, Update d]"
    by blast
  then show ?thesis
  proof cases
    case err
    have h: "handle_events [] [EventError e] c = Inr c'" using assms err by (simp only:)
    show ?thesis using handle_events_error [OF h] unfolding cycle_outcome_def by simp
  next
    case chunk_err
    have h0: "handle_events [] (Chunk ch # [EventError e]) c = Inr c'"
      using assms chunk_err by (simp only:)
    obtain c1 where h: "handle_events ch [EventError e] c1 = Inr c'"
      and eqs: "running c1 = running c" "next_auto c1 = next_auto c" "timer_armed c1 = timer_armed c"
        "inflight c1 = inflight c" "next_cycle c1 = next_cycle c"
      using handle_events_chunk [OF h0] by auto
    show ?thesis using handle_events_error [OF h] eqs unfolding cycle_outcome_def by simp
  next
    case chunk_upd
    have h0: "handle_events [] (Chunk ch # [Update d]) c = Inr c'"
      using assms chunk_upd by (simp only:)
    obtain c1 where h: "handle_events ch [Update d] c1 = Inr c'"
      and eqs: "running c1 = running c" "st c1 = (st c)\<lparr>conversation_history := conversation_history (st c1)\<rparr>"
        "next_auto c1 = next_auto c" "timer_armed c1 = timer_armed c" "inflight c1 = inflight c"
        "next_cycle c1 = next_cycle c"
      using handle_events_chunk [OF h0] by auto
    have ld: "isLoading (st c1) = isLoading (st c)"
      using arg_cong [OF eqs(2), of isLoading] by simp
    show ?thesis
    proof (cases "truthy (opt_prop (Some d) ''autoContinue'')")
      case True
      then show ?thesis using handle_events_update [OF h] eqs ld
        unfolding cycle_outcome_def by (simp add: set_next_auto_def)
    next
      case False
      then show ?thesis using handle_events_update [OF h] eqs
        unfolding cycle_outcome_def by simp
    qed
  qed
qed

lemma dispatch_frame:
  assumes "dispatch a c = Inr c'"
  shows "running c' = running c \<and> next_auto c' = next_auto c \<and> timer_armed c' = timer_armed c
    \<and> inflight c' = inflight c \<and> next_cycle c' = next_cycle c
    \<and> isLoading (st c') = (case a of SET_LOADING b \<Rightarrow> b | _ \<Rightarrow> isLoading (st c))"
  using assms reducer_Inr_cases by (auto simp: dispatch_Inr)

lemma send_flags:
  assumes "handle_send_message msg c = Inr c'"
  shows "c' = c \<or> (\<not> running c \<and> running c' \<and> isLoading (st c') \<and> next_auto c' = next_auto c
    \<and> timer_armed c' = timer_armed c \<and> next_cycle c' = Suc (next_cycle c)
    \<and> (\<exists>key. inflight c' = inflight c @ [(next_cycle c, llmProvider (st c), key)]))"
proof (cases "js_trim msg = [] \<or> running c \<or> apiKeys (st c) (llmProvider (st c)) \<in> {None, Some []}")
  case True
  then have "handle_send_message msg c = Inr c" by (auto simp: handle_send_message_def)
  then show ?thesis using assms by simp
next
  case False
  then obtain key where k: "apiKeys (st c) (llmProvider (st c)) = Some key" "key \<noteq> []" by auto
  from assms False k obtain c2 c3 c4 where
    d2: "dispatch (ADD_MESSAGE \<lparr>author = ''user'', content = msg\<rparr>) (c\<lparr>running := True\<rparr>) = Inr c2"
    and d3: "dispatch (SET_LOADING True) c2 = Inr c3"
    and d4: "dispatch (ADD_MESSAGE \<lparr>author = ''assistant'', content = []\<rparr>) c3 = Inr c4"
    and c': "c' = c4\<lparr>inflight := inflight c4 @ [(next_cycle c4, llmProvider (st c), key)], next_cycle := Suc (next_cycle c4)\<rparr>"
    by (auto simp: handle_send_message_def bind_r_eq_Inr)
  show ?thesis using dispatch_frame [OF d2] dispatch_frame [OF d3] dispatch_frame [OF d4] c' False by simp
qed

lemma stop_flags:
  assumes "handle_stop c = Inr c'"
  shows "\<not> running c' \<and> \<not> isLoading (st c') \<and> next_auto c' = None
    \<and> inflight c' = inflight c \<and> next_cycle c' = next_cycle c"
proof -
  from assms obtain c2 where d2: "dispatch (SET_LOADING False) ((set_next_auto None c)\<lparr>running := False\<rparr>) = Inr c2"
    and d3: "dispatch (ADD_MESSAGE \<lparr>author = ''assistant'', content = stop_message\<rparr>) c2 = Inr c'"
    by (auto simp: handle_stop_def bind_r_eq_Inr)
  show ?thesis using dispatch_frame [OF d2] dispatch_frame [OF d3] by (simp add: set_next_auto_def)
qed

lemma stop_keeps_settings:
  assumes "handle_stop c = Inr c'"
  shows "apiKeys (st c') = apiKeys (st c) \<and> llmProvider (st c') = llmProvider (st c)"
  using assms
  by (auto simp: handle_stop_def dispatch_def set_next_auto_def bind_r_eq_Inr Let_def split: if_splits)

lemma send_starts_cycle:
  assumes "\<not> running c" "js_trim m \<noteq> []" "apiKeys (st c) (llmProvider (st c)) = Some key" "key \<noteq> []"
  shows "\<exists>c'. handle_send_message m c = Inr c' \<and> running c' \<and> isLoading (st c')
           \<and> inflight c' = inflight c @ [(next_cycle c, llmProvider (st c), key)]"
  using assms by (simp add: handle_send_message_def dispatch_def bind_r_def Let_def)

lemma timer_flags:
  assumes "timer_fires c = Inr c'"
  shows "(running c \<longrightarrow> c' = c\<lparr>timer_armed := False\<rparr>)
    \<and> (\<not> running c \<and> next_auto c = None \<longrightarrow> c' = c\<lparr>timer_armed := False\<rparr>)
    \<and> (\<not> running c \<and> next_auto c \<noteq> None \<longrightarrow>
         (\<exists>p. next_auto c = Some p \<and> handle_send_message p (c\<lparr>next_auto := None, timer_armed := False\<rparr>) = Inr c'))"
  using assms by (auto simp: timer_fires_def set_next_auto_def split: option.splits)

lemma respond_outcome:
  assumes "ctrl_step parse c (Respond k r) = Inr c'"
  shows "c' = c \<or> (\<exists>p key. map_of (inflight c) k = Some (p, key)
           \<and> cycle_outcome (c\<lparr>inflight := filter (\<lambda>x. fst x \<noteq> k) (inflight c)\<rparr>) c')"
  using assms handle_cycle_events by (auto split: option.splits)

lemma step_keeps_loading:
  assumes inv: "isLoading (st c) = running c" and step: "ctrl_step parse c e = Inr c'"
  shows "isLoading (st c') = running c'"
proof (cases e)
  case (Submit m)
  then show ?thesis using inv step send_flags [of "js_trim m" c c'] by (auto split: if_splits)
next
  case (Respond k r)
  then show ?thesis using inv step respond_outcome [of parse c k r c']
    by (auto simp: cycle_outcome_def set_next_auto_def)
next
  case TimerFires
  then show ?thesis using inv step timer_flags [of c c'] send_flags
    by (cases "next_auto c") (fastforce split: if_splits)+
next
  case StopClicked
  then show ?thesis using inv step stop_flags [of c c'] by (auto split: if_splits)
qed (use inv step dispatch_frame in \<open>auto split: if_splits\<close>)

lemma step_keeps_single_flight:
  assumes inv: "single_flight c" and step: "ctrl_step parse c e = Inr c'" and ns: "e \<noteq> StopClicked"
  shows "single_flight c'"
proof (cases e)
  case (Submit m)
  then show ?thesis using inv step send_flags [of "js_trim m" c c']
    by (auto simp: single_flight_def split: if_splits)
next
  case (Respond k r)
  show ?thesis
  proof (cases "c' = c")
    case False
    then obtain p key where m: "map_of (inflight c) k = Some (p, key)"
      and o: "cycle_outcome (c\<lparr>inflight := filter (\<lambda>x. fst x \<noteq> k) (inflight c)\<rparr>) c'"
      using respond_outcome [of parse c k r c'] step Respond by auto
    from m inv have "inflight c = [(k, p, key)]"
      by (cases "inflight c") (auto simp: single_flight_def split: if_splits)
    then show ?thesis using o inv by (auto simp: single_flight_def cycle_outcome_def set_next_auto_def)
  qed (use inv in simp)
next
  case TimerFires
  then show ?thesis using inv step timer_flags [of c c']
    by (auto simp: single_flight_def split: if_splits)
qed (use inv step ns dispatch_frame in \<open>auto simp: single_flight_def split: if_splits\<close>)

lemma reachable_loading:
  "reachable parse c \<Longrightarrow> isLoading (st c) = running c"
proof (induction rule: reachable.induct)
  case init
  show ?case by (simp add: initial_ctrl_def initial_app_state_def)
next
  case (step c e c')
  then show ?case using step_keeps_loading by blast
qed

lemma reachable_no_stop_single_flight:
  "reachable_no_stop parse c \<Longrightarrow> single_flight c"
proof (induction rule: reachable_no_stop.induct)
  case init
  show ?case by (simp add: single_flight_def initial_ctrl_def initial_app_state_def)
next
  case (step c e c')
  then show ?case using step_keeps_single_flight by blast
qed

lemma stop_ne [simp]: "stop_message \<noteq> []" by (simp add: stop_message_def)

lemmas ctrl_simps = Let_def dispatch_def note_file_update_def handle_send_message_def set_next_auto_def timer_fires_def handle_stop_def
  initial_ctrl_def initial_app_state_def is_placeholder_def

lemma stalled_step:
  assumes "stalled c" "e \<noteq> StopClicked" "ctrl_step parse c e = Inr c'"
  shows "stalled c' \<and> next_cycle c' = next_cycle c \<and> next_auto c' = next_auto c"
  using assms dispatch_frame [of _ c c'] timer_flags [of c c']
  by (cases e) (auto simp: stalled_def split: if_splits)

lemma stalled_run:
  "stalled c \<Longrightarrow> StopClicked \<notin> set es \<Longrightarrow> ctrl_run parse c es = Inr c'
   \<Longrightarrow> stalled c' \<and> next_cycle c' = next_cycle c \<and> next_auto c' = next_auto c"
proof (induction es arbitrary: c)
  case Nil
  then show ?case by simp
next
  case (Cons e es)
  then obtain c1 where "ctrl_step parse c e = Inr c1" "ctrl_run parse c1 es = Inr c'"
    by (auto simp: bind_r_eq_Inr)
  with Cons stalled_step [of c e parse c1] show ?case by auto
qed

lemma ctrl_run_reachable:
  "reachable parse c \<Longrightarrow> ctrl_run parse c es = Inr c' \<Longrightarrow> reachable parse c'"
  by (induction es arbitrary: c) (auto simp: bind_r_eq_Inr intro: reachable.step)

lemma ctrl_run_reachable_no_stop:
  "reachable_no_stop parse c \<Longrightarrow> StopClicked \<notin> set es \<Longrightarrow> ctrl_run parse c es = Inr c'
   \<Longrightarrow> reachable_no_stop parse c'"
proof (induction es arbitrary: c)
  case (Cons e es)
  then obtain c1 where "ctrl_step parse c e = Inr c1" "ctrl_run parse c1 es = Inr c'" "e \<noteq> StopClicked"
    by (auto simp: bind_r_eq_Inr)
  with Cons.prems(1) Cons.IH [of c1] Cons.prems(2) show ?case by (simp add: reachable_no_stop.step)
qed simp

lemma sample_session_run:
  "ctrl_run parse initial_ctrl [EnterKey Google ''k'', Submit ''hello''] = Inr sample_session"
  by (simp add: sample_session_def ctrl_simps js_trim_def is_ws_def)

lemma sample_session_reachable:
  "reachable sample_parser sample_session \<and> reachable_no_stop sample_parser sample_session"
  using ctrl_run_reachable [OF reachable.init sample_session_run]
    ctrl_run_reachable_no_stop [OF reachable_no_stop.init _ sample_session_run] by simp



lemma dispatch_keeps_shape:
  "dispatch a c = Inr c' \<Longrightarrow> doc_skeleton (docStructure (st c')) = doc_skeleton (docStructure (st c))"
  using reducer_keeps_shape by (auto simp: dispatch_Inr)

lemma handle_events_keeps_shape:
  "handle_events full evs c = Inr c' \<Longrightarrow> doc_skeleton (docStructure (st c')) = doc_skeleton (docStructure (st c))"
proof (induction full evs c rule: handle_events.induct)
  case (2 full p evs c)
  then show ?case using dispatch_keeps_shape by (fastforce simp: bind_r_eq_Inr)
next
  case (3 full payload evs c)
  then obtain c1 where d: "dispatch (APPLY_AGENT_UPDATE payload) c = Inr c1"
    and r: "(if truthy (opt_prop (Some payload) ''autoContinue'')
             then handle_events full evs (set_next_auto (Some continue_prompt) (note_file_update payload c1))
             else bind_r (dispatch (SET_LOADING False) ((note_file_update payload c1)\<lparr>running := False\<rparr>))
                    (handle_events full evs)) = Inr c'"
    by (auto simp: bind_r_eq_Inr Let_def)
  show ?case
  proof (cases "truthy (opt_prop (Some payload) ''autoContinue'')")
    case True
    with r have h: "handle_events full evs (set_next_auto (Some continue_prompt) (note_file_update payload c1)) = Inr c'"
      by simp
    from "3.IH"(1) [OF refl True h] dispatch_keeps_shape [OF d] show ?thesis
      by (simp add: set_next_auto_def)
  next
    case False
    with r obtain c2 where d2: "dispatch (SET_LOADING False) ((note_file_update payload c1)\<lparr>running := False\<rparr>) = Inr c2"
      and h: "handle_events full evs c2 = Inr c'" by (auto simp: bind_r_eq_Inr)
    from "3.IH"(2) [OF refl False h] dispatch_keeps_shape [OF d] dispatch_keeps_shape [OF d2] show ?thesis
      by simp
  qed
next
  case (4 full e evs c)
  then show ?case using dispatch_keeps_shape by (fastforce simp: bind_r_eq_Inr)
qed simp

lemma send_keeps_shape:
  assumes "handle_send_message msg c = Inr c'"
  shows "doc_skeleton (docStructure (st c')) = doc_skeleton (docStructure (st c))"
proof (cases "c' = c")
  case False
  then obtain key c2 c3 c4 where
    d2: "dispatch (ADD_MESSAGE \<lparr>author = ''user'', content = msg\<rparr>) (c\<lparr>running := True\<rparr>) = Inr c2"
    and d3: "dispatch (SET_LOADING True) c2 = Inr c3"
    and d4: "dispatch (ADD_MESSAGE \<lparr>author = ''assistant'', content = []\<rparr>) c3 = Inr c4"
    and c': "c' = c4\<lparr>inflight := inflight c4 @ [(next_cycle c4, llmProvider (st c), key)], next_cycle := Suc (next_cycle c4)\<rparr>"
    using assms by (auto simp: handle_send_message_def bind_r_eq_Inr split: if_splits option.splits)
  show ?thesis using dispatch_keeps_shape [OF d2] dispatch_keeps_shape [OF d3] dispatch_keeps_shape [OF d4] c' by simp
qed simp

lemma ctrl_step_keeps_shape:
  assumes "ctrl_step parse c e = Inr c'"
  shows "doc_skeleton (docStructure (st c')) = doc_skeleton (docStructure (st c))"
proof (cases e)
  case (Submit m)
  then show ?thesis using assms send_keeps_shape by (auto split: if_splits)
next
  case (Respond k r)
  then show ?thesis using assms handle_events_keeps_shape by (fastforce split: option.splits)
next
  case TimerFires
  then show ?thesis using assms send_keeps_shape
    by (fastforce simp: timer_fires_def set_next_auto_def Let_def split: if_splits option.splits)
next
  case StopClicked
  then show ?thesis using assms dispatch_keeps_shape
    by (fastforce simp: handle_stop_def bind_r_eq_Inr set_next_auto_def split: if_splits)
qed (use assms dispatch_keeps_shape in \<open>auto split: if_splits\<close>)

lemma blocked_step:
  assumes "single_flight c" "inflight c \<noteq> []" "no_response_nor_stop e" "ctrl_step parse c e = Inr c'"
  shows "single_flight c' \<and> inflight c' = inflight c \<and> running c' \<and> next_cycle c' = next_cycle c"
proof -
  have "e \<noteq> StopClicked" using assms(3) by (cases e) (auto simp: no_response_nor_stop_def)
  then have sf: "single_flight c'" using step_keeps_single_flight [OF assms(1,4)] by simp
  have r: "running c" "isLoading (st c)" "next_auto c = None" "\<not> timer_armed c"
    using assms(1,2) by (auto simp: single_flight_def)
  show ?thesis
    using assms(3,4) r sf dispatch_frame [of _ c c']
    by (cases e) (auto simp: no_response_nor_stop_def split: if_splits)
qed

subsection \<open>Properties of the session controller\<close>

lemma sample_continue_events:
  "stream_agent_cycle sample_parser Google ''k'' (Inr (''Hi'' @ JSON_RESPONSE_SEPARATOR @ ''{}''))
     = [Chunk ''Hi'', Update (JObj [(''updatedSchema'', JObj []), (''autoContinue'', JBool True)])]"
  by (simp add: sample_parser_def stream_agent_cycle_def process_buffer_def index_of_def
      JSON_RESPONSE_SEPARATOR_def strip_fence_def fence_match_def fence_def js_trim_def is_ws_def
      validate_payload_def Let_def)

lemma sample_awaiting_step:
  "ctrl_step sample_parser sample_session (Respond 0 (Inr (''Hi'' @ JSON_RESPONSE_SEPARATOR @ ''{}''))) = Inr sample_awaiting"
  using sample_continue_events
  by (simp add: sample_session_def sample_awaiting_def ctrl_simps apply_file_update_def)

text \<open>C4. Once a response carrying autoContinue true has been handled, and
  the user never clicks Stop, no later event starts another cycle: the
  continuation prompt stays pending, the running flag and the loading
  indicator stay on, and nothing is in flight.\<close>

theorem autonomous_loop_stalls:
  assumes reach: "reachable_no_stop parse c"
    and cyc: "map_of (inflight c) k = Some (prov, key)"
    and evs: "stream_agent_cycle parse prov key r = [Chunk ch, Update d]"
    and auto: "truthy (opt_prop (Some d) ''autoContinue'')"
    and resp: "ctrl_step parse c (Respond k r) = Inr c1"
    and nostop: "StopClicked \<notin> set es"
    and run: "ctrl_run parse c1 es = Inr c2"
  shows "inflight c2 = [] \<and> next_cycle c2 = next_cycle c \<and> running c2 \<and> isLoading (st c2)
    \<and> next_auto c2 = Some continue_prompt"
proof -
  have sf: "single_flight c" using reachable_no_stop_single_flight [OF reach] .
  then have one: "inflight c = [(k, prov, key)]" and r0: "running c" "isLoading (st c)" "next_auto c = None"
    using cyc by (cases "inflight c"; auto simp: single_flight_def split: if_splits)+
  have h0: "handle_events [] (Chunk ch # [Update d]) (c\<lparr>inflight := []\<rparr>) = Inr c1"
    using resp cyc evs one by simp
  obtain cm where h: "handle_events ch [Update d] cm = Inr c1"
    and eqs: "running cm = running c" "st cm = (st c)\<lparr>conversation_history := conversation_history (st cm)\<rparr>"
      "next_auto cm = next_auto c" "inflight cm = []" "next_cycle cm = next_cycle c"
    using handle_events_chunk [OF h0] by auto
  have "isLoading (st cm) = isLoading (st c)" using arg_cong [OF eqs(2), of isLoading] by simp
  then have "stalled c1 \<and> next_cycle c1 = next_cycle c \<and> next_auto c1 = Some continue_prompt"
    using handle_events_update [OF h] auto eqs r0 by (simp add: stalled_def set_next_auto_def)
  then show ?thesis using stalled_run [OF _ nostop run] by (simp add: stalled_def)
qed

lemma autonomous_loop_stalls_witness:
  "\<exists>c1 c2. reachable_no_stop sample_parser sample_session
   \<and> map_of (inflight sample_session) 0 = Some (Google, ''k'')
   \<and> stream_agent_cycle sample_parser Google ''k'' (Inr (''Hi'' @ JSON_RESPONSE_SEPARATOR @ ''{}''))
       = [Chunk ''Hi'', Update (JObj [(''updatedSchema'', JObj []), (''autoContinue'', JBool True)])]
   \<and> truthy (opt_prop (Some (JObj [(''updatedSchema'', JObj []), (''autoContinue'', JBool True)])) ''autoContinue'')
   \<and> ctrl_step sample_parser sample_session (Respond 0 (Inr (''Hi'' @ JSON_RESPONSE_SEPARATOR @ ''{}''))) = Inr c1
   \<and> StopClicked \<notin> set [TimerFires, Submit ''again'']
   \<and> ctrl_run sample_parser c1 [TimerFires, Submit ''again''] = Inr c2
   \<and> inflight c2 = [] \<and> next_cycle c2 = next_cycle sample_session \<and> running c2 \<and> isLoading (st c2)
   \<and> next_auto c2 = Some continue_prompt"
proof -
  have reach: "reachable_no_stop sample_parser sample_session" using sample_session_reachable by simp
  have run1: "ctrl_run sample_parser sample_awaiting [TimerFires, Submit ''again''] = Inr (sample_awaiting\<lparr>timer_armed := False\<rparr>)"
    by (simp add: sample_awaiting_def sample_session_def ctrl_simps js_trim_def is_ws_def)
  have "inflight (sample_awaiting\<lparr>timer_armed := False\<rparr>) = [] \<and> next_cycle (sample_awaiting\<lparr>timer_armed := False\<rparr>) = next_cycle sample_session
     \<and> running (sample_awaiting\<lparr>timer_armed := False\<rparr>) \<and> isLoading (st (sample_awaiting\<lparr>timer_armed := False\<rparr>))
     \<and> next_auto (sample_awaiting\<lparr>timer_armed := False\<rparr>) = Some continue_prompt"
    using autonomous_loop_stalls [OF reach _ sample_continue_events _ sample_awaiting_step _ run1] by (simp add: sample_session_def)
  then show ?thesis using reach sample_continue_events sample_awaiting_step run1
    by (intro exI [of _ sample_awaiting] exI [of _ "sample_awaiting\<lparr>timer_armed := False\<rparr>"]) (simp add: sample_session_def)
qed

text \<open>C23. Stop cancels a pending continuation: after Stop is clicked while the
  loading indicator shows, no continuation is pending, the running flag is
  clear, and a firing timer only disarms itself: it starts no cycle.\<close>

theorem stop_cancels_continuation:
  assumes "isLoading (st c)" "ctrl_step parse c StopClicked = Inr c'"
  shows "next_auto c' = None \<and> \<not> running c'
       \<and> ctrl_step parse c' TimerFires = Inr (c'\<lparr>timer_armed := False\<rparr>)"
proof -
  have "handle_stop c = Inr c'" using assms by simp
  note f = stop_flags [OF this]
  have "ctrl_step parse c' TimerFires = Inr (c'\<lparr>timer_armed := False\<rparr>)"
  proof (cases "timer_armed c'")
    case True
    then show ?thesis using f by (simp add: timer_fires_def Let_def)
  next
    case False
    then have "c'\<lparr>timer_armed := False\<rparr> = c'" by simp
    then show ?thesis using False by simp
  qed
  then show ?thesis using f by simp
qed

theorem stop_cancels_continuation_witness:
  "next_auto sample_awaiting = Some continue_prompt
   \<and> (\<exists>c'. ctrl_step sample_parser sample_awaiting StopClicked = Inr c'
        \<and> next_auto c' = None \<and> \<not> running c'
        \<and> ctrl_step sample_parser c' TimerFires = Inr (c'\<lparr>timer_armed := False\<rparr>))"
proof -
  have l: "isLoading (st sample_awaiting)" by (simp add: sample_awaiting_def sample_session_def)
  obtain c' where c': "ctrl_step sample_parser sample_awaiting StopClicked = Inr c'"
    using l by (simp add: sample_awaiting_def sample_session_def ctrl_simps)
  show ?thesis using stop_cancels_continuation [OF l c'] c' by (auto simp: sample_awaiting_def)
qed

text \<open>C5. As long as the user never clicks Stop, at most one agent cycle is
  in flight, and while one is, the running flag and the loading indicator are
  set and no continuation is pending.\<close>

theorem at_most_one_cycle_without_stop:
  assumes "reachable_no_stop parse c"
  shows "length (inflight c) \<le> 1 \<and> (inflight c \<noteq> [] \<longrightarrow> running c \<and> isLoading (st c) \<and> next_auto c = None)"
  using reachable_no_stop_single_flight [OF assms] by (auto simp: single_flight_def)

lemma at_most_one_cycle_without_stop_witness:
  "reachable_no_stop sample_parser sample_session \<and> inflight sample_session \<noteq> []
   \<and> length (inflight sample_session) \<le> 1 \<and> running sample_session \<and> isLoading (st sample_session)"
  using at_most_one_cycle_without_stop [of sample_parser sample_session] sample_session_reachable
  by (simp add: sample_session_def)

text \<open>C6. Stop does not cancel the cycle in flight: from any state where a
  cycle is loading and the chosen provider has a key, clicking Stop and then
  sending any message that is not blank starts a second cycle, appended to the
  in-flight set beside the first, and the interface is running and loading
  again.\<close>

theorem stop_allows_second_cycle:
  assumes "isLoading (st c)" "inflight c \<noteq> []" "apiKeys (st c) (llmProvider (st c)) = Some key" "key \<noteq> []"
    and "js_trim msg \<noteq> []" "ctrl_step parse c StopClicked = Inr c1"
  shows "\<exists>c2. ctrl_step parse c1 (Submit msg) = Inr c2
           \<and> inflight c2 = inflight c @ [(next_cycle c, llmProvider (st c), key)]
           \<and> 2 \<le> length (inflight c2) \<and> running c2 \<and> isLoading (st c2)"
proof -
  have h: "handle_stop c = Inr c1" using assms(1,6) by simp
  note f = stop_flags [OF h] and k = stop_keeps_settings [OF h]
  have "js_trim (js_trim msg) \<noteq> []" using assms(5) by (simp add: js_trim_idem)
  then obtain c2 where c2: "handle_send_message (js_trim msg) c1 = Inr c2" "running c2" "isLoading (st c2)"
    "inflight c2 = inflight c1 @ [(next_cycle c1, llmProvider (st c1), key)]"
    using send_starts_cycle [of c1 "js_trim msg" key] f k assms(3,4) by auto
  have "ctrl_step parse c1 (Submit msg) = Inr c2" using c2(1) f assms(5) by simp
  moreover have "2 \<le> length (inflight c2)" using c2(4) f assms(2) by (cases "inflight c") auto
  ultimately show ?thesis using c2 f k by auto
qed

theorem stop_allows_second_cycle_witness:
  "\<exists>c1 c2. ctrl_step sample_parser sample_session StopClicked = Inr c1
     \<and> ctrl_step sample_parser c1 (Submit ''more'') = Inr c2
     \<and> inflight c2 = inflight sample_session @ [(next_cycle sample_session, Google, ''k'')]
     \<and> 2 \<le> length (inflight c2) \<and> running c2"
proof -
  have "\<exists>c1. ctrl_step sample_parser sample_session StopClicked = Inr c1"
    by (simp add: sample_session_def ctrl_simps)
  then obtain c1 where c1: "ctrl_step sample_parser sample_session StopClicked = Inr c1" by blast
  have "\<exists>c2. ctrl_step sample_parser c1 (Submit ''more'') = Inr c2
     \<and> inflight c2 = inflight sample_session @ [(next_cycle sample_session, llmProvider (st sample_session), ''k'')]
     \<and> 2 \<le> length (inflight c2) \<and> running c2 \<and> isLoading (st c2)"
    by (rule stop_allows_second_cycle [OF _ _ _ _ _ c1])
      (simp_all add: sample_session_def initial_ctrl_def initial_app_state_def js_trim_def is_ws_def)
  then show ?thesis using c1 by (auto simp: sample_session_def initial_ctrl_def initial_app_state_def)
qed

text \<open>The late response of a stopped cycle clears the running flag and
  the loading indicator of the cycle started after it, which is still in
  flight: the interface accepts a new message while a cycle runs.\<close>

theorem stale_response_unlocks_ui:
  "\<exists>c. reachable parse c \<and> inflight c = [(1, Google, ''k'')] \<and> \<not> running c \<and> \<not> isLoading (st c)"
proof -
  have "\<exists>c. ctrl_run parse initial_ctrl [EnterKey Google ''k'', Submit ''a'', StopClicked, Submit ''b'',
            Respond 0 (Inl (JsError ''network''))] = Inr c
     \<and> inflight c = [(1, Google, ''k'')] \<and> \<not> running c \<and> \<not> isLoading (st c)"
    by (simp add: ctrl_simps js_trim_def is_ws_def stream_agent_cycle_def error_annotation_def)
  then show ?thesis using ctrl_run_reachable [OF reachable.init] by blast
qed

text \<open>C9. A cycle that ends in an exception of the backend call clears the
  running flag and the loading indicator, drops the cycle from the in-flight
  set, and leaves the document tree, the agent schema and any pending
  continuation unchanged.\<close>

theorem error_response_ends_cycle:
  assumes "map_of (inflight c) k = Some (p, key)" "key \<noteq> []"
    and "ctrl_step parse c (Respond k (Inl e)) = Inr c'"
  shows "\<not> running c' \<and> \<not> isLoading (st c') \<and> inflight c' = filter (\<lambda>x. fst x \<noteq> k) (inflight c)
    \<and> docStructure (st c') = docStructure (st c) \<and> agent_schema (st c') = agent_schema (st c)
    \<and> next_auto c' = next_auto c"
proof -
  have "handle_events [] [EventError (''Error calling API: '' @ exn_message e)] (c\<lparr>inflight := filter (\<lambda>x. fst x \<noteq> k) (inflight c)\<rparr>) = Inr c'"
    using assms by (simp add: stream_agent_cycle_def)
  from handle_events_error [OF this] show ?thesis by simp
qed

lemma error_response_ends_cycle_witness:
  "\<exists>c'. map_of (inflight sample_session) 0 = Some (Google, ''k'')
     \<and> ctrl_step sample_parser sample_session (Respond 0 (Inl (JsError ''network''))) = Inr c'
     \<and> \<not> running c' \<and> \<not> isLoading (st c') \<and> inflight c' = []"
proof -
  have "\<exists>c'. ctrl_step sample_parser sample_session (Respond 0 (Inl (JsError ''network''))) = Inr c'"
    by (simp add: sample_session_def ctrl_simps stream_agent_cycle_def)
  then obtain c' where s: "ctrl_step sample_parser sample_session (Respond 0 (Inl (JsError ''network''))) = Inr c'" ..
  have m: "map_of (inflight sample_session) 0 = Some (Google, ''k'')" by (simp add: sample_session_def)
  show ?thesis using error_response_ends_cycle [OF m _ s] s m by (auto simp: sample_session_def)
qed

text \<open>C10. A cycle whose update does not ask for a continuation clears the
  running flag and the loading indicator, replaces the agent schema by the
  payload's updatedSchema, and writes the payload's fileUpdate into the tree
  through the reducer's file update.\<close>

theorem final_update_ends_cycle:
  assumes "map_of (inflight c) k = Some (p, key)"
    and "stream_agent_cycle parse p key r = [Chunk ch, Update d]"
    and "\<not> truthy (opt_prop (Some d) ''autoContinue'')"
    and "ctrl_step parse c (Respond k r) = Inr c'"
  shows "\<not> running c' \<and> \<not> isLoading (st c') \<and> next_auto c' = next_auto c
    \<and> agent_schema (st c') = opt_prop (Some d) ''updatedSchema''
    \<and> apply_file_update (docStructure (st c)) (opt_prop (Some d) ''fileUpdate'') = Inr (docStructure (st c'))"
proof -
  have h0: "handle_events [] (Chunk ch # [Update d]) (c\<lparr>inflight := filter (\<lambda>x. fst x \<noteq> k) (inflight c)\<rparr>) = Inr c'"
    using assms by simp
  obtain cm where h: "handle_events ch [Update d] cm = Inr c'"
    and eqs: "st cm = (st c)\<lparr>conversation_history := conversation_history (st cm)\<rparr>" "next_auto cm = next_auto c"
    using handle_events_chunk [OF h0] by auto
  have "docStructure (st cm) = docStructure (st c)" using arg_cong [OF eqs(1), of docStructure] by simp
  then show ?thesis using handle_events_update [OF h] assms(3) eqs(2) by simp
qed

lemma final_update_ends_cycle_witness:
  "\<exists>c'. map_of (inflight sample_session) 0 = Some (Google, ''k'')
     \<and> stream_agent_cycle sample_parser Google ''k'' (Inr (''Done'' @ JSON_RESPONSE_SEPARATOR @ ''{final}''))
         = [Chunk ''Done'', Update (JObj [(''updatedSchema'', JObj []), (''autoContinue'', JBool False)])]
     \<and> ctrl_step sample_parser sample_session (Respond 0 (Inr (''Done'' @ JSON_RESPONSE_SEPARATOR @ ''{final}''))) = Inr c'
     \<and> \<not> running c' \<and> \<not> isLoading (st c') \<and> agent_schema (st c') = Some (JObj [])"
proof -
  define D where "D = JObj [(''updatedSchema'', JObj []), (''autoContinue'', JBool False)]"
  define R :: "js_exn + string" where "R = Inr (''Done'' @ JSON_RESPONSE_SEPARATOR @ ''{final}'')"
  have ev: "stream_agent_cycle sample_parser Google ''k'' R = [Chunk ''Done'', Update D]"
    by (simp add: sample_parser_def D_def R_def stream_agent_cycle_def process_buffer_def index_of_def
      JSON_RESPONSE_SEPARATOR_def strip_fence_def fence_match_def fence_def js_trim_def is_ws_def
      validate_payload_def Let_def)
  have "\<exists>c'. ctrl_step sample_parser sample_session (Respond 0 R) = Inr c'"
    using ev by (simp add: sample_session_def D_def ctrl_simps apply_file_update_def)
  then obtain c' where s: "ctrl_step sample_parser sample_session (Respond 0 R) = Inr c'" ..
  have m: "map_of (inflight sample_session) 0 = Some (Google, ''k'')" by (simp add: sample_session_def)
  have "\<not> truthy (opt_prop (Some D) ''autoContinue'')" by (simp add: D_def)
  from final_update_ends_cycle [OF m ev this s] show ?thesis using ev s m unfolding D_def R_def by auto
qed

text \<open>C24. While a cycle is marked running, submitting a message changes
  nothing.\<close>

theorem submit_ignored_while_running:
  assumes "reachable parse c" "running c"
  shows "ctrl_step parse c (Submit m) = Inr c"
  using assms reachable_loading [OF assms(1)] by simp

lemma submit_ignored_while_running_witness:
  "reachable sample_parser sample_session \<and> running sample_session
   \<and> ctrl_step sample_parser sample_session (Submit ''more'') = Inr sample_session"
  using submit_ignored_while_running [of sample_parser sample_session] sample_session_reachable
  by (simp add: sample_session_def)

text \<open>C11. While a cycle is in flight and the user never clicks Stop, no
  event other than its answer changes anything that matters: the cycle stays
  in flight, the running flag and the loading indicator stay on, and no new
  cycle starts.  A backend that never answers blocks the session until Stop.\<close>

theorem unanswered_cycle_blocks:
  assumes "reachable_no_stop parse c" "inflight c \<noteq> []"
    and "list_all no_response_nor_stop es" "ctrl_run parse c es = Inr c'"
  shows "inflight c' = inflight c \<and> running c' \<and> isLoading (st c') \<and> next_cycle c' = next_cycle c"
proof -
  have "single_flight c' \<and> inflight c' = inflight c \<and> running c' \<and> next_cycle c' = next_cycle c"
    if "single_flight c" "inflight c \<noteq> []" "list_all no_response_nor_stop es" "ctrl_run parse c es = Inr c'" for c
    using that
  proof (induction es arbitrary: c)
    case Nil
    then show ?case by (auto simp: single_flight_def)
  next
    case (Cons e es)
    then obtain c1 where s: "ctrl_step parse c e = Inr c1" and r: "ctrl_run parse c1 es = Inr c'"
      by (auto simp: bind_r_eq_Inr)
    from blocked_step [OF Cons.prems(1,2) _ s] Cons.prems(3)
    have "single_flight c1 \<and> inflight c1 = inflight c \<and> running c1 \<and> next_cycle c1 = next_cycle c" by simp
    with Cons.IH [of c1] Cons.prems r show ?case by auto
  qed
  from this [OF reachable_no_stop_single_flight [OF assms(1)] assms(2-4)]
  show ?thesis by (auto simp: single_flight_def)
qed

lemma unanswered_cycle_blocks_witness:
  "reachable_no_stop sample_parser sample_session \<and> inflight sample_session \<noteq> []
   \<and> list_all no_response_nor_stop [Submit ''more'', TimerFires, ChooseProvider OpenRouter]
   \<and> (\<exists>c'. ctrl_run sample_parser sample_session [Submit ''more'', TimerFires, ChooseProvider OpenRouter] = Inr c'
       \<and> inflight c' = inflight sample_session \<and> running c' \<and> isLoading (st c'))"
proof -
  have "\<exists>c'. ctrl_run sample_parser sample_session [Submit ''more'', TimerFires, ChooseProvider OpenRouter] = Inr c'"
    by (simp add: sample_session_def ctrl_simps js_trim_def is_ws_def)
  then obtain c' where run: "ctrl_run sample_parser sample_session [Submit ''more'', TimerFires, ChooseProvider OpenRouter] = Inr c'" ..
  have reach: "reachable_no_stop sample_parser sample_session" using sample_session_reachable by simp
  have ne: "inflight sample_session \<noteq> []" by (simp add: sample_session_def)
  have l: "list_all no_response_nor_stop [Submit ''more'', TimerFires, ChooseProvider OpenRouter]"
    by (simp add: no_response_nor_stop_def)
  show ?thesis using unanswered_cycle_blocks [OF reach ne l run] reach ne l run by blast
qed

end
