(* ===== verification/Backend.thy ===== *)
theory Backend
  imports AgentCycle
begin

text \<open>
  The two model backends of \<open>streamAgentCycle\<close>
  (\<open>src/services/geminiService.ts\<close>, lines 61--145), which fill the buffer the
  cycle then splits.  The network is the input: the Gemini SDK stream is the
  list of its chunks' \<open>text\<close> fields (\<open>undefined\<close> is \<open>None\<close>) with an optional
  exception ending it; the OpenRouter response is the \<open>fetch\<close> outcome, its
  status line, error body, and the list of decoded network chunks of its body
  with an optional read failure.  The reader loop itself is also modelled
  over a body that may never end (\<open>read_loop\<close>, a partial function), and
  shown to agree with the list model on every finite body.  \<open>JSON.parse\<close> is
  the same parameter as in \<open>AgentCycle\<close>: it decodes both the stream
  envelopes and the final payload.
\<close>

subsection \<open>Definitions\<close>

text \<open>\<open>v[0]\<close>.\<close>

fun js_index0 :: "json \<Rightarrow> js_exn + json option" where
  "js_index0 JNull = Inl (TypeError (''Cannot read properties of null (reading '' @ [apos] @ ''0'' @ [apos] @ '')''))"
| "js_index0 (JArr xs) = Inr (case xs of [] \<Rightarrow> None | x # _ \<Rightarrow> Some x)"
| "js_index0 (JObj kvs) = Inr (map_of (rev kvs) ''0'')"
| "js_index0 (JStr s) = Inr (case s of [] \<Rightarrow> None | c # _ \<Rightarrow> Some (JStr [c]))"
| "js_index0 _ = Inr None"

text \<open>\<open>json.choices && json.choices[0].delta.content\<close>, as the value tested.\<close>

definition delta_content :: "json \<Rightarrow> js_exn + json option" where
  "delta_content j =
     bind_r (get_prop j ''choices'') (\<lambda>ch.
       case ch of
         Some v \<Rightarrow> if truthy ch then
                     bind_r (js_index0 v) (\<lambda>c0. bind_r (js_member c0 ''delta'') (\<lambda>dl. js_member dl ''content''))
                   else Inr ch
       | None \<Rightarrow> Inr None)"

definition data_prefix :: string where
  "data_prefix = ''data: ''"

text \<open>One line of a decoded chunk (lines 124--136): a \<open>data: \<close> line that is
  not the end marker and whose envelope parses with a truthy content appends
  that content; every other line, and every exception, leaves the buffer.\<close>

definition sse_line :: "json_parser \<Rightarrow> string \<Rightarrow> string \<Rightarrow> string" where
  "sse_line parse buffer line =
     (if prefix data_prefix line then
        (let data = drop 6 line in
         if js_trim data = ''[DONE]'' then buffer
         else (case bind_r (parse data) delta_content of
                 Inr ct \<Rightarrow> (if truthy ct then buffer @ js_to_string (the ct) else buffer)
               | Inl e \<Rightarrow> buffer))
      else buffer)"

text \<open>The read loop (lines 116--138): each network chunk is decoded and split
  on its own.\<close>

fun openrouter_read :: "json_parser \<Rightarrow> string list \<Rightarrow> string \<Rightarrow> string" where
  "openrouter_read parse [] buffer = buffer"
| "openrouter_read parse (chunk # chunks) buffer =
     openrouter_read parse chunks (foldl (sse_line parse) buffer (js_split nl chunk))"

definition request_error_message :: string where
  "request_error_message = ''Invalid character found in request headers. Please check that your API key contains only standard ASCII characters.''"

text \<open>The \<open>catch\<close> of lines 139--144.\<close>

definition openrouter_remap :: "js_exn \<Rightarrow> js_exn" where
  "openrouter_remap e =
     (case e of
        TypeError m \<Rightarrow> if sublist (''Failed to construct '' @ [apos] @ ''Request'' @ [apos]) m
                       then JsError request_error_message else e
      | _ \<Rightarrow> e)"

datatype or_response =
    OrThrows js_exn
  | OrResponse (ok: bool) (status: nat) (statusText: string) (errorBody: string)
      (body: "string list option") (readFailure: "js_exn option")

definition openrouter_call :: "json_parser \<Rightarrow> or_response \<Rightarrow> js_exn + string" where
  "openrouter_call parse r =
     (case r of
        OrThrows e \<Rightarrow> Inl (openrouter_remap e)
      | OrResponse isOk st stText errBody bdy rfail \<Rightarrow>
          (if \<not> isOk \<or> bdy = None
           then Inl (openrouter_remap (JsError (''OpenRouter API error: '' @ nat_to_dec st @ '' '' @ stText @ '' - '' @ errBody)))
           else (case rfail of
                   Some e \<Rightarrow> Inl (openrouter_remap e)
                 | None \<Rightarrow> Inr (openrouter_read parse (the bdy) []))))"

datatype gemini_response =
    GeminiThrows js_exn
  | GeminiStream "string option list" "js_exn option"

text \<open>\<open>for await (const chunk of stream) buffer += chunk.text\<close>.\<close>

definition gemini_call :: "gemini_response \<Rightarrow> js_exn + string" where
  "gemini_call r =
     (case r of
        GeminiThrows e \<Rightarrow> Inl e
      | GeminiStream texts fail \<Rightarrow>
          (case fail of
             Some e \<Rightarrow> Inl e
           | None \<Rightarrow> Inr (concat (map (\<lambda>t. case t of None \<Rightarrow> ''undefined'' | Some s \<Rightarrow> s) texts))))"

text \<open>A whole cycle over a backend: the transport outcome is the call of the
  selected provider.\<close>

definition run_cycle ::
  "json_parser \<Rightarrow> llm_provider \<Rightarrow> string \<Rightarrow> gemini_response \<Rightarrow> or_response \<Rightarrow> agent_stream_event list" where
  "run_cycle parse provider apiKey gr orr =
     stream_agent_cycle parse provider apiKey
       (case provider of Google \<Rightarrow> gemini_call gr | OpenRouter \<Rightarrow> openrouter_call parse orr)"

text \<open>\<open>history.slice(-6)\<close> and the two renderings of it.\<close>

definition last_six :: "message list \<Rightarrow> message list" where
  "last_six h = drop (length h - 6) h"

definition history_context :: "message list \<Rightarrow> string" where
  "history_context h = js_join nl (map (\<lambda>m. author m @ '': '' @ content m) (last_six h))"

definition openrouter_messages :: "string \<Rightarrow> message list \<Rightarrow> string \<Rightarrow> (string \<times> string) list" where
  "openrouter_messages sys h prompt =
     [(''system'', sys)] @ map (\<lambda>m. (author m, content m)) (last_six h) @ [(''user'', prompt)]"

text \<open>A stream envelope carrying one delta.\<close>

definition envelope :: "string \<Rightarrow> json" where
  "envelope s = JObj [(''choices'', JArr [JObj [(''delta'', JObj [(''content'', JStr s)])]])]"

text \<open>A sample \<open>JSON.parse\<close> for the concrete runs below: it knows two
  envelopes and rejects every other text, as \<open>JSON.parse\<close> rejects a cut one.\<close>

definition sample_stream_parser :: json_parser where
  "sample_stream_parser x =
     (if x = ''{a}'' then Inr (envelope ''Hel'')
      else if x = ''{b}'' then Inr (envelope ''lo'')
      else Inl (SyntaxError ''Unexpected end of JSON input''))"

text \<open>A network chunk holding whole server-sent events, and the condition
  that each event is a data line with a non-empty delta.\<close>

definition sse_chunk :: "(string \<times> string) list \<Rightarrow> string" where
  "sse_chunk items = concat (map (\<lambda>(raw, s). data_prefix @ raw @ [nl, nl]) items)"

definition well_formed_items :: "json_parser \<Rightarrow> (string \<times> string) list \<Rightarrow> bool" where
  "well_formed_items parse items \<longleftrightarrow>
     list_all (\<lambda>(raw, s). parse raw = Inr (envelope s) \<and> s \<noteq> [] \<and> nl \<notin> set raw \<and> js_trim raw \<noteq> ''[DONE]'') items"

text \<open>
  The reader of the response body as the code calls it: the \<open>i\<close>-th
  \<open>reader.read()\<close> resolves to a decoded chunk, to \<open>done\<close> (\<open>None\<close>), or
  rejects.  The \<open>while (true)\<close> loop of lines 118--138 reads until \<open>done\<close>;
  a server that never ends the stream keeps it reading, so the loop is a
  partial function whose \<open>None\<close> is "never returns".
\<close>
type_synonym stream_reader = "nat \<Rightarrow> js_exn + string option"

partial_function (option) read_loop ::
  "json_parser \<Rightarrow> stream_reader \<Rightarrow> nat \<Rightarrow> string \<Rightarrow> (js_exn + string) option" where
  "read_loop parse rd i buffer =
     (case rd i of
        Inl e \<Rightarrow> Some (Inl e)
      | Inr None \<Rightarrow> Some (Inr buffer)
      | Inr (Some chunk) \<Rightarrow> read_loop parse rd (Suc i) (foldl (sse_line parse) buffer (js_split nl chunk)))"

text \<open>A stream of finitely many chunks, then \<open>done\<close> or a read failure;
  and the reads that end the loop.\<close>

definition stream_of :: "string list \<Rightarrow> js_exn option \<Rightarrow> stream_reader" where
  "stream_of cs fin i = (if i < length cs then Inr (Some (cs ! i)) else case fin of None \<Rightarrow> Inr None | Some e \<Rightarrow> Inl e)"

definition stream_ends :: "stream_reader \<Rightarrow> nat \<Rightarrow> bool" where
  "stream_ends rd n \<longleftrightarrow> (case rd n of Inr (Some c) \<Rightarrow> False | _ \<Rightarrow> True)"

subsection \<open>Lemmas\<close>

lemma nl_not_in_data_prefix [simp]: "nl \<notin> set data_prefix"
  by (simp add: data_prefix_def nl_def)

lemma sse_line_data:
  assumes "parse raw = Inr (envelope s)" "s \<noteq> []" "js_trim raw \<noteq> ''[DONE]''"
  shows "sse_line parse buffer (data_prefix @ raw) = buffer @ s"
  using assms by (simp add: sse_line_def data_prefix_def delta_content_def envelope_def Let_def)

lemma sse_line_other: "\<not> prefix data_prefix line \<Longrightarrow> sse_line parse buffer line = buffer"
  by (simp add: sse_line_def)

lemma sse_line_empty [simp]: "sse_line parse buffer [] = buffer"
  by (simp add: sse_line_other data_prefix_def)

lemma sse_chunk_lines:
  "well_formed_items parse items \<Longrightarrow>
   foldl (sse_line parse) buffer (js_split nl (sse_chunk items)) = buffer @ concat (map snd items)"
proof (induction items arbitrary: buffer)
  case Nil
  then show ?case by (simp add: sse_chunk_def)
next
  case (Cons item items)
  obtain raw s where item: "item = (raw, s)" by (cases item)
  with Cons.prems have wf: "parse raw = Inr (envelope s)" "s \<noteq> []" "nl \<notin> set raw" "js_trim raw \<noteq> ''[DONE]''"
    and rest: "well_formed_items parse items"
    by (simp_all add: well_formed_items_def)
  have "js_split nl ((data_prefix @ raw) @ nl # nl # sse_chunk items)
        = (data_prefix @ raw) # js_split nl (nl # sse_chunk items)"
    by (rule js_split_append_sep) (simp add: wf(3))
  then have "js_split nl (sse_chunk (item # items)) = (data_prefix @ raw) # [] # js_split nl (sse_chunk items)"
    by (simp add: sse_chunk_def item)
  then show ?case using Cons.IH [OF rest] sse_line_data [where parse = parse, OF wf(1,2,4)] by (simp add: item)
qed

lemma openrouter_read_groups:
  "list_all (well_formed_items parse) groups \<Longrightarrow>
   openrouter_read parse (map sse_chunk groups) buffer = buffer @ concat (map (\<lambda>g. concat (map snd g)) groups)"
  by (induction groups arbitrary: buffer) (simp_all add: sse_chunk_lines)

lemma openrouter_read_append:
  "openrouter_read parse (xs @ ys) buffer = openrouter_read parse ys (openrouter_read parse xs buffer)"
  by (induction xs arbitrary: buffer) simp_all

lemma done_line_ignored:
  "foldl (sse_line parse) buffer (js_split nl (data_prefix @ ''[DONE]'' @ [nl, nl])) = buffer"
  by (simp add: data_prefix_def sse_line_def js_trim_def is_ws_def nl_def Let_def)

lemma read_loop_stream_of:
  "i \<le> length cs \<Longrightarrow> read_loop parse (stream_of cs fin) i buffer =
     Some (case fin of None \<Rightarrow> Inr (openrouter_read parse (drop i cs) buffer) | Some e \<Rightarrow> Inl e)"
proof (induction "length cs - i" arbitrary: i buffer)
  case 0
  then have "i = length cs" by simp
  then show ?case by (subst read_loop.simps) (simp add: stream_of_def split: option.splits)
next
  case (Suc k)
  then have lt: "i < length cs" and k: "k = length cs - Suc i" by simp_all
  have d: "drop i cs = cs ! i # drop (Suc i) cs" using lt by (simp add: Cons_nth_drop_Suc)
  show ?case
    using Suc.hyps(1) [OF k] lt by (subst read_loop.simps) (simp add: stream_of_def d split: option.splits)
qed

lemma read_loop_returns_ends:
  assumes "read_loop parse rd i buffer = Some r"
  shows "\<exists>n \<ge> i. stream_ends rd n"
proof (rule read_loop.raw_induct [where P = "\<lambda>parse rd i buffer r. \<exists>n \<ge> i. stream_ends rd n", OF _ assms])
  fix f :: "json_parser \<Rightarrow> stream_reader \<Rightarrow> nat \<Rightarrow> string \<Rightarrow> (js_exn + string) option"
    and parse rd i buffer r
  assume IH: "\<And>parse rd i buffer r. f parse rd i buffer = Some r \<Longrightarrow> \<exists>n \<ge> i. stream_ends rd n"
    and eq: "(case rd i of Inl e \<Rightarrow> Some (Inl e) | Inr None \<Rightarrow> Some (Inr buffer)
      | Inr (Some chunk) \<Rightarrow> f parse rd (Suc i) (foldl (sse_line parse) buffer (js_split nl chunk))) = Some r"
  show "\<exists>n \<ge> i. stream_ends rd n"
  proof (cases "stream_ends rd i")
    case False
    then obtain chunk where "rd i = Inr (Some chunk)" by (auto simp: stream_ends_def split: sum.splits option.splits)
    with eq have "f parse rd (Suc i) (foldl (sse_line parse) buffer (js_split nl chunk)) = Some r" by simp
    from IH [OF this] show ?thesis by (meson Suc_leD)
  qed auto
qed

lemma read_loop_ends_returns:
  "i \<le> n \<Longrightarrow> stream_ends rd n \<Longrightarrow> \<exists>r. read_loop parse rd i buffer = Some r"
proof (induction "n - i" arbitrary: i buffer)
  case 0
  then have "i = n" by simp
  with 0 show ?case by (subst read_loop.simps) (auto simp: stream_ends_def split: sum.splits option.splits)
next
  case (Suc k)
  show ?case
  proof (cases "stream_ends rd i")
    case False
    then obtain chunk where c: "rd i = Inr (Some chunk)" by (auto simp: stream_ends_def split: sum.splits option.splits)
    from Suc have "k = n - Suc i" "Suc i \<le> n" by simp_all
    from Suc.hyps(1) [OF this(1) this(2) Suc.prems(2)] c show ?thesis by (subst read_loop.simps) simp
  qed (subst read_loop.simps, auto simp: stream_ends_def split: sum.splits option.splits)
qed

subsection \<open>Properties of the backends\<close>

text \<open>C28. When every network chunk of an OpenRouter stream holds whole
  server-sent events, each a data line whose envelope carries a non-empty
  delta content, followed by the end marker, the buffer is the concatenation
  of the contents in order.\<close>

theorem openrouter_decodes_whole_lines:
  assumes "list_all (well_formed_items parse) groups"
  shows "openrouter_call parse
           (OrResponse True st stText errBody (Some (map sse_chunk groups @ [data_prefix @ ''[DONE]'' @ [nl, nl]])) None)
         = Inr (concat (map (\<lambda>g. concat (map snd g)) groups))"
  using openrouter_read_groups [OF assms, of "[]"]
    done_line_ignored [of parse "concat (map (\<lambda>g. concat (map snd g)) groups)"]
  by (simp add: openrouter_call_def openrouter_read_append)


theorem openrouter_decodes_whole_lines_witness:
  "list_all (well_formed_items sample_stream_parser) [[(''{a}'', ''Hel'')], [(''{b}'', ''lo'')]]
   \<and> openrouter_call sample_stream_parser
       (OrResponse True 200 ''OK'' [] (Some (map sse_chunk [[(''{a}'', ''Hel'')], [(''{b}'', ''lo'')]]
          @ [data_prefix @ ''[DONE]'' @ [nl, nl]])) None) = Inr ''Hello''"
proof -
  have h: "list_all (well_formed_items sample_stream_parser) [[(''{a}'', ''Hel'')], [(''{b}'', ''lo'')]]"
    by (simp add: well_formed_items_def sample_stream_parser_def js_trim_def is_ws_def nl_def)
  show ?thesis using openrouter_decodes_whole_lines [OF h, of 200 "''OK''" "[]"] h by simp
qed

text \<open>C27. A data line cut by a network chunk boundary is lost: each half is
  split and parsed on its own, so the first half fails to parse and the
  second does not start with the data marker, while the same bytes in one
  chunk deliver the content.\<close>

theorem openrouter_split_line_lost:
  assumes "parse r1 = Inl e" "parse (r1 @ r2) = Inr (envelope s)" "s \<noteq> []"
    "nl \<notin> set (r1 @ r2)" "\<not> prefix data_prefix r2"
    "js_trim (r1 @ r2) \<noteq> ''[DONE]''" "js_trim r1 \<noteq> ''[DONE]''"
  shows "openrouter_read parse [data_prefix @ r1 @ r2 @ [nl, nl]] [] = s
    \<and> openrouter_read parse [data_prefix @ r1, r2 @ [nl, nl]] [] = []"
proof
  have "well_formed_items parse [(r1 @ r2, s)]" using assms by (simp add: well_formed_items_def)
  from sse_chunk_lines [OF this, of "[]"]
  show "openrouter_read parse [data_prefix @ r1 @ r2 @ [nl, nl]] [] = s" by (simp add: sse_chunk_def)
next
  have nl1: "nl \<notin> set (data_prefix @ r1)" and nl2: "nl \<notin> set r2" using assms(4) by simp_all
  have l1: "sse_line parse [] (data_prefix @ r1) = []"
    using assms(1,7) by (simp add: sse_line_def data_prefix_def Let_def)
  have "js_split nl (r2 @ nl # [nl]) = r2 # js_split nl [nl]" using nl2 by (rule js_split_append_sep)
  then have "foldl (sse_line parse) [] (js_split nl (r2 @ [nl, nl])) = []"
    using assms(5) by (simp add: sse_line_other)
  then show "openrouter_read parse [data_prefix @ r1, r2 @ [nl, nl]] [] = []"
    using l1 js_split_no_sep [OF nl1] by simp
qed


theorem openrouter_split_line_lost_witness:
  "openrouter_read sample_stream_parser [data_prefix @ ''{a'' @ ''}'' @ [nl, nl]] [] = ''Hel''
   \<and> openrouter_read sample_stream_parser [data_prefix @ ''{a'', ''}'' @ [nl, nl]] [] = []"
  by (rule openrouter_split_line_lost)
     (simp_all add: sample_stream_parser_def nl_def data_prefix_def js_trim_def is_ws_def)

text \<open>A request the browser refuses to construct (a key with non-ASCII
  characters) is reported as one error event with the explicit invalid-key
  message.\<close>

theorem request_error_remapped:
  assumes "apiKey \<noteq> []" "sublist (''Failed to construct '' @ [apos] @ ''Request'' @ [apos]) m"
  shows "run_cycle parse OpenRouter apiKey gr (OrThrows (TypeError m)) =
    [EventError (''Error calling API: '' @ request_error_message)]"
  using assms by (simp add: run_cycle_def stream_agent_cycle_def openrouter_call_def openrouter_remap_def)


theorem request_error_remapped_witness:
  "run_cycle sample_stream_parser OpenRouter ''k'' (GeminiThrows (JsError ''unused''))
     (OrThrows (TypeError (''Failed to construct '' @ [apos] @ ''Request'' @ [apos] @ '': Invalid name''))) =
   [EventError (''Error calling API: '' @ request_error_message)]"
  by (rule request_error_remapped) (simp_all add: sublist_code apos_def)

text \<open>An OpenRouter response that is not ok (or has no body) is reported
  as one error event with the status, the status text and the error body.\<close>

theorem http_error_reported:
  assumes "apiKey \<noteq> []" "\<not> isOk \<or> bdy = None"
  shows "run_cycle parse OpenRouter apiKey gr (OrResponse isOk st stText errBody bdy rfail) =
    [EventError (''Error calling API: OpenRouter API error: '' @ nat_to_dec st @ '' '' @ stText @ '' - '' @ errBody)]"
  using assms by (auto simp: run_cycle_def stream_agent_cycle_def openrouter_call_def openrouter_remap_def)


theorem http_error_reported_witness:
  "run_cycle sample_stream_parser OpenRouter ''k'' (GeminiThrows (JsError ''unused''))
     (OrResponse False 401 ''Unauthorized'' ''No auth credentials found'' None None) =
   [EventError ''Error calling API: OpenRouter API error: 401 Unauthorized - No auth credentials found'']"
  using http_error_reported [of "''k''" False None sample_stream_parser "GeminiThrows (JsError ''unused'')"
      401 "''Unauthorized''" "''No auth credentials found''" None]
  by (simp add: digits_def)

text \<open>C29. A Gemini stream whose last chunk has no text appends the string
  undefined to the buffer, so the JSON text handed to JSON.parse ends in
  undefined.\<close>

theorem gemini_undefined_text:
  assumes "apiKey \<noteq> []" "\<not> sublist JSON_RESPONSE_SEPARATOR (chat @ butlast JSON_RESPONSE_SEPARATOR)"
  shows "run_cycle parse Google apiKey (GeminiStream [Some (chat @ JSON_RESPONSE_SEPARATOR @ rest), None] None) orr =
     Chunk chat # (case bind_r (parse (strip_fence (js_trim (rest @ ''undefined'')))) validate_payload of
                     Inr d \<Rightarrow> [Update d]
                   | Inl e \<Rightarrow> [EventError (parse_failure_message (strip_fence (js_trim (rest @ ''undefined''))) e)])"
  using assms process_buffer_at [OF assms(2), of parse "rest @ ''undefined''"]
  by (simp add: run_cycle_def stream_agent_cycle_def gemini_call_def)


theorem gemini_undefined_text_witness:
  "run_cycle sample_stream_parser Google ''k''
     (GeminiStream [Some (''Hi'' @ JSON_RESPONSE_SEPARATOR @ ''{a}''), None] None) (OrThrows (JsError ''unused'')) =
   [Chunk ''Hi'', EventError (parse_failure_message ''{a}undefined'' (SyntaxError ''Unexpected end of JSON input''))]"
proof -
  have "\<not> sublist JSON_RESPONSE_SEPARATOR (''Hi'' @ butlast JSON_RESPONSE_SEPARATOR)"
    by (simp add: JSON_RESPONSE_SEPARATOR_def sublist_code)
  from gemini_undefined_text [OF _ this, of "''k''" sample_stream_parser "''{a}''" "OrThrows (JsError ''unused'')"]
  show ?thesis
    by (simp add: sample_stream_parser_def strip_fence_def fence_match_def fence_def js_trim_def is_ws_def)
qed

text \<open>The OpenRouter request carries the system instruction, at most the
  six most recent history messages in order, and the prompt.\<close>

theorem request_history_last_six:
  "openrouter_messages sys h prompt =
     [(''system'', sys)] @ map (\<lambda>m. (author m, content m)) (last_six h) @ [(''user'', prompt)]
   \<and> suffix (last_six h) h \<and> length (last_six h) = min 6 (length h)"
  by (simp add: openrouter_messages_def last_six_def suffix_drop)

text \<open>C30. The OpenRouter request is bounded: it holds the system instruction,
  the prompt and at most six messages of the history, and those are the
  most recent ones, in order.\<close>

theorem request_size_bounded:
  "length (openrouter_messages sys h prompt) = min 6 (length h) + 2
   \<and> length (openrouter_messages sys h prompt) \<le> 8
   \<and> suffix (butlast (tl (openrouter_messages sys h prompt))) (map (\<lambda>m. (author m, content m)) h)"
  using request_history_last_six [of sys h prompt] by (auto simp: map_mono_suffix)

text \<open>C12. The read loop of the OpenRouter branch returns exactly when some
  read at or after the current one ends the stream (done or a rejected read).\<close>

theorem read_loop_returns_iff:
  "(\<exists>r. read_loop parse rd i buffer = Some r) \<longleftrightarrow> (\<exists>n \<ge> i. stream_ends rd n)"
  using read_loop_returns_ends read_loop_ends_returns by blast

theorem read_loop_returns_iff_witness:
  "\<exists>r. read_loop sample_stream_parser (stream_of [sse_chunk [(''{a}'', ''Hel'')]] None) 0 [] = Some r"
proof -
  have "stream_ends (stream_of [sse_chunk [(''{a}'', ''Hel'')]] None) 1"
    by (simp add: stream_ends_def stream_of_def)
  then show ?thesis
    using read_loop_returns_iff [of sample_stream_parser "stream_of [sse_chunk [(''{a}'', ''Hel'')]] None" 0 "[]"]
    by auto
qed

text \<open>On a stream of finitely many chunks the read loop computes what
  the list model of the OpenRouter branch computes: the chunks decoded one by
  one, or the read failure.\<close>

theorem read_loop_refines_read:
  "read_loop parse (stream_of cs fin) 0 buffer =
     Some (case fin of None \<Rightarrow> Inr (openrouter_read parse cs buffer) | Some e \<Rightarrow> Inl e)"
  using read_loop_stream_of [of 0 cs parse fin buffer] by (simp split: option.splits)

text \<open>A response body that never ends (a server sending only keep-alive
  comment lines) keeps the read loop reading forever: the cycle never
  returns, and no timeout ends it.\<close>

theorem read_loop_stalls:
  assumes "\<forall>n \<ge> i. \<not> stream_ends rd n"
  shows "read_loop parse rd i buffer = None"
  using assms read_loop_returns_ends by fastforce

theorem read_loop_stalls_witness:
  "(\<forall>n. \<not> stream_ends (\<lambda>n. Inr (Some '': OPENROUTER PROCESSING'')) n)
   \<and> read_loop sample_stream_parser (\<lambda>n. Inr (Some '': OPENROUTER PROCESSING'')) 0 [] = None"
proof -
  have h: "\<forall>n \<ge> 0. \<not> stream_ends (\<lambda>n. Inr (Some '': OPENROUTER PROCESSING'')) n"
    by (simp add: stream_ends_def)
  show ?thesis using read_loop_stalls [OF h] h by simp
qed

end
