(* ===== verification/Panels.thy ===== *)
theory Panels
  imports Reducer
begin

text \<open>
  The two panels that render the agent schema (\<open>src/components/AgentConfigPanel.tsx\<close>
  and \<open>src/components/ReasoningPanel.tsx\<close>).  The schema is whatever JSON
  value the last update carried, so each panel is modelled by the property
  reads, calls and template literals it evaluates, in the order the render
  evaluates them, and by the text it shows: the result is either the first
  exception (the render crashes) or the list of text nodes the data
  contributes.  React's rule for a value rendered as a child is written out:
  \<open>null\<close>, \<open>undefined\<close> and booleans render nothing, an array renders its
  elements, and a plain object throws.  Non-ASCII characters of the sources
  are written as their UTF-8 bytes, as elsewhere in the development.
\<close>

subsection \<open>JavaScript and React primitives\<close>

text \<open>A template literal's \<open>${v}\<close>.\<close>

fun tmpl :: "json option \<Rightarrow> string" where
  "tmpl None = ''undefined''"
| "tmpl (Some v) = js_to_string v"

text \<open>A value rendered as a React child.\<close>

fun react_text :: "json option \<Rightarrow> js_exn + string" where
  "react_text None = Inr []"
| "react_text (Some JNull) = Inr []"
| "react_text (Some (JBool b)) = Inr []"
| "react_text (Some (JNum n)) = Inr (int_to_dec n)"
| "react_text (Some (JStr s)) = Inr s"
| "react_text (Some (JArr xs)) = bind_r (map_r (\<lambda>x. react_text (Some x)) xs) (\<lambda>ts. Inr (concat ts))"
| "react_text (Some (JObj kvs)) = Inl (JsError ''Objects are not valid as a React child'')"

text \<open>\<open>v.m(...)\<close> for an array method \<open>m\<close>: only arrays have it.\<close>

fun js_array :: "string \<Rightarrow> json option \<Rightarrow> js_exn + json list" where
  "js_array m None = Inl (TypeError (''Cannot read properties of undefined (reading '' @ [apos] @ m @ [apos] @ '')''))"
| "js_array m (Some JNull) = Inl (TypeError (''Cannot read properties of null (reading '' @ [apos] @ m @ [apos] @ '')''))"
| "js_array m (Some (JArr xs)) = Inr xs"
| "js_array m (Some v) = Inl (TypeError (m @ '' is not a function''))"

text \<open>\<open>v.join(sep)\<close>: \<open>null\<close> elements become empty.\<close>

definition js_call_join :: "string \<Rightarrow> json option \<Rightarrow> js_exn + string" where
  "js_call_join sep v =
     bind_r (js_array ''join'' v) (\<lambda>xs. Inr (join_with sep (map (\<lambda>x. if x = JNull then [] else js_to_string x) xs)))"

text \<open>\<open>v.length > 0\<close> on a truthy value.\<close>

fun js_length_pos :: "json \<Rightarrow> bool" where
  "js_length_pos (JArr xs) = (xs \<noteq> [])"
| "js_length_pos (JStr s) = (s \<noteq> [])"
| "js_length_pos _ = False"

text \<open>\<open>v.length === 0\<close> on a truthy value.\<close>

fun js_length_zero :: "json \<Rightarrow> bool" where
  "js_length_zero (JArr xs) = (xs = [])"
| "js_length_zero (JStr s) = (s = [])"
| "js_length_zero _ = False"

subsection \<open>AgentConfigPanel\<close>

text \<open>\<open>ConfigItem\<close>: \<open>{children || 'N/A'}\<close>.\<close>

definition config_item :: "json option \<Rightarrow> js_exn + string" where
  "config_item v = (if truthy v then react_text v else Inr ''N/A'')"

definition arrow :: string where
  "arrow = [CHR 0xE2, CHR 0x86, CHR 0x92]"

text \<open>\<open>`[${t.from} \<rightarrow> ${t.to}] if (${t.trigger})`\<close>.\<close>

definition transition_text :: "json \<Rightarrow> js_exn + string" where
  "transition_text t =
     bind_r (js_member (Some t) ''from'') (\<lambda>f.
     bind_r (js_member (Some t) ''to'') (\<lambda>to.
     bind_r (js_member (Some t) ''trigger'') (\<lambda>tr.
       Inr (''['' @ tmpl f @ '' '' @ arrow @ '' '' @ tmpl to @ ''] if ('' @ tmpl tr @ '')''))))"

text \<open>\<open>(v || []).join(sep)\<close> and \<open>(v || []).map(f).join(sep)\<close>.\<close>

definition join_or_empty :: "string \<Rightarrow> json option \<Rightarrow> js_exn + string" where
  "join_or_empty sep v = (if truthy v then js_call_join sep v else Inr [])"

definition transitions_text :: "json option \<Rightarrow> js_exn + string" where
  "transitions_text v =
     (if truthy v then bind_r (js_array ''map'' v) (\<lambda>ts. bind_r (map_r transition_text ts) (\<lambda>ls. Inr (join_with [nl] ls)))
      else Inr [])"

text \<open>The panel: the mode, the available modes, the three working-memory
  fields and the transitions, each in its \<open>ConfigItem\<close>.  The child
  expressions are evaluated by the panel's render, the \<open>ConfigItem\<close>s
  render afterwards.\<close>

definition agent_config_panel :: "json option \<Rightarrow> js_exn + string list" where
  "agent_config_panel schema =
     bind_r (js_member schema ''mode'') (\<lambda>mode.
     bind_r (bind_r (js_member schema ''available_modes'') (join_or_empty '', '')) (\<lambda>modes.
     bind_r (js_member schema ''wm'') (\<lambda>wm.
     bind_r (js_member wm ''g'') (\<lambda>g.
     bind_r (js_member schema ''wm'') (\<lambda>wm2.
     bind_r (js_member wm2 ''sg'') (\<lambda>sg.
     bind_r (js_member schema ''wm'') (\<lambda>wm3.
     bind_r (js_member wm3 ''ctx'') (\<lambda>ctx.
     bind_r (bind_r (js_member schema ''mode_transitions'') transitions_text) (\<lambda>trans.
     bind_r (react_text mode) (\<lambda>modeT.
     bind_r (config_item (Some (JStr modes))) (\<lambda>modesT.
     bind_r (config_item g) (\<lambda>gT.
     bind_r (config_item sg) (\<lambda>sgT.
     bind_r (config_item ctx) (\<lambda>ctxT.
     bind_r (config_item (Some (JStr trans))) (\<lambda>transT.
       Inr [modeT, modesT, gT, sgT, ctxT, transT])))))))))))))))"

subsection \<open>ReasoningPanel\<close>

text \<open>The parent's map callbacks: a triple is destructured, a step's status
  and text are read.\<close>

definition destructure :: "json \<Rightarrow> string \<Rightarrow> js_exn + json option" where
  "destructure v k =
     (if v = JNull then Inl (TypeError (''Cannot destructure property '' @ [apos] @ k @ [apos] @ '' of '' @ [apos] @ ''object null'' @ [apos] @ '' as it is null.''))
      else Inr (opt_prop (Some v) k))"

definition triple_fields :: "json \<Rightarrow> js_exn + json option list" where
  "triple_fields t =
     bind_r (destructure t ''sub'') (\<lambda>s. bind_r (destructure t ''pred'') (\<lambda>p.
       bind_r (destructure t ''obj'') (\<lambda>ob. Inr [s, p, ob])))"

definition check_mark :: string where
  "check_mark = [CHR 0xE2, CHR 0x9C, CHR 0x85]"

definition hourglass :: string where
  "hourglass = [CHR 0xE2, CHR 0x8F, CHR 0xB3]"

definition step_fields :: "json \<Rightarrow> js_exn + string \<times> json option" where
  "step_fields s =
     bind_r (js_member (Some s) ''status'') (\<lambda>st. bind_r (js_member (Some s) ''step'') (\<lambda>txt.
       Inr (if st = Some (JStr ''completed'') then check_mark else hourglass, txt)))"

text \<open>The working-memory block, one template literal.\<close>

definition wm_text :: "json option \<Rightarrow> js_exn + string" where
  "wm_text wm =
     bind_r (js_member wm ''g'') (\<lambda>g.
     bind_r (js_member wm ''sg'') (\<lambda>sg.
     bind_r (bind_r (js_member wm ''pr'') (\<lambda>pr. js_member pr ''completed'')) (\<lambda>comp.
     bind_r (js_call_join '', '' comp) (\<lambda>compS.
     bind_r (bind_r (js_member wm ''pr'') (\<lambda>pr. js_member pr ''current'')) (\<lambda>cur.
     bind_r (js_call_join '', '' cur) (\<lambda>curS.
     bind_r (js_member wm ''ctx'') (\<lambda>ctx.
       Inr (''Goal       : '' @ tmpl g @ [nl] @ ''Subgoal    : '' @ tmpl sg @ [nl]
            @ ''Completed  : '' @ (if compS = [] then ''None'' else compS) @ [nl]
            @ ''Current    : '' @ (if curS = [] then ''None'' else curS) @ [nl]
            @ ''Context    : '' @ tmpl ctx))))))))"

text \<open>\<open>x && x.length > 0 ? x.map(f) : fallback\<close>.\<close>

definition nonempty_map :: "(json \<Rightarrow> js_exn + 'a) \<Rightarrow> json option \<Rightarrow> js_exn + 'a list option" where
  "nonempty_map f v =
     (if truthy v \<and> js_length_pos (the v) then bind_r (js_array ''map'' v) (\<lambda>xs. bind_r (map_r f xs) (\<lambda>ys. Inr (Some ys)))
      else Inr None)"

definition no_triples_text :: string where
  "no_triples_text = ''Vide.''"

definition no_steps_text :: string where
  "no_steps_text = ''Pas encore d'' @ [apos, CHR 0xC3, CHR 0xA9] @ ''tapes.''"

text \<open>\<open>LogicList\<close>, rendered after the parent: nothing for a falsy or empty
  list; otherwise the title and, per item, the string itself or
  \<open>symb: nl\<close>.\<close>

definition logic_item :: "json \<Rightarrow> js_exn + string" where
  "logic_item it =
     (case it of
        JStr s \<Rightarrow> Inr s
      | _ \<Rightarrow> bind_r (js_member (Some it) ''symb'') (\<lambda>sy. bind_r (js_member (Some it) ''nl'') (\<lambda>n.
              bind_r (react_text sy) (\<lambda>syT. bind_r (react_text n) (\<lambda>nT. Inr (syT @ '': '' @ nT))))))"

definition logic_list :: "string \<Rightarrow> json option \<Rightarrow> js_exn + string list" where
  "logic_list title items =
     (if \<not> truthy items \<or> js_length_zero (the items) then Inr []
      else bind_r (js_array ''map'' items) (\<lambda>xs. bind_r (map_r logic_item xs) (\<lambda>ts. Inr (title # ts))))"

definition render_all :: "json option list \<Rightarrow> js_exn + string list" where
  "render_all vs = map_r react_text vs"

text \<open>The panel: \<open>const { exp, se, wm, kg, logic, chain } = reasoning\<close>, the
  parent's expressions in order, then the children in document order.\<close>

definition reasoning_panel :: "json option \<Rightarrow> js_exn + string list" where
  "reasoning_panel r =
     (case r of
        None \<Rightarrow> Inl (TypeError (''Cannot destructure property '' @ [apos] @ ''exp'' @ [apos] @ '' of '' @ [apos] @ ''reasoning'' @ [apos] @ '' as it is undefined.''))
      | Some v \<Rightarrow>
        bind_r (destructure v ''exp'') (\<lambda>exp.
        let se = opt_prop (Some v) ''se''; wm = opt_prop (Some v) ''wm'';
            kg = opt_prop (Some v) ''kg''; logic = opt_prop (Some v) ''logic'';
            chain = opt_prop (Some v) ''chain'' in
        bind_r (js_array ''map'' exp) (\<lambda>exps.
        bind_r (js_array ''map'' se) (\<lambda>ses.
        bind_r (js_member logic ''propos'') (\<lambda>l1.
        bind_r (js_member logic ''proofs'') (\<lambda>l2.
        bind_r (js_member logic ''crits'') (\<lambda>l3.
        bind_r (js_member logic ''doubts'') (\<lambda>l4.
        bind_r (wm_text wm) (\<lambda>wmT.
        bind_r (bind_r (js_member kg ''tri'') (nonempty_map triple_fields)) (\<lambda>tris.
        bind_r (bind_r (js_member chain ''steps'') (nonempty_map step_fields)) (\<lambda>steps.
        bind_r (js_member chain ''reflect'') (\<lambda>refl.
        bind_r (render_all (map Some exps)) (\<lambda>expT.
        bind_r (render_all (map Some ses)) (\<lambda>seT.
        bind_r (logic_list ''Propositions'' l1) (\<lambda>t1.
        bind_r (logic_list ''Preuves'' l2) (\<lambda>t2.
        bind_r (logic_list ''Critiques'' l3) (\<lambda>t3.
        bind_r (logic_list ''Doutes'' l4) (\<lambda>t4.
        bind_r (case tris of None \<Rightarrow> Inr [no_triples_text] | Some ts \<Rightarrow> render_all (concat ts)) (\<lambda>kgT.
        bind_r (case steps of None \<Rightarrow> Inr [no_steps_text]
                | Some ss \<Rightarrow> map_r (\<lambda>(mark, txt). bind_r (react_text txt) (\<lambda>t. Inr (mark @ '' '' @ t))) ss) (\<lambda>chT.
        bind_r (react_text refl) (\<lambda>reflT.
          Inr (expT @ seT @ t1 @ t2 @ t3 @ t4 @ [wmT] @ kgT @ chT @ [reflT]))))))))))))))))))))))"

subsection \<open>The declared type of the schema\<close>

text \<open>\<open>AgentSchema\<close> of \<open>src/types.ts\<close> as a predicate on JSON values: an
  object with the declared fields at the declared types (further fields are
  allowed, as in TypeScript).\<close>

fun is_obj :: "json \<Rightarrow> bool" where
  "is_obj (JObj kvs) = True"
| "is_obj _ = False"

fun is_jstr :: "json \<Rightarrow> bool" where
  "is_jstr (JStr s) = True"
| "is_jstr _ = False"

definition str_field :: "json \<Rightarrow> string \<Rightarrow> bool" where
  "str_field v k = (case opt_prop (Some v) k of Some (JStr s) \<Rightarrow> True | _ \<Rightarrow> False)"

definition arr_field :: "(json \<Rightarrow> bool) \<Rightarrow> json \<Rightarrow> string \<Rightarrow> bool" where
  "arr_field P v k = (case opt_prop (Some v) k of Some (JArr xs) \<Rightarrow> list_all P xs | _ \<Rightarrow> False)"

definition obj_field :: "(json \<Rightarrow> bool) \<Rightarrow> json \<Rightarrow> string \<Rightarrow> bool" where
  "obj_field P v k = (case opt_prop (Some v) k of Some (JObj kvs) \<Rightarrow> P (JObj kvs) | _ \<Rightarrow> False)"

definition transition_typed :: "json \<Rightarrow> bool" where
  "transition_typed t \<longleftrightarrow> is_obj t \<and> str_field t ''from'' \<and> str_field t ''to'' \<and> str_field t ''trigger''"

definition step_typed :: "json \<Rightarrow> bool" where
  "step_typed st \<longleftrightarrow> is_obj st \<and> str_field st ''step''
     \<and> (case opt_prop (Some st) ''status'' of Some (JStr x) \<Rightarrow> x \<in> set [''pending'', ''completed'', ''failed''] | _ \<Rightarrow> False)"

definition triple_typed :: "json \<Rightarrow> bool" where
  "triple_typed t \<longleftrightarrow> is_obj t \<and> str_field t ''sub'' \<and> str_field t ''pred'' \<and> str_field t ''obj''"

definition logic_item_typed :: "json \<Rightarrow> bool" where
  "logic_item_typed it \<longleftrightarrow> is_obj it \<and> str_field it ''symb'' \<and> str_field it ''nl''"

definition wm_typed :: "json \<Rightarrow> bool" where
  "wm_typed w \<longleftrightarrow> str_field w ''g'' \<and> str_field w ''sg'' \<and> str_field w ''ctx''
     \<and> obj_field (\<lambda>p. arr_field is_jstr p ''completed'' \<and> arr_field is_jstr p ''current'') w ''pr''"

definition chain_typed :: "json \<Rightarrow> bool" where
  "chain_typed c \<longleftrightarrow> arr_field step_typed c ''steps'' \<and> str_field c ''reflect''
     \<and> arr_field is_jstr c ''note'' \<and> arr_field is_jstr c ''warn'' \<and> arr_field is_jstr c ''err''"

definition logic_typed :: "json \<Rightarrow> bool" where
  "logic_typed l \<longleftrightarrow> list_all (arr_field logic_item_typed l) [''propos'', ''proofs'', ''crits'', ''doubts'']"

definition agent_schema_typed :: "json \<Rightarrow> bool" where
  "agent_schema_typed v \<longleftrightarrow> is_obj v \<and> str_field v ''mode'' \<and> arr_field is_jstr v ''available_modes''
     \<and> arr_field transition_typed v ''mode_transitions'' \<and> obj_field wm_typed v ''wm''
     \<and> obj_field chain_typed v ''chain'' \<and> obj_field (\<lambda>k. arr_field triple_typed k ''tri'') v ''kg''
     \<and> obj_field logic_typed v ''logic'' \<and> arr_field is_jstr v ''exp'' \<and> arr_field is_jstr v ''se''"

text \<open>The declared types \<open>FileUpdate\<close> and \<open>AgentUpdatePayload\<close>: the
  file update is an object with string fields or \<open>null\<close>, the flag a
  boolean.\<close>

definition file_update_typed :: "json \<Rightarrow> bool" where
  "file_update_typed v \<longleftrightarrow> is_obj v \<and> str_field v ''fileName'' \<and> str_field v ''content''"

definition update_payload_typed :: "json \<Rightarrow> bool" where
  "update_payload_typed v \<longleftrightarrow> is_obj v \<and> obj_field agent_schema_typed v ''updatedSchema''
     \<and> (case opt_prop (Some v) ''fileUpdate'' of Some JNull \<Rightarrow> True | Some u \<Rightarrow> file_update_typed u | None \<Rightarrow> False)
     \<and> (case opt_prop (Some v) ''autoContinue'' of Some (JBool b) \<Rightarrow> True | _ \<Rightarrow> False)"

definition is_str_opt :: "json option \<Rightarrow> bool" where
  "is_str_opt v \<longleftrightarrow> (case v of Some (JStr s) \<Rightarrow> True | _ \<Rightarrow> False)"

subsection \<open>Lemmas\<close>

lemma str_fieldE: "str_field v k \<Longrightarrow> \<exists>s. opt_prop (Some v) k = Some (JStr s)"
  by (auto simp: str_field_def split: option.splits json.splits)

lemma arr_fieldE: "arr_field P v k \<Longrightarrow> \<exists>xs. opt_prop (Some v) k = Some (JArr xs) \<and> list_all P xs"
  by (auto simp: arr_field_def split: option.splits json.splits)

lemma obj_fieldE: "obj_field P v k \<Longrightarrow> \<exists>kvs. opt_prop (Some v) k = Some (JObj kvs) \<and> P (JObj kvs)"
  by (auto simp: obj_field_def split: option.splits json.splits)

lemma map_r_list_all:
  "list_all P xs \<Longrightarrow> (\<And>x. P x \<Longrightarrow> \<exists>y. f x = Inr y \<and> Q y) \<Longrightarrow> \<exists>ys. map_r f xs = Inr ys \<and> list_all Q ys"
proof (induction xs)
  case (Cons x xs)
  from Cons.prems(1) have px: "P x" and pxs: "list_all P xs" by simp_all
  obtain y where "f x = Inr y" "Q y" using Cons.prems(2) [OF px] by blast
  moreover obtain ys where "map_r f xs = Inr ys" "list_all Q ys" using Cons.IH [OF pxs] Cons.prems(2) by blast
  ultimately show ?case by simp
qed simp

lemma react_text_str: "is_jstr x \<Longrightarrow> react_text (Some x) = Inr (js_to_string x)"
  by (cases x) simp_all

lemma render_strings: "list_all is_jstr xs \<Longrightarrow> \<exists>ts. render_all (map Some xs) = Inr ts"
  unfolding render_all_def by (induction xs) (auto simp: react_text_str)

lemma field_str:
  "str_field v k \<Longrightarrow> \<exists>s. js_member (Some v) k = Inr (Some (JStr s)) \<and> react_text (Some (JStr s)) = Inr s"
  using str_fieldE [of v k] by (cases "v = JNull") (auto simp: str_field_def)

lemma is_objE: "is_obj v \<Longrightarrow> \<exists>kvs. v = JObj kvs"
  by (cases v) simp_all

lemma update_payload_typedD:
  assumes "update_payload_typed v"
  shows "\<exists>kvs us. v = JObj kvs \<and> map_of (rev kvs) ''updatedSchema'' = Some us \<and> agent_schema_typed us
     \<and> (\<exists>b. map_of (rev kvs) ''autoContinue'' = Some (JBool b))
     \<and> (map_of (rev kvs) ''fileUpdate'' = Some JNull
        \<or> (\<exists>p c. opt_prop (map_of (rev kvs) ''fileUpdate'') ''fileName'' = Some (JStr p)
                \<and> opt_prop (map_of (rev kvs) ''fileUpdate'') ''content'' = Some (JStr c)))"
  using assms
  by (auto simp: update_payload_typed_def file_update_typed_def obj_field_def str_field_def
      dest!: is_objE split: option.splits json.splits)

lemma initial_schema_typed: "agent_schema_typed INITIAL_AGENT_SCHEMA"
  by (simp add: INITIAL_AGENT_SCHEMA_def agent_schema_typed_def str_field_def arr_field_def obj_field_def
     transition_typed_def wm_typed_def chain_typed_def logic_typed_def)

lemma transition_text_typed:
  assumes "transition_typed t"
  shows "\<exists>y. transition_text t = Inr y"
proof -
  obtain kvs where t: "t = JObj kvs" using assms is_objE unfolding transition_typed_def by blast
  obtain a b c where "opt_prop (Some t) ''from'' = Some (JStr a)" "opt_prop (Some t) ''to'' = Some (JStr b)"
      "opt_prop (Some t) ''trigger'' = Some (JStr c)"
    using assms str_fieldE unfolding transition_typed_def by metis
  then show ?thesis by (simp add: transition_text_def t)
qed

lemma logic_item_typed_Inr:
  assumes "logic_item_typed it"
  shows "\<exists>y. logic_item it = Inr y"
proof -
  obtain kvs where t: "it = JObj kvs" using assms is_objE unfolding logic_item_typed_def by blast
  obtain a b where "opt_prop (Some it) ''symb'' = Some (JStr a)" "opt_prop (Some it) ''nl'' = Some (JStr b)"
    using assms str_fieldE unfolding logic_item_typed_def by metis
  then show ?thesis by (simp add: logic_item_def t)
qed

lemma logic_list_typed:
  assumes "list_all logic_item_typed xs"
  shows "\<exists>t. logic_list title (Some (JArr xs)) = Inr t"
proof -
  obtain ys where "map_r logic_item xs = Inr ys"
    using map_r_list_all [OF assms, of logic_item "\<lambda>y. True"] logic_item_typed_Inr by blast
  then show ?thesis by (simp add: logic_list_def)
qed

lemma wm_text_typed:
  assumes "wm_typed w" "is_obj w"
  shows "\<exists>t. wm_text (Some w) = Inr t"
proof -
  have h: "str_field w ''g''" "str_field w ''sg''" "str_field w ''ctx''"
      "obj_field (\<lambda>p. arr_field is_jstr p ''completed'' \<and> arr_field is_jstr p ''current'') w ''pr''"
    using assms(1) by (simp_all add: wm_typed_def)
  obtain g where g: "opt_prop (Some w) ''g'' = Some (JStr g)" using str_fieldE [OF h(1)] by blast
  obtain sg where sg: "opt_prop (Some w) ''sg'' = Some (JStr sg)" using str_fieldE [OF h(2)] by blast
  obtain ctx where ctx: "opt_prop (Some w) ''ctx'' = Some (JStr ctx)" using str_fieldE [OF h(3)] by blast
  obtain p where p: "opt_prop (Some w) ''pr'' = Some (JObj p)"
    and pt: "arr_field is_jstr (JObj p) ''completed''" "arr_field is_jstr (JObj p) ''current''"
    using obj_fieldE [OF h(4)] by blast
  obtain cs where cs: "opt_prop (Some (JObj p)) ''completed'' = Some (JArr cs)" using arr_fieldE [OF pt(1)] by blast
  obtain cu where cu: "opt_prop (Some (JObj p)) ''current'' = Some (JArr cu)" using arr_fieldE [OF pt(2)] by blast
  have "w \<noteq> JNull" using assms(2) by auto
  then show ?thesis using g sg ctx p cs cu by (simp add: wm_text_def js_call_join_def)
qed

lemma step_fields_typed:
  assumes "step_typed st"
  shows "\<exists>y. step_fields st = Inr y \<and> is_str_opt (snd y)"
proof -
  obtain kvs where t: "st = JObj kvs" using assms is_objE unfolding step_typed_def by blast
  obtain a where "opt_prop (Some st) ''step'' = Some (JStr a)"
    using assms str_fieldE unfolding step_typed_def by metis
  then show ?thesis by (simp add: step_fields_def is_str_opt_def t)
qed

lemma triple_fields_typed:
  assumes "triple_typed t"
  shows "\<exists>y. triple_fields t = Inr y \<and> list_all is_str_opt y"
proof -
  obtain kvs where t: "t = JObj kvs" using assms is_objE unfolding triple_typed_def by blast
  obtain a b c where "opt_prop (Some t) ''sub'' = Some (JStr a)" "opt_prop (Some t) ''pred'' = Some (JStr b)"
      "opt_prop (Some t) ''obj'' = Some (JStr c)"
    using assms str_fieldE unfolding triple_typed_def by metis
  then show ?thesis by (simp add: triple_fields_def destructure_def is_str_opt_def t)
qed

lemma render_str_opts: "list_all is_str_opt vs \<Longrightarrow> \<exists>ts. render_all vs = Inr ts"
  unfolding render_all_def
  by (induction vs) (auto simp: is_str_opt_def bind_r_eq_Inr split: option.splits json.splits)

lemma render_steps:
  "list_all (\<lambda>y. is_str_opt (snd y)) ss \<Longrightarrow>
   \<exists>ts. map_r (\<lambda>(mark, txt). bind_r (react_text txt) (\<lambda>t. Inr (mark @ '' '' @ t))) ss = Inr ts"
  by (induction ss) (auto simp: is_str_opt_def bind_r_eq_Inr split: option.splits json.splits)

lemma nonempty_map_typed:
  "list_all P xs \<Longrightarrow> (\<And>x. P x \<Longrightarrow> \<exists>y. f x = Inr y \<and> Q y) \<Longrightarrow>
   \<exists>r. nonempty_map f (Some (JArr xs)) = Inr r \<and> (\<forall>ys. r = Some ys \<longrightarrow> list_all Q ys)"
  using map_r_list_all [of P xs f Q] by (auto simp: nonempty_map_def)

lemma agent_schema_typedD:
  assumes "agent_schema_typed v"
  shows "v \<noteq> JNull" "str_field v ''mode''" "arr_field is_jstr v ''available_modes''"
    "arr_field transition_typed v ''mode_transitions''" "obj_field wm_typed v ''wm''"
    "obj_field chain_typed v ''chain''" "obj_field (\<lambda>k. arr_field triple_typed k ''tri'') v ''kg''"
    "obj_field logic_typed v ''logic''" "arr_field is_jstr v ''exp''" "arr_field is_jstr v ''se''"
  using assms by (auto simp: agent_schema_typed_def)

lemma config_panel_typed:
  assumes "agent_schema_typed v"
  shows "\<exists>t. agent_config_panel (Some v) = Inr t"
proof -
  note h = agent_schema_typedD [OF assms]
  obtain m where m: "opt_prop (Some v) ''mode'' = Some (JStr m)" using str_fieldE [OF h(2)] by blast
  obtain ams where am: "opt_prop (Some v) ''available_modes'' = Some (JArr ams)" using arr_fieldE [OF h(3)] by blast
  obtain ts where mt: "opt_prop (Some v) ''mode_transitions'' = Some (JArr ts)" "list_all transition_typed ts"
    using arr_fieldE [OF h(4)] by blast
  obtain ls where tl: "map_r transition_text ts = Inr ls"
    using map_r_list_all [OF mt(2), of transition_text "\<lambda>y. True"] transition_text_typed by blast
  obtain w where w: "opt_prop (Some v) ''wm'' = Some (JObj w)" "wm_typed (JObj w)" using obj_fieldE [OF h(5)] by blast
  have hw: "str_field (JObj w) ''g''" "str_field (JObj w) ''sg''" "str_field (JObj w) ''ctx''"
    using w(2) by (simp_all add: wm_typed_def)
  obtain g where g: "opt_prop (Some (JObj w)) ''g'' = Some (JStr g)" using str_fieldE [OF hw(1)] by blast
  obtain sg where sg: "opt_prop (Some (JObj w)) ''sg'' = Some (JStr sg)" using str_fieldE [OF hw(2)] by blast
  obtain ctx where ctx: "opt_prop (Some (JObj w)) ''ctx'' = Some (JStr ctx)" using str_fieldE [OF hw(3)] by blast
  show ?thesis
    using h(1) m am mt(1) tl w(1) g sg ctx
    by (simp add: agent_config_panel_def join_or_empty_def js_call_join_def transitions_text_def config_item_def)
qed

lemma reasoning_panel_typed:
  assumes "agent_schema_typed v"
  shows "\<exists>t. reasoning_panel (Some v) = Inr t"
proof -
  note h = agent_schema_typedD [OF assms]
  obtain es where es: "opt_prop (Some v) ''exp'' = Some (JArr es)" "list_all is_jstr es" using arr_fieldE [OF h(9)] by blast
  obtain ss where ss: "opt_prop (Some v) ''se'' = Some (JArr ss)" "list_all is_jstr ss" using arr_fieldE [OF h(10)] by blast
  obtain esT where r1: "render_all (map Some es) = Inr esT" using render_strings [OF es(2)] by blast
  obtain ssT where r2: "render_all (map Some ss) = Inr ssT" using render_strings [OF ss(2)] by blast
  obtain l where l: "opt_prop (Some v) ''logic'' = Some (JObj l)" "logic_typed (JObj l)" using obj_fieldE [OF h(8)] by blast
  have hl: "arr_field logic_item_typed (JObj l) ''propos''" "arr_field logic_item_typed (JObj l) ''proofs''"
      "arr_field logic_item_typed (JObj l) ''crits''" "arr_field logic_item_typed (JObj l) ''doubts''"
    using l(2) by (simp_all add: logic_typed_def)
  obtain p1 where p1: "opt_prop (Some (JObj l)) ''propos'' = Some (JArr p1)" "list_all logic_item_typed p1"
    using arr_fieldE [OF hl(1)] by blast
  obtain p2 where p2: "opt_prop (Some (JObj l)) ''proofs'' = Some (JArr p2)" "list_all logic_item_typed p2"
    using arr_fieldE [OF hl(2)] by blast
  obtain p3 where p3: "opt_prop (Some (JObj l)) ''crits'' = Some (JArr p3)" "list_all logic_item_typed p3"
    using arr_fieldE [OF hl(3)] by blast
  obtain p4 where p4: "opt_prop (Some (JObj l)) ''doubts'' = Some (JArr p4)" "list_all logic_item_typed p4"
    using arr_fieldE [OF hl(4)] by blast
  obtain t1 where t1: "logic_list ''Propositions'' (Some (JArr p1)) = Inr t1" using logic_list_typed [OF p1(2)] by blast
  obtain t2 where t2: "logic_list ''Preuves'' (Some (JArr p2)) = Inr t2" using logic_list_typed [OF p2(2)] by blast
  obtain t3 where t3: "logic_list ''Critiques'' (Some (JArr p3)) = Inr t3" using logic_list_typed [OF p3(2)] by blast
  obtain t4 where t4: "logic_list ''Doutes'' (Some (JArr p4)) = Inr t4" using logic_list_typed [OF p4(2)] by blast
  obtain w where w: "opt_prop (Some v) ''wm'' = Some (JObj w)" "wm_typed (JObj w)" using obj_fieldE [OF h(5)] by blast
  obtain wT where wt: "wm_text (Some (JObj w)) = Inr wT" using wm_text_typed [OF w(2)] by auto
  obtain k where k: "opt_prop (Some v) ''kg'' = Some (JObj k)" "arr_field triple_typed (JObj k) ''tri''"
    using obj_fieldE [OF h(7)] by blast
  obtain tris where tr: "opt_prop (Some (JObj k)) ''tri'' = Some (JArr tris)" "list_all triple_typed tris"
    using arr_fieldE [OF k(2)] by blast
  obtain rt where rt: "nonempty_map triple_fields (Some (JArr tris)) = Inr rt"
      "\<forall>ys. rt = Some ys \<longrightarrow> list_all (list_all is_str_opt) ys"
    using nonempty_map_typed [OF tr(2), of triple_fields "list_all is_str_opt"] triple_fields_typed by blast
  obtain kT where kt: "(case rt of None \<Rightarrow> Inr [no_triples_text] | Some ts \<Rightarrow> render_all (concat ts)) = Inr kT"
  proof (cases rt)
    case (Some a)
    then have "list_all is_str_opt (concat a)" using rt(2) by (simp add: list_all_iff)
    then show ?thesis using render_str_opts that Some by fastforce
  qed (use that in simp)
  obtain c where c: "opt_prop (Some v) ''chain'' = Some (JObj c)" "chain_typed (JObj c)" using obj_fieldE [OF h(6)] by blast
  have hc: "arr_field step_typed (JObj c) ''steps''" "str_field (JObj c) ''reflect''"
    using c(2) by (simp_all add: chain_typed_def)
  obtain sts where st: "opt_prop (Some (JObj c)) ''steps'' = Some (JArr sts)" "list_all step_typed sts"
    using arr_fieldE [OF hc(1)] by blast
  obtain rs where rs: "nonempty_map step_fields (Some (JArr sts)) = Inr rs"
      "\<forall>ys. rs = Some ys \<longrightarrow> list_all (\<lambda>y. is_str_opt (snd y)) ys"
    using nonempty_map_typed [OF st(2), of step_fields "\<lambda>y. is_str_opt (snd y)"] step_fields_typed by blast
  obtain cT where ct: "(case rs of None \<Rightarrow> Inr [no_steps_text]
      | Some ss \<Rightarrow> map_r (\<lambda>(mark, txt). bind_r (react_text txt) (\<lambda>t. Inr (mark @ '' '' @ t))) ss) = Inr cT"
    using rs(2) render_steps by (cases rs) auto
  obtain rf where rf: "opt_prop (Some (JObj c)) ''reflect'' = Some (JStr rf)" using str_fieldE [OF hc(2)] by blast
  show ?thesis
    using h(1) es(1) ss(1) r1 r2 l(1) p1(1) p2(1) p3(1) p4(1) t1 t2 t3 t4 w(1) wt k(1) tr(1) rt(1) kt
      c(1) st(1) rs(1) ct rf
    by (simp add: reasoning_panel_def destructure_def)
qed

subsection \<open>Properties of the panels\<close>

text \<open>C13. A schema of the declared type \<open>AgentSchema\<close> renders in both the
  Mission panel and the Reasoning panel without an exception.\<close>

theorem typed_schema_renders:
  assumes "agent_schema_typed v"
  shows "(\<exists>t. agent_config_panel (Some v) = Inr t) \<and> (\<exists>t. reasoning_panel (Some v) = Inr t)"
  using config_panel_typed [OF assms] reasoning_panel_typed [OF assms] by blast

theorem typed_schema_renders_witness:
  "agent_schema_typed INITIAL_AGENT_SCHEMA
   \<and> (\<exists>t. agent_config_panel (Some INITIAL_AGENT_SCHEMA) = Inr t)
   \<and> (\<exists>t. reasoning_panel (Some INITIAL_AGENT_SCHEMA) = Inr t)"
  using typed_schema_renders [OF initial_schema_typed] initial_schema_typed by blast

text \<open>C14. A schema without a \<open>wm\<close> object, which the cycle's payload check
  accepts (it only asks for a truthy \<open>updatedSchema\<close>), makes both the Mission
  panel and the Reasoning panel throw when they render.\<close>

theorem schema_without_wm_crashes:
  assumes "opt_prop (Some s) ''wm'' = None"
  shows "isl (agent_config_panel (Some s)) \<and> isl (reasoning_panel (Some s))"
proof (cases "s = JNull")
  case True
  then show ?thesis by (simp add: agent_config_panel_def reasoning_panel_def destructure_def)
next
  case False
  obtain e where wm: "wm_text None = Inl e" by (simp add: wm_text_def)
  have c: "isl (agent_config_panel (Some s))"
    using assms False
    by (auto simp: agent_config_panel_def bind_r_def split: sum.splits)
  have r: "isl (reasoning_panel (Some s))"
    using assms False wm
    by (auto simp: reasoning_panel_def destructure_def bind_r_def Let_def split: sum.splits)
  from c r show ?thesis ..
qed

theorem schema_without_wm_crashes_witness:
  "opt_prop (Some (JObj [])) ''wm'' = None
   \<and> isl (agent_config_panel (Some (JObj []))) \<and> isl (reasoning_panel (Some (JObj [])))"
  using schema_without_wm_crashes [of "JObj []"] by simp

end
