(* ===== verification/FileTree.thy ===== *)
theory FileTree
  imports DocTree Types
begin

text \<open>
  The documentation tree view (\<open>src/components/FileTree.tsx\<close>).  Every
  \<open>TreeNode\<close> component instance keeps its own \<open>isExpanded\<close> state, created by
  \<open>useState(level < 2)\<close> when the instance mounts, and mounts the instances of
  its children only while it is an expanded folder: collapsing a folder
  unmounts its children and their state is lost.  The model keeps the mounted
  instances as a \<open>tree_node\<close> beside the document tree, renders the rows the
  user sees (path, level, active and modified highlights), and models a click
  (\<open>handleToggle\<close>) on the instance a route of child indices reaches.  The
  lemmas show that every rendered row's path resolves, through
  \<open>findNodeByPath\<close>, to the node the row shows, and that row paths are
  distinct, on well-formed trees.
\<close>

subsection \<open>Definitions\<close>

text \<open>A mounted \<open>TreeNode\<close>: its \<open>isExpanded\<close> state and its mounted children.\<close>

datatype tree_node = TreeNode (is_expanded: bool) (mounted: "tree_node list")

fun is_folder :: "doc_node \<Rightarrow> bool" where
  "is_folder (DocFolder _ _ _) = True"
| "is_folder (DocFile _ _ _) = False"

text \<open>\<open>`${path}/${child.name}`\<close>, the key and the path of a child.\<close>

definition child_path :: "path \<Rightarrow> doc_node \<Rightarrow> path" where
  "child_path p child = p @ [slash] @ name child"

text \<open>A newly mounted instance at depth \<open>level\<close> and the instances it mounts.\<close>

fun mount_tree_node :: "doc_node \<Rightarrow> nat \<Rightarrow> tree_node" where
  "mount_tree_node (DocFolder n d cs) level =
     TreeNode (level < 2) (if level < 2 then map (\<lambda>child. mount_tree_node child (Suc level)) cs else [])"
| "mount_tree_node (DocFile n d c) level = TreeNode (level < 2) []"

text \<open>A rendered row: the instance's path and level, the node it shows, and
  its \<open>active\<close>, \<open>modified\<close> and expanded (chevron) state.\<close>

record tree_row =
  row_path :: path
  row_level :: nat
  row_node :: doc_node
  row_active :: bool
  row_modified :: bool
  row_expanded :: bool

text \<open>The rows of an instance: its own, then, for an expanded folder, those of
  its children in order.  \<open>isActive\<close> and \<open>isModified\<close> are strict equalities
  with \<open>selectedNodePath\<close> and \<open>lastUpdatedFile\<close>, which hold any value the
  application stored (\<open>None\<close> is \<open>null\<close>).\<close>

function tree_rows :: "json option \<Rightarrow> json option \<Rightarrow> doc_node \<Rightarrow> tree_node \<Rightarrow> nat \<Rightarrow> path \<Rightarrow> tree_row list" where
  "tree_rows sel upd node (TreeNode ex vs) level p =
     \<lparr>row_path = p, row_level = level, row_node = node,
      row_active = (Some (JStr p) = sel), row_modified = (Some (JStr p) = upd), row_expanded = ex\<rparr>
     # (if is_folder node \<and> ex
        then concat (map (\<lambda>(child, v). tree_rows sel upd child v (Suc level) (child_path p child))
                       (zip (children node) vs))
        else [])"
  by pat_completeness auto
termination
  by (relation "measure (\<lambda>(sel, upd, node, v, level, p). size v)")
     (auto dest!: set_zip_rightD intro!: le_imp_less_Suc size_list_estimation')

text \<open>\<open>FileTree\<close>: the root instance, at level 0 with the root's name as path.\<close>

definition file_tree :: "json option \<Rightarrow> json option \<Rightarrow> doc_node \<Rightarrow> tree_node \<Rightarrow> tree_row list" where
  "file_tree sel upd root v = tree_rows sel upd root v 0 (name root)"

text \<open>\<open>handleToggle\<close> on the instance a route reaches: a folder flips
  \<open>isExpanded\<close>; expanding mounts its children afresh, collapsing unmounts
  them.  A route through a collapsed folder reaches no rendered instance.\<close>

fun click_tree_node :: "nat list \<Rightarrow> doc_node \<Rightarrow> tree_node \<Rightarrow> nat \<Rightarrow> tree_node" where
  "click_tree_node [] node (TreeNode ex vs) level =
     (if is_folder node
      then (if ex then TreeNode False []
            else TreeNode True (map (\<lambda>child. mount_tree_node child (Suc level)) (children node)))
      else TreeNode ex vs)"
| "click_tree_node (i # r) node (TreeNode ex vs) level =
     (if is_folder node \<and> ex \<and> i < length vs \<and> i < length (children node)
      then TreeNode ex (vs[i := click_tree_node r (children node ! i) (vs ! i) (Suc level)])
      else TreeNode ex vs)"

text \<open>The path \<open>onNodeSelect(path)\<close> receives from the instance a route reaches,
  if that instance is rendered.\<close>

fun route_row :: "nat list \<Rightarrow> doc_node \<Rightarrow> tree_node \<Rightarrow> path \<Rightarrow> path option" where
  "route_row [] node v p = Some p"
| "route_row (i # r) node (TreeNode ex vs) p =
     (if is_folder node \<and> ex \<and> i < length vs \<and> i < length (children node)
      then route_row r (children node ! i) (vs ! i) (child_path p (children node ! i))
      else None)"

text \<open>The instances mirror the document tree: an expanded folder has one
  mounted instance per child, anything else none.\<close>

fun view_ok :: "doc_node \<Rightarrow> tree_node \<Rightarrow> bool" where
  "view_ok node (TreeNode ex vs) \<longleftrightarrow>
     (if is_folder node \<and> ex then list_all2 view_ok (children node) vs else vs = [])"

subsection \<open>Lemmas\<close>

lemma js_split_child_path:
  "slash \<notin> set (name child) \<Longrightarrow> js_split slash (child_path p child) = js_split slash p @ [name child]"
  by (simp add: child_path_def js_split_append_sep_general js_split_no_sep)

lemma walk_segments_child:
  assumes "distinct (map name cs)" "child \<in> set cs"
  shows "walk_segments (DocFolder n d cs) (name child # ss) = walk_segments child ss"
  using find_distinct_name [OF assms] by simp

lemma tree_rows_resolve:
  "wf_tree node \<Longrightarrow> r \<in> set (tree_rows sel upd node v level p) \<Longrightarrow>
     \<exists>ss. js_split slash (row_path r) = js_split slash p @ ss \<and> walk_segments node ss = Some (row_node r)"
proof (induction sel upd node v level p rule: tree_rows.induct)
  case (1 sel upd node ex vs level p)
  show ?case
  proof (cases "r \<in> set (tree_rows sel upd node (TreeNode ex vs) level p) \<and> r \<noteq> hd (tree_rows sel upd node (TreeNode ex vs) level p)")
    case False
    with "1.prems" show ?thesis by auto
  next
    case True
    then obtain child w where cw: "(child, w) \<in> set (zip (children node) vs)" "is_folder node \<and> ex"
        and r: "r \<in> set (tree_rows sel upd child w (Suc level) (child_path p child))"
      by (auto split: if_splits)
    obtain n d cs where nd: "node = DocFolder n d cs" using cw(2) by (cases node) auto
    have ch: "child \<in> set cs" using cw(1) nd by (auto dest: set_zip_leftD)
    have wfc: "wf_tree child" "distinct (map name cs)" "slash \<notin> set (name child)"
      using "1.prems"(1) nd ch wf_tree_no_slash no_slash_name by auto
    obtain ss where ss: "js_split slash (row_path r) = js_split slash (child_path p child) @ ss"
        "walk_segments child ss = Some (row_node r)"
      using "1.IH" [OF cw(2) cw(1) refl wfc(1) r] by blast
    show ?thesis
    proof (intro exI conjI)
      show "js_split slash (row_path r) = js_split slash p @ (name child # ss)"
        using ss(1) js_split_child_path [OF wfc(3)] by simp
      show "walk_segments node (name child # ss) = Some (row_node r)"
        using walk_segments_child [OF wfc(2) ch] ss(2) nd by simp
    qed
  qed
qed

lemma concat_rows_distinct:
  assumes "distinct (map (name \<circ> fst) zs)"
    and "\<And>c w. (c, w) \<in> set zs \<Longrightarrow>
           distinct (map f (g c w)) \<and> (\<forall>r \<in> set (g c w). \<exists>ss. f r = P @ name c # ss)"
  shows "distinct (map f (concat (map (\<lambda>(c, w). g c w) zs)))"
  using assms
proof (induction zs)
  case Nil
  then show ?case by simp
next
  case (Cons z zs)
  obtain c w where z: "z = (c, w)" by (cases z)
  have disj: "f r1 \<noteq> f r2" if "r1 \<in> set (g c w)" "(c', w') \<in> set zs" "r2 \<in> set (g c' w')" for r1 r2 c' w'
  proof -
    from Cons.prems(2) [of c w] z that(1) obtain ss1 where "f r1 = P @ name c # ss1" by auto
    moreover from Cons.prems(2) [of c' w'] that(2,3) obtain ss2 where "f r2 = P @ name c' # ss2" by auto
    moreover from Cons.prems(1) z that(2) have "name c' \<noteq> name c" by force
    ultimately show ?thesis by auto
  qed
  have rest: "distinct (map f (concat (map (\<lambda>(c, w). g c w) zs)))"
  proof (rule Cons.IH)
    show "distinct (map (name \<circ> fst) zs)" using Cons.prems(1) by (simp add: comp_def)
    show "distinct (map f (g c' w')) \<and> (\<forall>r \<in> set (g c' w'). \<exists>ss. f r = P @ name c' # ss)"
      if "(c', w') \<in> set zs" for c' w'
      using Cons.prems(2) [of c' w'] that by simp
  qed
  have "set (map f (g c w)) \<inter> set (map f (concat (map (\<lambda>(c, w). g c w) zs))) = {}"
    using disj by fastforce
  with rest Cons.prems(2) [of c w] z show ?case by simp
qed

lemma tree_rows_distinct:
  "wf_tree node \<Longrightarrow> distinct (map (\<lambda>r. js_split slash (row_path r)) (tree_rows sel upd node v level p))"
proof (induction sel upd node v level p rule: tree_rows.induct)
  case (1 sel upd node ex vs level p)
  show ?case
  proof (cases "is_folder node \<and> ex")
    case False
    then have "\<not> is_folder node \<or> \<not> ex" by simp
    then show ?thesis by auto
  next
    case True
    obtain n d cs where nd: "node = DocFolder n d cs" using True by (cases node) auto
    let ?zs = "zip (children node) vs"
    let ?rows = "concat (map (\<lambda>(c, w). tree_rows sel upd c w (Suc level) (child_path p c)) ?zs)"
    have mem: "child \<in> set cs" if "(child, w) \<in> set ?zs" for child w
      using that nd by (auto dest: set_zip_leftD)
    have names: "distinct (map (name \<circ> fst) ?zs)"
      using "1.prems" nd by (simp add: map_fst_zip_take flip: map_map take_map)
    have sub: "distinct (map (\<lambda>r. js_split slash (row_path r)) (tree_rows sel upd child w (Suc level) (child_path p child)))
        \<and> (\<forall>r \<in> set (tree_rows sel upd child w (Suc level) (child_path p child)).
             \<exists>ss. js_split slash (row_path r) = js_split slash p @ name child # ss)"
      if cw: "(child, w) \<in> set ?zs" for child w
    proof
      have wfc: "wf_tree child" "slash \<notin> set (name child)"
        using "1.prems" nd mem [OF cw] wf_tree_no_slash no_slash_name by auto
      show "distinct (map (\<lambda>r. js_split slash (row_path r)) (tree_rows sel upd child w (Suc level) (child_path p child)))"
        using "1.IH" [OF True cw refl wfc(1)] .
      show "\<forall>r \<in> set (tree_rows sel upd child w (Suc level) (child_path p child)).
             \<exists>ss. js_split slash (row_path r) = js_split slash p @ name child # ss"
      proof
        fix r assume "r \<in> set (tree_rows sel upd child w (Suc level) (child_path p child))"
        from tree_rows_resolve [OF wfc(1) this] obtain ss
          where "js_split slash (row_path r) = js_split slash (child_path p child) @ ss" by blast
        then show "\<exists>ss. js_split slash (row_path r) = js_split slash p @ name child # ss"
          using js_split_child_path [OF wfc(2)] by auto
      qed
    qed
    have ch: "distinct (map (\<lambda>r. js_split slash (row_path r)) ?rows)"
      by (rule concat_rows_distinct [OF names]) (use sub in blast)
    have "js_split slash p \<notin> set (map (\<lambda>r. js_split slash (row_path r)) ?rows)"
      using sub by fastforce
    with ch True show ?thesis by simp
  qed
qed

lemma distinct_filter_same_le1:
  assumes "distinct (map f xs)" "\<And>x. x \<in> set xs \<Longrightarrow> P x \<Longrightarrow> f x = k"
  shows "length (filter P xs) \<le> 1"
proof -
  have d: "distinct (map f (filter P xs))" using assms(1) by (simp add: distinct_map_filter)
  have "set (map f (filter P xs)) \<subseteq> {k}" using assms(2) by auto
  then have "card (set (map f (filter P xs))) \<le> card {k}" by (intro card_mono) simp_all
  moreover have "card (set (map f (filter P xs))) = length (filter P xs)"
    using distinct_card [OF d] by simp
  ultimately show ?thesis by simp
qed

lemma route_row_rendered:
  "route_row r node v p = Some q \<Longrightarrow> \<exists>row \<in> set (tree_rows sel upd node v level p). row_path row = q"
proof (induction r node v p arbitrary: level rule: route_row.induct)
  case (1 node v p)
  then show ?case by (cases v) auto
next
  case (2 i r node ex vs p)
  let ?c = "children node ! i"
  from "2.prems" have g: "is_folder node \<and> ex \<and> i < length vs \<and> i < length (children node)"
    by (auto split: if_splits)
  with "2.prems" have "route_row r ?c (vs ! i) (child_path p ?c) = Some q" by simp
  from "2.IH" [OF g this] obtain row
    where row: "row \<in> set (tree_rows sel upd ?c (vs ! i) (Suc level) (child_path p ?c))" "row_path row = q"
    by blast
  have "(?c, vs ! i) \<in> set (zip (children node) vs)"
    using g by (auto simp: in_set_zip intro: exI [of _ i])
  with row g show ?case by force
qed

lemma mount_view_ok: "view_ok node (mount_tree_node node level)"
  by (induction node level rule: mount_tree_node.induct) (auto simp: list_all2_map2 list_all2_same)

lemma click_view_ok: "view_ok node v \<Longrightarrow> view_ok node (click_tree_node r node v level)"
proof (induction r node v level rule: click_tree_node.induct)
  case (1 node ex vs level)
  then show ?case by (auto simp: mount_view_ok list_all2_map2 list_all2_same)
next
  case (2 i r node ex vs level)
  then show ?case by (auto simp: list_all2_conv_all_nth nth_list_update)
qed

lemma is_folder_recurse_update [simp]: "is_folder (recurse_update t c n cp) = is_folder n"
  by (cases n) simp_all

lemma view_ok_recurse_update: "view_ok (recurse_update t c n cp) v = view_ok n v"
proof (induction n arbitrary: cp v)
  case (DocFolder nm d cs)
  obtain ex vs where v: "v = TreeNode ex vs" by (cases v)
  have "list_all2 view_ok (map (\<lambda>child. recurse_update t c child (cp @ [slash] @ name child)) cs) vs
        = list_all2 view_ok cs vs"
    using DocFolder.IH by (auto simp: list_all2_conv_all_nth)
  with v show ?case by simp
next
  case (DocFile nm d x)
  then show ?case by (cases v) simp
qed

subsection \<open>Properties of the tree view\<close>

text \<open>Every row the tree renders carries a path that
  \<open>findNodeByPath\<close> resolves to the very node the row shows, so selecting a
  row shows that node in the viewer (on a well-formed tree).\<close>

theorem row_resolves:
  assumes "wf_tree root" "r \<in> set (file_tree sel upd root v)"
  shows "find_node_by_path root (row_path r) = Some (row_node r)"
proof -
  from tree_rows_resolve [OF assms(1)] assms(2) obtain ss
    where ss: "js_split slash (row_path r) = js_split slash (name root) @ ss" "walk_segments root ss = Some (row_node r)"
    unfolding file_tree_def by blast
  have nr: "name root \<noteq> []" "slash \<notin> set (name root)"
    using assms(1) wf_tree_no_slash no_slash_name by (cases root; simp)+
  then have sp: "js_split slash (row_path r) = name root # ss" using ss(1) by (simp add: js_split_no_sep)
  then have "row_path r \<noteq> []" using nr(1) by auto
  with sp ss(2) show ?thesis by (simp add: find_node_by_path_segs)
qed

definition sample_tree :: doc_node where
  "sample_tree = DocFolder ''docs'' ''Docs''
     [DocFile ''README.md'' ''Readme'' ''# Hi'', DocFolder ''api'' ''API'' [DocFile ''spec.md'' ''Spec'' '''']]"

theorem row_resolves_witness:
  "wf_tree sample_tree
   \<and> \<lparr>row_path = ''docs/api/spec.md'', row_level = 2, row_node = DocFile ''spec.md'' ''Spec'' '''',
       row_active = True, row_modified = False, row_expanded = False\<rparr>
      \<in> set (file_tree (Some (JStr ''docs/api/spec.md'')) None sample_tree (mount_tree_node sample_tree 0))
   \<and> find_node_by_path sample_tree ''docs/api/spec.md'' = Some (DocFile ''spec.md'' ''Spec'' '''')"
proof -
  let ?r = "\<lparr>row_path = ''docs/api/spec.md'', row_level = 2, row_node = DocFile ''spec.md'' ''Spec'' '''',
       row_active = True, row_modified = False, row_expanded = False\<rparr>"
  have w: "wf_tree sample_tree" by (simp add: sample_tree_def slash_def)
  have m: "?r \<in> set (file_tree (Some (JStr ''docs/api/spec.md'')) None sample_tree (mount_tree_node sample_tree 0))"
    by (simp add: sample_tree_def file_tree_def child_path_def slash_def)
  show ?thesis using row_resolves [OF w m] w m by simp
qed

text \<open>At most one row of the tree is highlighted as active, whatever
  value the selection holds (on a well-formed tree).\<close>

theorem at_most_one_active_row:
  assumes "wf_tree root"
  shows "length (filter row_active (file_tree sel upd root v)) \<le> 1"
proof (rule distinct_filter_same_le1)
  show "distinct (map (\<lambda>r. js_split slash (row_path r)) (file_tree sel upd root v))"
    unfolding file_tree_def by (rule tree_rows_distinct [OF assms])
  have act: "\<forall>r \<in> set (tree_rows sel upd n w l p). row_active r \<longrightarrow> sel = Some (JStr (row_path r))" for n w l p
    by (induction sel upd n w l p rule: tree_rows.induct) auto
  show "js_split slash (row_path r) = js_split slash (case sel of Some (JStr q) \<Rightarrow> q | _ \<Rightarrow> [])"
    if "r \<in> set (file_tree sel upd root v)" "row_active r" for r
    using act that unfolding file_tree_def by fastforce
qed

theorem at_most_one_active_row_witness:
  "wf_tree sample_tree
   \<and> length (filter row_active (file_tree (Some (JStr ''docs/api'')) None sample_tree (mount_tree_node sample_tree 0))) \<le> 1"
proof -
  have w: "wf_tree sample_tree" by (simp add: sample_tree_def slash_def)
  show ?thesis using at_most_one_active_row [OF w] w by simp
qed

end
