(* ===== verification/FileViewer.thy ===== *)
theory FileViewer
  imports DocTree Types
begin

text \<open>
  The file viewer (\<open>src/components/FileViewer.tsx\<close>): its React state
  (\<open>viewMode\<close>, \<open>editedContent\<close>, \<open>isDirty\<close>) as a record, the effect that
  resets it when the node it shows becomes another object, the handlers of the
  text area, of the mode buttons and of Save, and what it renders for a
  node.  The HTML that showdown makes of a body is not modelled; the model
  keeps the Markdown text handed to it.
\<close>

subsection \<open>Definitions\<close>

datatype view_mode = Preview | Source

record viewer =
  viewMode :: view_mode
  editedContent :: string
  isDirty :: bool

definition viewer_init :: viewer where
  "viewer_init = \<lparr>viewMode = Preview, editedContent = [], isDirty = False\<rparr>"

text \<open>\<open>useEffect(() => { if (node?.type === 'file') ... }, [node])\<close>: after a
  render in which \<open>node\<close> is another object, a file's body is loaded into the
  editor, the preview is shown and the edit is clean; a folder or \<open>null\<close>
  leaves the state as it is.\<close>

definition node_effect :: "doc_node option \<Rightarrow> viewer \<Rightarrow> viewer" where
  "node_effect node v =
     (case node of
        Some (DocFile n d c) \<Rightarrow> v\<lparr>editedContent := c, viewMode := Preview, isDirty := False\<rparr>
      | _ \<Rightarrow> v)"

text \<open>\<open>handleContentChange\<close>: the text area's new value, dirty when it differs
  from the file's body.\<close>

definition handle_content_change :: "doc_node option \<Rightarrow> string \<Rightarrow> viewer \<Rightarrow> viewer" where
  "handle_content_change node value v =
     (case node of
        Some (DocFile n d c) \<Rightarrow> v\<lparr>editedContent := value, isDirty := (value \<noteq> c)\<rparr>
      | _ \<Rightarrow> v\<lparr>editedContent := value\<rparr>)"

text \<open>\<open>handleSave\<close>: \<open>if (path && isDirty)\<close>, \<open>onSave(path, editedContent)\<close> and
  the edit becomes clean.  The call it makes is returned beside the new state.\<close>

definition handle_save :: "json option \<Rightarrow> viewer \<Rightarrow> (json \<times> string) option \<times> viewer" where
  "handle_save path v =
     (if truthy path \<and> isDirty v then (Some (the path, editedContent v), v\<lparr>isDirty := False\<rparr>)
      else (None, v))"

text \<open>What the viewer shows: the placeholder for \<open>null\<close>; a folder's name and
  purpose; a file's name, purpose, mode, the text it shows (the body handed
  to showdown in preview, the text area's value in source mode) and whether
  the Save button is there (\<open>isDirty && viewMode === 'source'\<close>).\<close>

datatype viewer_screen =
    NoSelection
  | FolderScreen string string
  | FileScreen string string view_mode string bool

definition render_viewer :: "doc_node option \<Rightarrow> viewer \<Rightarrow> viewer_screen" where
  "render_viewer node v =
     (case node of
        None \<Rightarrow> NoSelection
      | Some (DocFolder n d cs) \<Rightarrow> FolderScreen n d
      | Some (DocFile n d c) \<Rightarrow>
          FileScreen n d (viewMode v) (if viewMode v = Preview then c else editedContent v)
            (isDirty v \<and> viewMode v = Source))"

definition save_visible :: "doc_node option \<Rightarrow> viewer \<Rightarrow> bool" where
  "save_visible node v \<longleftrightarrow> (case render_viewer node v of FileScreen _ _ _ _ b \<Rightarrow> b | _ \<Rightarrow> False)"

definition shows_file :: "doc_node option \<Rightarrow> bool" where
  "shows_file node \<longleftrightarrow> (case node of Some (DocFile _ _ _) \<Rightarrow> True | _ \<Rightarrow> False)"

subsection \<open>Lemmas\<close>

lemma save_visible_iff:
  "save_visible node v \<longleftrightarrow> shows_file node \<and> isDirty v \<and> viewMode v = Source"
  by (auto simp: save_visible_def render_viewer_def shows_file_def split: option.splits doc_node.splits)

lemma node_effect_file [simp]:
  "node_effect (Some (DocFile n d c)) v = v\<lparr>editedContent := c, viewMode := Preview, isDirty := False\<rparr>"
  by (simp add: node_effect_def)

lemma handle_content_change_file [simp]:
  "handle_content_change (Some (DocFile n d c)) s v = v\<lparr>editedContent := s, isDirty := (s \<noteq> c)\<rparr>"
  by (simp add: handle_content_change_def)

end
