(* ===== verification/Workspace.thy ===== *)
theory Workspace
  imports Controller FileTree FileViewer
begin

text \<open>
  The document workspace of \<open>src/App.tsx\<close>: the session controller, the
  mounted tree view (\<open>FileTree\<close>) and the viewer's state (\<open>FileViewer\<close>),
  with the render that joins them.  After every handler React re-renders
  \<open>App\<close>: \<open>selectedNode = findNodeByPath(state.docStructure,
  selectedNodePath || '')\<close> is recomputed, which throws when the selection
  holds a truthy non-string, and the viewer's effect runs when that node is
  another object than at the previous render.  The object is identified by
  the path that resolved it and by the \<open>findAndUpdateFile\<close> calls of the
  step: a file is replaced exactly by a call whose target is its path, and
  two resolving paths reach two objects of the tree.
\<close>

subsection \<open>Definitions\<close>

record workspace =
  ctl :: ctrl
  tree_view :: tree_node
  viewer_st :: viewer

text \<open>The events: those of the controller, a click on the tree instance a
  route reaches, the viewer's text area, its mode buttons and its Save
  button.\<close>

datatype ws_event =
    Ctrl ui_event
  | ClickRow "nat list"
  | EditContent string
  | ClickMode view_mode
  | ClickSave

definition selected_node :: "ctrl \<Rightarrow> js_exn + doc_node option" where
  "selected_node c =
     (case selected c of
        Some (JStr p) \<Rightarrow> Inr (find_node_by_path (docStructure (st c)) p)
      | v \<Rightarrow> if truthy v then Inl (TypeError ''path.split is not a function'') else Inr None)"

definition node_key :: "ctrl \<Rightarrow> path option" where
  "node_key c =
     (case selected c of
        Some (JStr p) \<Rightarrow> (case find_node_by_path (docStructure (st c)) p of None \<Rightarrow> None | Some _ \<Rightarrow> Some p)
      | _ \<Rightarrow> None)"

text \<open>The target \<open>APPLY_AGENT_UPDATE\<close> hands to \<open>findAndUpdateFile\<close> when it
  writes a body (\<open>src/state.ts\<close>).\<close>

definition update_target :: "json \<Rightarrow> path option" where
  "update_target payload =
     (let fu = opt_prop (Some payload) ''fileUpdate'' in
      case (opt_prop fu ''fileName'', opt_prop fu ''content'') of
        (Some (JStr p), Some (JStr c)) \<Rightarrow> if p \<noteq> [] \<and> c \<noteq> [] then Some p else None
      | _ \<Rightarrow> None)"

definition cycle_events :: "json_parser \<Rightarrow> ctrl \<Rightarrow> nat \<Rightarrow> js_exn + string \<Rightarrow> agent_stream_event list" where
  "cycle_events parse c k outcome =
     (case map_of (inflight c) k of
        None \<Rightarrow> []
      | Some (provider, key) \<Rightarrow> stream_agent_cycle parse provider key outcome)"

definition event_writes :: "agent_stream_event list \<Rightarrow> path list" where
  "event_writes evs =
     concat (map (\<lambda>e. case e of Update pl \<Rightarrow> (case update_target pl of Some p \<Rightarrow> [p] | None \<Rightarrow> []) | _ \<Rightarrow> []) evs)"

definition step_writes :: "json_parser \<Rightarrow> ctrl \<Rightarrow> ui_event \<Rightarrow> path list" where
  "step_writes parse c e =
     (case e of
        Respond k outcome \<Rightarrow> event_writes (cycle_events parse c k outcome)
      | SaveFile p b \<Rightarrow> [p]
      | _ \<Rightarrow> [])"

text \<open>Whether the node of the new render is another object than the old one.\<close>

definition node_replaced :: "ctrl \<Rightarrow> ctrl \<Rightarrow> path list \<Rightarrow> bool" where
  "node_replaced c c' writes =
     (if node_key c' = node_key c
      then (case node_key c' of Some p \<Rightarrow> p \<in> set writes | None \<Rightarrow> False)
      else True)"

text \<open>The render after a handler, with the viewer's effect.\<close>

definition rerender :: "ctrl \<Rightarrow> ctrl \<Rightarrow> path list \<Rightarrow> workspace \<Rightarrow> reducer_error + workspace" where
  "rerender c c' writes w =
     (case selected_node c' of
        Inl e \<Rightarrow> Inl (Thrown e)
      | Inr node \<Rightarrow>
          Inr (w\<lparr>ctl := c',
                 viewer_st := (if node_replaced c c' writes then node_effect node (viewer_st w) else viewer_st w)\<rparr>))"

text \<open>
  One event.  A row click runs \<open>handleToggle\<close> (the instance's expansion and
  \<open>onNodeSelect(path)\<close>, which is \<open>setSelectedNodePath\<close>); the viewer's
  controls exist only while it shows a file (the text area only in source
  mode, Save only while dirty in source mode); Save goes through
  \<open>handleSaveFile\<close>, the controller's save.
\<close>

fun ws_step :: "json_parser \<Rightarrow> workspace \<Rightarrow> ws_event \<Rightarrow> reducer_error + workspace" where
  "ws_step parse w (Ctrl e) =
     bind_r (ctrl_step parse (ctl w) e) (\<lambda>c'. rerender (ctl w) c' (step_writes parse (ctl w) e) w)"
| "ws_step parse w (ClickRow r) =
     (let root = docStructure (st (ctl w)) in
      case route_row r root (tree_view w) (name root) of
        None \<Rightarrow> Inr w
      | Some p \<Rightarrow> rerender (ctl w) ((ctl w)\<lparr>selected := Some (JStr p)\<rparr>) []
                   (w\<lparr>tree_view := click_tree_node r root (tree_view w) 0\<rparr>))"
| "ws_step parse w (EditContent s) =
     (case selected_node (ctl w) of
        Inr node \<Rightarrow>
          if shows_file node \<and> viewMode (viewer_st w) = Source
          then Inr (w\<lparr>viewer_st := handle_content_change node s (viewer_st w)\<rparr>) else Inr w
      | Inl e \<Rightarrow> Inr w)"
| "ws_step parse w (ClickMode m) =
     (case selected_node (ctl w) of
        Inr node \<Rightarrow> if shows_file node then Inr (w\<lparr>viewer_st := (viewer_st w)\<lparr>viewMode := m\<rparr>\<rparr>) else Inr w
      | Inl e \<Rightarrow> Inr w)"
| "ws_step parse w ClickSave =
     (case selected_node (ctl w) of
        Inr node \<Rightarrow>
          if save_visible node (viewer_st w) then
            (case handle_save (selected (ctl w)) (viewer_st w) of
               (Some (JStr p, body), v') \<Rightarrow>
                 bind_r (ctrl_step parse (ctl w) (SaveFile p body)) (\<lambda>c'.
                   rerender (ctl w) c' [p] (w\<lparr>viewer_st := v'\<rparr>))
             | (_, v') \<Rightarrow> Inr (w\<lparr>viewer_st := v'\<rparr>))
          else Inr w
      | Inl e \<Rightarrow> Inr w)"

fun ws_run :: "json_parser \<Rightarrow> workspace \<Rightarrow> ws_event list \<Rightarrow> reducer_error + workspace" where
  "ws_run parse w [] = Inr w"
| "ws_run parse w (e # es) = bind_r (ws_step parse w e) (\<lambda>w'. ws_run parse w' es)"

definition initial_workspace :: workspace where
  "initial_workspace =
     \<lparr>ctl = initial_ctrl, tree_view = mount_tree_node (docStructure (st initial_ctrl)) 0, viewer_st = viewer_init\<rparr>"

inductive ws_reachable :: "json_parser \<Rightarrow> workspace \<Rightarrow> bool" for parse where
  init: "ws_reachable parse initial_workspace"
| step: "ws_reachable parse w \<Longrightarrow> ws_step parse w e = Inr w' \<Longrightarrow> ws_reachable parse w'"

subsection \<open>Lemmas\<close>

lemma rerender_Inr:
  "selected_node c' = Inr node \<Longrightarrow>
   rerender c c' ws w = Inr (w\<lparr>ctl := c',
     viewer_st := (if node_replaced c c' ws then node_effect node (viewer_st w) else viewer_st w)\<rparr>)"
  by (simp add: rerender_def)

lemma selected_node_str [simp]:
  "selected c = Some (JStr p) \<Longrightarrow> selected_node c = Inr (find_node_by_path (docStructure (st c)) p)"
  by (simp add: selected_node_def)

lemma node_key_str_file:
  "selected c = Some (JStr p) \<Longrightarrow> find_node_by_path (docStructure (st c)) p = Some m \<Longrightarrow> node_key c = Some p"
  by (simp add: node_key_def)

lemma node_replaced_written:
  "node_key c' = Some p \<Longrightarrow> p \<in> set ws \<Longrightarrow> node_replaced c c' ws"
  by (cases "node_key c") (auto simp: node_replaced_def)

lemma viewer_fresh:
  "v\<lparr>editedContent := c, viewMode := Preview, isDirty := False\<rparr> = \<lparr>viewMode = Preview, editedContent = c, isDirty = False\<rparr>"
  by simp

lemma respond_events:
  assumes "cycle_events parse c k out = evs" "evs \<noteq> []"
  shows "ctrl_step parse c (Respond k out) = handle_events [] evs (c\<lparr>inflight := filter (\<lambda>x. fst x \<noteq> k) (inflight c)\<rparr>)"
  using assms by (auto simp: cycle_events_def split: option.splits)

lemma handle_chunk_update:
  assumes "apply_file_update (docStructure (st c)) (opt_prop (Some pl) ''fileUpdate'') = Inr t" "pl \<noteq> JNull"
  shows "\<exists>c'. handle_events full [Chunk ch, Update pl] c = Inr c' \<and> docStructure (st c') = t
    \<and> selected c' = (if truthy (opt_prop (opt_prop (Some pl) ''fileUpdate'') ''fileName'')
                     then opt_prop (opt_prop (Some pl) ''fileUpdate'') ''fileName'' else selected c)"
  using assms
  by (cases "truthy (opt_prop (Some pl) ''autoContinue'')")
     (simp_all add: dispatch_def Let_def note_file_update_def set_next_auto_def)

lemma apply_file_update_write:
  assumes "opt_prop fu ''fileName'' = Some (JStr q)" "q \<noteq> []"
    "opt_prop fu ''content'' = Some (JStr body)" "body \<noteq> []"
  shows "apply_file_update t fu = Inr (find_and_update_file t q body)"
  using assms by (simp add: apply_file_update_def Let_def)

lemma payload_not_null: "opt_prop (opt_prop (Some pl) k) k' = Some v \<Longrightarrow> pl \<noteq> JNull"
  by auto

lemma view_ok_skeleton: "view_ok (doc_skeleton n) v = view_ok n v"
proof (induction n arbitrary: v)
  case (DocFolder nm d cs)
  obtain ex vs where v: "v = TreeNode ex vs" by (cases v)
  have "list_all2 view_ok (map doc_skeleton cs) vs = list_all2 view_ok cs vs"
    using DocFolder.IH by (auto simp: list_all2_conv_all_nth)
  with v show ?case by simp
next
  case (DocFile nm d x)
  then show ?case by (cases v) simp
qed

lemma rerender_parts:
  "rerender c c' ws w = Inr w' \<Longrightarrow> ctl w' = c' \<and> tree_view w' = tree_view w"
  by (auto simp: rerender_def split: sum.splits)

lemma ws_step_shape:
  assumes "ws_step parse w e = Inr w'"
  shows "doc_skeleton (docStructure (st (ctl w'))) = doc_skeleton (docStructure (st (ctl w)))
    \<and> (view_ok (docStructure (st (ctl w))) (tree_view w) \<longrightarrow> view_ok (docStructure (st (ctl w'))) (tree_view w'))"
proof (cases e)
  case (Ctrl u)
  with assms obtain c' where s: "ctrl_step parse (ctl w) u = Inr c'"
    and r: "rerender (ctl w) c' (step_writes parse (ctl w) u) w = Inr w'"
    by (auto simp: bind_r_eq_Inr)
  have sk: "doc_skeleton (docStructure (st c')) = doc_skeleton (docStructure (st (ctl w)))"
    by (rule ctrl_step_keeps_shape [OF s])
  then show ?thesis using rerender_parts [OF r] view_ok_skeleton
    by (metis)
next
  case (ClickRow r)
  then show ?thesis using assms
    by (auto simp: Let_def click_view_ok dest!: rerender_parts split: option.splits)
next
  case ClickSave
  then show ?thesis using assms
  proof (cases "selected_node (ctl w)")
    case (Inr node)
    show ?thesis
    proof (cases "save_visible node (viewer_st w)")
      case True
      obtain out v' where hs: "handle_save (selected (ctl w)) (viewer_st w) = (out, v')" by fastforce
      show ?thesis
      proof (cases "\<exists>p body. out = Some (JStr p, body)")
        case True
        then obtain p body where o: "out = Some (JStr p, body)" by blast
        with assms ClickSave Inr \<open>save_visible node (viewer_st w)\<close> hs obtain c' where
          s: "ctrl_step parse (ctl w) (SaveFile p body) = Inr c'"
          and r: "rerender (ctl w) c' [p] (w\<lparr>viewer_st := v'\<rparr>) = Inr w'"
          by (auto simp: bind_r_eq_Inr)
        have "doc_skeleton (docStructure (st c')) = doc_skeleton (docStructure (st (ctl w)))"
          by (rule ctrl_step_keeps_shape [OF s])
        then show ?thesis using rerender_parts [OF r] view_ok_skeleton by (metis workspace.select_convs(2) workspace.surjective workspace.update_convs(3))
      next
        case False
        with assms ClickSave Inr \<open>save_visible node (viewer_st w)\<close> hs have "w' = w\<lparr>viewer_st := v'\<rparr>"
          by (cases out) (auto split: prod.splits json.splits)
        then show ?thesis by simp
      qed
    qed (use assms ClickSave Inr in auto)
  qed (use assms in auto)
qed (use assms in \<open>auto split: sum.splits if_splits\<close>)

subsection \<open>A sample workspace\<close>

text \<open>The sample session of the controller over the small tree of the tree
  view, with \<open>docs/README.md\<close> selected and edited but not saved, and a
  \<open>JSON.parse\<close> whose payload writes \<open>docs/api/spec.md\<close>.\<close>

definition sample_ws :: workspace where
  "sample_ws =
     \<lparr>ctl = sample_session\<lparr>st := (st sample_session)\<lparr>docStructure := sample_tree\<rparr>,
                            selected := Some (JStr ''docs/README.md'')\<rparr>,
      tree_view = mount_tree_node sample_tree 0,
      viewer_st = \<lparr>viewMode = Source, editedContent = ''# Hi, edited'', isDirty = True\<rparr>\<rparr>"

definition spec_payload :: json where
  "spec_payload = JObj [(''updatedSchema'', JObj []), (''autoContinue'', JBool False),
     (''fileUpdate'', JObj [(''fileName'', JStr ''docs/api/spec.md''), (''content'', JStr ''# Spec'')])]"

definition numeric_payload :: json where
  "numeric_payload = JObj [(''updatedSchema'', JObj []), (''autoContinue'', JBool False),
     (''fileUpdate'', JObj [(''fileName'', JNum 7), (''content'', JStr [])])]"

lemma sample_ws_events:
  "cycle_events (\<lambda>s. Inr pl) (ctl sample_ws) 0 (Inr (''Done'' @ JSON_RESPONSE_SEPARATOR @ ''{}''))
     = [Chunk ''Done'', Update pl]" if "pl \<in> {spec_payload, numeric_payload}"
  using that by (auto simp: spec_payload_def numeric_payload_def sample_ws_def sample_session_def initial_ctrl_def cycle_events_def stream_agent_cycle_def
      process_buffer_def index_of_def JSON_RESPONSE_SEPARATOR_def strip_fence_def fence_match_def fence_def
      js_trim_def is_ws_def validate_payload_def Let_def)

subsection \<open>Properties of the workspace\<close>

text \<open>In every reachable workspace the document tree stays well-formed
  with the seed tree's skeleton, and the mounted tree instances mirror it, so
  every row click reaches the node the row shows.\<close>

theorem tree_view_mirrors_documents:
  assumes "ws_reachable parse w"
  shows "wf_tree (docStructure (st (ctl w))) \<and> view_ok (docStructure (st (ctl w))) (tree_view w)"
proof -
  have "doc_skeleton (docStructure (st (ctl w))) = doc_skeleton documentationStructure
        \<and> view_ok (docStructure (st (ctl w))) (tree_view w)"
    using assms
  proof (induction rule: ws_reachable.induct)
    case init
    show ?case by (simp add: initial_workspace_def initial_ctrl_def initial_app_state_def mount_view_ok)
  next
    case (step w e w')
    then show ?case using ws_step_shape [OF step.hyps(2)] by simp
  qed
  then show ?thesis using skeleton_eq_shape seed_tree_wf by metis
qed

theorem tree_view_mirrors_documents_witness:
  "ws_reachable sample_parser initial_workspace
   \<and> wf_tree (docStructure (st (ctl initial_workspace)))
   \<and> view_ok (docStructure (st (ctl initial_workspace))) (tree_view initial_workspace)"
  using tree_view_mirrors_documents [OF ws_reachable.init [of sample_parser]] ws_reachable.init by simp

text \<open>C15. A cycle whose update writes a non-empty body to an existing file
  selects that file and resets the viewer to it, in preview and clean:
  whatever file the user was editing, and whatever unsaved text the editor
  held, is discarded without a prompt.\<close>

theorem agent_update_discards_edits:
  assumes "wf_tree (docStructure (st (ctl w)))"
    and "cycle_events parse (ctl w) k out = [Chunk ch, Update pl]"
    and "opt_prop (opt_prop (Some pl) ''fileUpdate'') ''fileName'' = Some (JStr q)"
    and "opt_prop (opt_prop (Some pl) ''fileUpdate'') ''content'' = Some (JStr body)" "body \<noteq> []"
    and "find_node_by_path (docStructure (st (ctl w))) q = Some (DocFile n d x)"
  shows "\<exists>w'. ws_step parse w (Ctrl (Respond k out)) = Inr w' \<and> selected (ctl w') = Some (JStr q)
           \<and> viewer_st w' = \<lparr>viewMode = Preview, editedContent = body, isDirty = False\<rparr>"
proof -
  let ?T = "docStructure (st (ctl w))"
  have q: "q \<noteq> []" using assms(6) by (auto simp: find_node_by_path_def)
  have af: "apply_file_update ?T (opt_prop (Some pl) ''fileUpdate'') = Inr (find_and_update_file ?T q body)"
    using apply_file_update_write [OF assms(3) q assms(4,5)] .
  obtain c' where h: "handle_events [] [Chunk ch, Update pl]
        ((ctl w)\<lparr>inflight := filter (\<lambda>x. fst x \<noteq> k) (inflight (ctl w))\<rparr>) = Inr c'"
      and t: "docStructure (st c') = find_and_update_file ?T q body" and s: "selected c' = Some (JStr q)"
  proof -
    have "apply_file_update (docStructure (st ((ctl w)\<lparr>inflight := filter (\<lambda>x. fst x \<noteq> k) (inflight (ctl w))\<rparr>)))
        (opt_prop (Some pl) ''fileUpdate'') = Inr (find_and_update_file ?T q body)" using af by simp
    from handle_chunk_update [OF this payload_not_null [OF assms(3)], of "[]" ch] that assms(3) q show ?thesis
      by auto
  qed
  have step: "ctrl_step parse (ctl w) (Respond k out) = Inr c'"
    using respond_events [OF assms(2)] h by simp
  have found: "find_node_by_path (docStructure (st c')) q = Some (DocFile n d body)"
    using resolve_after_update [OF wf_tree_no_slash [OF assms(1)] assms(6)] t by simp
  have writes: "step_writes parse (ctl w) (Respond k out) = [q]"
    using assms(2-5) q by (simp add: step_writes_def event_writes_def update_target_def)
  have rep: "node_replaced (ctl w) c' [q]"
    using node_replaced_written [OF node_key_str_file [OF s found]] by simp
  have "ws_step parse w (Ctrl (Respond k out)) =
          Inr (w\<lparr>ctl := c', viewer_st := node_effect (Some (DocFile n d body)) (viewer_st w)\<rparr>)"
    using step writes rep rerender_Inr [of c' "Some (DocFile n d body)"] s found by simp
  then show ?thesis using s by simp
qed

theorem agent_update_discards_edits_witness:
  "wf_tree (docStructure (st (ctl sample_ws)))
   \<and> cycle_events (\<lambda>s. Inr spec_payload) (ctl sample_ws) 0 (Inr (''Done'' @ JSON_RESPONSE_SEPARATOR @ ''{}''))
       = [Chunk ''Done'', Update spec_payload]
   \<and> opt_prop (opt_prop (Some spec_payload) ''fileUpdate'') ''fileName'' = Some (JStr ''docs/api/spec.md'')
   \<and> opt_prop (opt_prop (Some spec_payload) ''fileUpdate'') ''content'' = Some (JStr ''# Spec'')
   \<and> find_node_by_path (docStructure (st (ctl sample_ws))) ''docs/api/spec.md'' = Some (DocFile ''spec.md'' ''Spec'' '''')
   \<and> isDirty (viewer_st sample_ws)
   \<and> (\<exists>w'. ws_step (\<lambda>s. Inr spec_payload) sample_ws (Ctrl (Respond 0 (Inr (''Done'' @ JSON_RESPONSE_SEPARATOR @ ''{}'')))) = Inr w'
        \<and> selected (ctl w') = Some (JStr ''docs/api/spec.md'')
        \<and> viewer_st w' = \<lparr>viewMode = Preview, editedContent = ''# Spec'', isDirty = False\<rparr>)"
proof -
  have wf: "wf_tree (docStructure (st (ctl sample_ws)))"
    by (simp add: sample_ws_def sample_tree_def slash_def)
  have ev: "cycle_events (\<lambda>s. Inr spec_payload) (ctl sample_ws) 0 (Inr (''Done'' @ JSON_RESPONSE_SEPARATOR @ ''{}''))
       = [Chunk ''Done'', Update spec_payload]"
    by (rule sample_ws_events) simp
  have fn: "opt_prop (opt_prop (Some spec_payload) ''fileUpdate'') ''fileName'' = Some (JStr ''docs/api/spec.md'')"
    and bd: "opt_prop (opt_prop (Some spec_payload) ''fileUpdate'') ''content'' = Some (JStr ''# Spec'')"
    by (simp_all add: spec_payload_def)
  have fd: "find_node_by_path (docStructure (st (ctl sample_ws))) ''docs/api/spec.md'' = Some (DocFile ''spec.md'' ''Spec'' '''')"
    by (simp add: sample_ws_def sample_tree_def find_node_by_path_def slash_def)
  have dirty: "isDirty (viewer_st sample_ws)" by (simp add: sample_ws_def)
  show ?thesis using agent_update_discards_edits [OF wf ev fn bd _ fd] wf ev fn bd fd dirty by simp
qed

text \<open>C21. Editing the shown file in source mode and clicking Save writes the
  text to that file; the new file object makes the viewer reload it, so it
  shows the saved text in preview, clean.\<close>

theorem save_roundtrip:
  assumes "selected (ctl w) = Some (JStr q)"
    and "find_node_by_path (docStructure (st (ctl w))) q = Some (DocFile n d x)"
    and "no_slash (docStructure (st (ctl w)))" "viewMode (viewer_st w) = Source" "s \<noteq> x"
  shows "\<exists>w'. ws_run parse w [EditContent s, ClickSave] = Inr w'
           \<and> find_node_by_path (docStructure (st (ctl w'))) q = Some (DocFile n d s)
           \<and> viewer_st w' = \<lparr>viewMode = Preview, editedContent = s, isDirty = False\<rparr>"
proof -
  let ?T = "docStructure (st (ctl w))"
  let ?v1 = "(viewer_st w)\<lparr>editedContent := s, isDirty := True\<rparr>"
  let ?w1 = "w\<lparr>viewer_st := ?v1\<rparr>"
  have q: "q \<noteq> []" using assms(2) by (auto simp: find_node_by_path_def)
  have e1: "ws_step parse w (EditContent s) = Inr ?w1"
    using assms by (simp add: shows_file_def)
  let ?c' = "(ctl w)\<lparr>st := (st (ctl w))\<lparr>docStructure := find_and_update_file ?T q s\<rparr>\<rparr>"
  have sv: "ctrl_step parse (ctl w) (SaveFile q s) = Inr ?c'"
    using q by (simp add: dispatch_def)
  have found: "find_node_by_path (docStructure (st ?c')) q = Some (DocFile n d s)"
    using resolve_after_update [OF assms(3) assms(2)] by simp
  have rep: "node_replaced (ctl w) ?c' [q]"
    by (rule node_replaced_written [OF node_key_str_file [of ?c' q]]) (use assms(1) found in simp_all)
  have e2: "ws_step parse ?w1 ClickSave =
      Inr (?w1\<lparr>viewer_st := ?v1\<lparr>isDirty := False\<rparr>, ctl := ?c',
           viewer_st := node_effect (Some (DocFile n d s)) (?v1\<lparr>isDirty := False\<rparr>)\<rparr>)"
    using assms(1,2,4) q sv found rep rerender_Inr [of ?c' "Some (DocFile n d s)" "ctl w" "[q]"]
    by (simp add: save_visible_iff shows_file_def handle_save_def)
  show ?thesis using e1 e2 found by simp
qed

theorem save_roundtrip_witness:
  "selected (ctl sample_ws) = Some (JStr ''docs/README.md'')
   \<and> find_node_by_path (docStructure (st (ctl sample_ws))) ''docs/README.md'' = Some (DocFile ''README.md'' ''Readme'' ''# Hi'')
   \<and> no_slash (docStructure (st (ctl sample_ws))) \<and> viewMode (viewer_st sample_ws) = Source
   \<and> (\<exists>w'. ws_run sample_parser sample_ws [EditContent ''# Hello'', ClickSave] = Inr w'
        \<and> find_node_by_path (docStructure (st (ctl w'))) ''docs/README.md'' = Some (DocFile ''README.md'' ''Readme'' ''# Hello'')
        \<and> viewer_st w' = \<lparr>viewMode = Preview, editedContent = ''# Hello'', isDirty = False\<rparr>)"
proof -
  have h1: "selected (ctl sample_ws) = Some (JStr ''docs/README.md'')" by (simp add: sample_ws_def)
  have h2: "find_node_by_path (docStructure (st (ctl sample_ws))) ''docs/README.md'' = Some (DocFile ''README.md'' ''Readme'' ''# Hi'')"
    by (simp add: sample_ws_def sample_tree_def find_node_by_path_def slash_def)
  have h3: "no_slash (docStructure (st (ctl sample_ws)))" by (simp add: sample_ws_def sample_tree_def slash_def)
  have h4: "viewMode (viewer_st sample_ws) = Source" by (simp add: sample_ws_def)
  show ?thesis using save_roundtrip [OF h1 h2 h3 h4, of "''# Hello''" sample_parser] h1 h2 h3 h4 by simp
qed

text \<open>Clicking the row of a file selects its path; the viewer then shows
  that file afresh, in preview and clean, unless it was already the file
  shown, in which case the editor keeps its state.\<close>

theorem click_row_shows_file:
  assumes "route_row r (docStructure (st (ctl w))) (tree_view w) (name (docStructure (st (ctl w)))) = Some q"
    and "find_node_by_path (docStructure (st (ctl w))) q = Some (DocFile n d x)"
  shows "\<exists>w'. ws_step parse w (ClickRow r) = Inr w' \<and> selected (ctl w') = Some (JStr q)
           \<and> viewer_st w' = (if node_key (ctl w) = Some q then viewer_st w
                             else \<lparr>viewMode = Preview, editedContent = x, isDirty = False\<rparr>)"
proof -
  let ?c' = "(ctl w)\<lparr>selected := Some (JStr q)\<rparr>"
  have k: "node_key ?c' = Some q" using assms(2) by (simp add: node_key_str_file)
  have rep: "node_replaced (ctl w) ?c' [] \<longleftrightarrow> node_key (ctl w) \<noteq> Some q"
    using k by (cases "node_key (ctl w)") (auto simp: node_replaced_def)
  show ?thesis using assms rep rerender_Inr [of ?c' "Some (DocFile n d x)" "ctl w" "[]"] by (auto simp: Let_def)
qed

theorem click_row_shows_file_witness:
  "route_row [1, 0] (docStructure (st (ctl sample_ws))) (tree_view sample_ws) (name (docStructure (st (ctl sample_ws))))
     = Some ''docs/api/spec.md''
   \<and> find_node_by_path (docStructure (st (ctl sample_ws))) ''docs/api/spec.md'' = Some (DocFile ''spec.md'' ''Spec'' '''')
   \<and> (\<exists>w'. ws_step sample_parser sample_ws (ClickRow [1, 0]) = Inr w' \<and> selected (ctl w') = Some (JStr ''docs/api/spec.md'')
        \<and> viewer_st w' = \<lparr>viewMode = Preview, editedContent = '''', isDirty = False\<rparr>)"
proof -
  have h1: "route_row [1, 0] (docStructure (st (ctl sample_ws))) (tree_view sample_ws) (name (docStructure (st (ctl sample_ws))))
     = Some ''docs/api/spec.md''"
    by (simp add: sample_ws_def sample_tree_def child_path_def slash_def)
  have h2: "find_node_by_path (docStructure (st (ctl sample_ws))) ''docs/api/spec.md'' = Some (DocFile ''spec.md'' ''Spec'' '''')"
    by (simp add: sample_ws_def sample_tree_def find_node_by_path_def slash_def)
  have k: "node_key (ctl sample_ws) = Some ''docs/README.md''"
    by (simp add: sample_ws_def sample_tree_def node_key_def find_node_by_path_def slash_def)
  show ?thesis using click_row_shows_file [OF h1 h2, of sample_parser] h1 h2 k by simp
qed

text \<open>C16. A cycle whose update names the file by a number and has an empty
  body passes the reducer (the body is falsy, so nothing is written), but
  the controller stores the number as the selected path, and the next render
  of the application throws in \<open>findNodeByPath\<close>.\<close>

theorem numeric_file_name_crashes_render:
  assumes "cycle_events parse (ctl w) k out = [Chunk ch, Update pl]"
    and "opt_prop (opt_prop (Some pl) ''fileUpdate'') ''fileName'' = Some (JNum i)" "i \<noteq> 0"
    and "\<not> truthy (opt_prop (opt_prop (Some pl) ''fileUpdate'') ''content'')"
  shows "ws_step parse w (Ctrl (Respond k out)) = Inl (Thrown (TypeError ''path.split is not a function''))"
proof -
  let ?T = "docStructure (st (ctl w))"
  have af: "apply_file_update ?T (opt_prop (Some pl) ''fileUpdate'') = Inr ?T"
    using assms(2,4) by (simp add: apply_file_update_def Let_def)
  obtain c' where h: "handle_events [] [Chunk ch, Update pl]
        ((ctl w)\<lparr>inflight := filter (\<lambda>x. fst x \<noteq> k) (inflight (ctl w))\<rparr>) = Inr c'"
      and s: "selected c' = Some (JNum i)"
  proof -
    have "apply_file_update (docStructure (st ((ctl w)\<lparr>inflight := filter (\<lambda>x. fst x \<noteq> k) (inflight (ctl w))\<rparr>)))
        (opt_prop (Some pl) ''fileUpdate'') = Inr (docStructure (st ((ctl w)\<lparr>inflight := filter (\<lambda>x. fst x \<noteq> k) (inflight (ctl w))\<rparr>)))"
      using af by simp
    from handle_chunk_update [OF this payload_not_null [OF assms(2)], of "[]" ch] that assms(2,3) show ?thesis
      by auto
  qed
  have step: "ctrl_step parse (ctl w) (Respond k out) = Inr c'"
    using respond_events [OF assms(1)] h by simp
  have "selected_node c' = Inl (TypeError ''path.split is not a function'')"
    using s assms(3) by (simp add: selected_node_def)
  then show ?thesis using step by (simp add: rerender_def)
qed

theorem numeric_file_name_crashes_render_witness:
  "cycle_events (\<lambda>s. Inr numeric_payload) (ctl sample_ws) 0 (Inr (''Done'' @ JSON_RESPONSE_SEPARATOR @ ''{}''))
       = [Chunk ''Done'', Update numeric_payload]
   \<and> opt_prop (opt_prop (Some numeric_payload) ''fileUpdate'') ''fileName'' = Some (JNum 7)
   \<and> \<not> truthy (opt_prop (opt_prop (Some numeric_payload) ''fileUpdate'') ''content'')
   \<and> ws_step (\<lambda>s. Inr numeric_payload) sample_ws (Ctrl (Respond 0 (Inr (''Done'' @ JSON_RESPONSE_SEPARATOR @ ''{}''))))
       = Inl (Thrown (TypeError ''path.split is not a function''))"
proof -
  have ev: "cycle_events (\<lambda>s. Inr numeric_payload) (ctl sample_ws) 0 (Inr (''Done'' @ JSON_RESPONSE_SEPARATOR @ ''{}''))
       = [Chunk ''Done'', Update numeric_payload]"
    by (rule sample_ws_events) simp
  have fn: "opt_prop (opt_prop (Some numeric_payload) ''fileUpdate'') ''fileName'' = Some (JNum 7)"
    and bd: "\<not> truthy (opt_prop (opt_prop (Some numeric_payload) ''fileUpdate'') ''content'')"
    by (simp_all add: numeric_payload_def)
  show ?thesis using numeric_file_name_crashes_render [OF ev fn _ bd] ev fn bd by simp
qed

end
