(* ===== verification/ChatPanel.thy ===== *)
theory ChatPanel
  imports Types
begin

text \<open>
  The chat panel (\<open>src/components/ChatPanel.tsx\<close>): the regular expression
  that recognises the three follow-up questions the system instruction asks
  the model to end its chat text with (\<open>src/services/geminiService.ts\<close>), the
  text and buttons it renders per message, and its two handlers.  The
  expression is matched the way a backtracking matcher does: the leftmost
  position from which the pattern matches up to the end of the text (\<open>$\<close>
  without the \<open>m\<close> flag).  Each \<open>\s*\<close> is followed by a literal that starts
  with a non-space character, so it always consumes every space there is.
  Non-ASCII characters are written as their UTF-8 bytes, as in the rest of
  the development, and \<open>\s\<close> is the ASCII white space of \<open>is_ws\<close>.
\<close>

subsection \<open>Definitions\<close>

definition magnifier :: string where
  "magnifier = [CHR 0xF0, CHR 0x9F, CHR 0x94, CHR 0x8D]"

definition telescope :: string where
  "telescope = [CHR 0xF0, CHR 0x9F, CHR 0x94, CHR 0xAD]"

definition dart :: string where
  "dart = [CHR 0xF0, CHR 0x9F, CHR 0x8E, CHR 0xAF]"

text \<open>The three questions as the system instruction writes them, one per line.\<close>

definition prompt_suggestions :: string where
  "prompt_suggestions = magnifier @ '' [Investigation?]'' @ [nl] @ telescope @ '' [Exploration?]'' @ [nl]
     @ dart @ '' [Exploitation?]''"

definition strip_lit :: "string \<Rightarrow> string \<Rightarrow> string option" where
  "strip_lit lit s = (if prefix lit s then Some (drop (length lit) s) else None)"

definition skip_ws :: "string \<Rightarrow> string" where
  "skip_ws s = dropWhile is_ws s"

text \<open>\<open>suggestionRegex\<close> anchored at the start of its argument.\<close>

definition suggestion_tail :: "string \<Rightarrow> bool" where
  "suggestion_tail s =
     (case strip_lit magnifier s of None \<Rightarrow> False | Some s1 \<Rightarrow>
      case strip_lit ''[Investigation?]'' (skip_ws s1) of None \<Rightarrow> False | Some s2 \<Rightarrow>
      case strip_lit telescope (skip_ws s2) of None \<Rightarrow> False | Some s3 \<Rightarrow>
      case strip_lit ''[Exploration?]'' (skip_ws s3) of None \<Rightarrow> False | Some s4 \<Rightarrow>
      case strip_lit dart (skip_ws s4) of None \<Rightarrow> False | Some s5 \<Rightarrow>
      case strip_lit ''[Exploitation?]'' (skip_ws s5) of None \<Rightarrow> False | Some s6 \<Rightarrow> s6 = [])"

text \<open>\<open>msg.content.match(suggestionRegex)\<close>: the index of the match, if any.\<close>

definition suggestion_match :: "string \<Rightarrow> nat option" where
  "suggestion_match s = find (\<lambda>i. suggestion_tail (drop i s)) [0..<Suc (length s)]"

text \<open>One message of the history: the text shown and whether the three
  suggestion buttons are there.  Only the last message, and only an
  assistant's, is matched; a match is cut off (\<open>replace\<close> removes the first
  match) and the rest trimmed; the buttons are hidden while loading.\<close>

definition chat_message_view :: "bool \<Rightarrow> bool \<Rightarrow> message \<Rightarrow> string \<times> bool" where
  "chat_message_view loading is_last msg =
     (case (if is_last \<and> author msg = ''assistant'' then suggestion_match (content msg) else None) of
        Some i \<Rightarrow> (js_trim (take i (content msg)), \<not> loading)
      | None \<Rightarrow> (content msg, False))"

text \<open>The panel: each message with its author, the typing indicator, and the
  Stop button in place of Send while loading.\<close>

record chat_view =
  chat_items :: "(string \<times> string \<times> bool) list"
  typing_indicator :: bool
  stop_button :: bool

definition chat_panel_view :: "bool \<Rightarrow> message list \<Rightarrow> chat_view" where
  "chat_panel_view loading history =
     \<lparr>chat_items = map (\<lambda>(i, msg). (author msg, chat_message_view loading (i = length history - 1) msg))
                    (enumerate 0 history),
      typing_indicator = loading, stop_button = loading\<rparr>"

text \<open>\<open>handleSubmit\<close>: the message sent (if any) and the new input value.\<close>

definition chat_submit :: "bool \<Rightarrow> string \<Rightarrow> string option \<times> string" where
  "chat_submit loading input =
     (if js_trim input \<noteq> [] \<and> \<not> loading then (Some (js_trim input), []) else (None, input))"

text \<open>\<open>handleSuggestionClick\<close>.\<close>

definition chat_suggestion_click :: "bool \<Rightarrow> string \<Rightarrow> string option" where
  "chat_suggestion_click loading s = (if loading then None else Some s)"

subsection \<open>Lemmas\<close>

lemma strip_lit_Some: "strip_lit l s = Some r \<Longrightarrow> s = l @ r"
  by (auto simp: strip_lit_def prefix_def split: if_splits)

lemma skip_ws_suffix: "\<exists>w. s = w @ skip_ws s"
  unfolding skip_ws_def by (metis takeWhile_dropWhile_id)

lemma suggestion_tail_shape:
  assumes "suggestion_tail s"
  shows "\<exists>r. s = magnifier @ r \<and> suffix ''[Exploitation?]'' s"
proof -
  from assms obtain s1 s2 s3 s4 s5 where
    e1: "strip_lit magnifier s = Some s1"
    and e2: "strip_lit ''[Investigation?]'' (skip_ws s1) = Some s2"
    and e3: "strip_lit telescope (skip_ws s2) = Some s3"
    and e4: "strip_lit ''[Exploration?]'' (skip_ws s3) = Some s4"
    and e5: "strip_lit dart (skip_ws s4) = Some s5"
    and e6: "strip_lit ''[Exploitation?]'' (skip_ws s5) = Some []"
    unfolding suggestion_tail_def by (auto split: option.splits)
  have "suffix ''[Exploitation?]'' (skip_ws s5)" using strip_lit_Some [OF e6] by simp
  also have "suffix (skip_ws s5) s5" using skip_ws_suffix [of s5] by (auto simp: suffix_def)
  also have "suffix s5 (skip_ws s4)" using strip_lit_Some [OF e5] by (simp add: suffix_def)
  also have "suffix (skip_ws s4) s4" using skip_ws_suffix [of s4] by (auto simp: suffix_def)
  also have "suffix s4 (skip_ws s3)" using strip_lit_Some [OF e4] by (simp add: suffix_def)
  also have "suffix (skip_ws s3) s3" using skip_ws_suffix [of s3] by (auto simp: suffix_def)
  also have "suffix s3 (skip_ws s2)" using strip_lit_Some [OF e3] by (simp add: suffix_def)
  also have "suffix (skip_ws s2) s2" using skip_ws_suffix [of s2] by (auto simp: suffix_def)
  also have "suffix s2 (skip_ws s1)" using strip_lit_Some [OF e2] by (simp add: suffix_def)
  also have "suffix (skip_ws s1) s1" using skip_ws_suffix [of s1] by (auto simp: suffix_def)
  also have "suffix s1 s" using strip_lit_Some [OF e1] by (simp add: suffix_def)
  finally show ?thesis using strip_lit_Some [OF e1] by blast
qed

lemma suggestion_tail_last:
  "suggestion_tail s \<Longrightarrow> s \<noteq> [] \<and> last s = CHR '']''"
  using suggestion_tail_shape [of s] by (auto simp: suffix_def)

lemma suggestion_tail_hd:
  "suggestion_tail s \<Longrightarrow> s \<noteq> [] \<and> hd s = CHR 0xF0"
  using suggestion_tail_shape [of s] by (auto simp: magnifier_def)

lemma js_trim_append_ws:
  assumes "list_all is_ws w" "js_trim t = t"
  shows "js_trim (t @ w) = t"
proof (cases "\<exists>x \<in> set t. \<not> is_ws x")
  case True
  then obtain x where x: "x \<in> set t" "\<not> is_ws x" by blast
  have d: "dropWhile is_ws (t @ w) = dropWhile is_ws t @ w"
    using dropWhile_append1 [where P = is_ws, OF x] .
  have "dropWhile is_ws (rev w @ rev (dropWhile is_ws t)) = dropWhile is_ws (rev (dropWhile is_ws t))"
    using assms(1) by (intro dropWhile_append2) (simp add: list_all_iff)
  then show ?thesis using assms(2) d by (simp add: js_trim_def)
next
  case False
  then have "dropWhile is_ws (t @ w) = []"
    using assms(1) dropWhile_eq_Nil_conv [of is_ws "t @ w"] by (auto simp: list_all_iff)
  moreover have "t = []"
  proof -
    have "dropWhile is_ws t = []" using False dropWhile_eq_Nil_conv [of is_ws t] by blast
    then have "js_trim t = []" unfolding js_trim_def by (metis rev.simps(1) dropWhile.simps(1))
    then show ?thesis using assms(2) by simp
  qed
  ultimately show ?thesis unfolding js_trim_def by (metis rev.simps(1) dropWhile.simps(1))
qed

lemma no_suggestion_after_non_bracket:
  assumes "c \<noteq> CHR '']''"
  shows "suggestion_match (s @ [c]) = None"
proof -
  have "\<not> suggestion_tail (drop i (s @ [c]))" for i
  proof
    assume "suggestion_tail (drop i (s @ [c]))"
    from suggestion_tail_last [OF this] have ne: "drop i (s @ [c]) \<noteq> []" and l: "last (drop i (s @ [c])) = CHR '']''"
      by simp_all
    from ne have "i < length (s @ [c])" by (metis drop_eq_Nil not_le_imp_less)
    then have "last (drop i (s @ [c])) = c" by (metis last_drop last_snoc)
    with l assms show False by simp
  qed
  then show ?thesis by (simp add: suggestion_match_def find_None_iff)
qed

lemma suggestion_tail_prompt: "suggestion_tail prompt_suggestions"
  by (simp add: suggestion_tail_def prompt_suggestions_def strip_lit_def skip_ws_def magnifier_def
      telescope_def dart_def is_ws_def nl_def)

subsection \<open>Properties of the chat panel\<close>

text \<open>C17. When the assistant's last message ends with a line break (or any
  character other than the closing bracket of the last question), the
  suggestion buttons never appear and the question block stays in the text:
  the pattern ends in \<open>$\<close> and the text is matched untrimmed.\<close>

theorem trailing_newline_hides_suggestions:
  "chat_message_view loading is_last \<lparr>author = a, content = s @ [nl]\<rparr> = (s @ [nl], False)"
proof -
  have "nl \<noteq> CHR '']''" by (simp add: nl_def)
  from no_suggestion_after_non_bracket [OF this, of s] show ?thesis
    by (simp add: chat_message_view_def)
qed

text \<open>The last assistant message that ends with the three questions laid
  out as the system instruction writes them is shown without them, trimmed,
  with the three suggestion buttons, when it is loaded (chat text free of
  four-byte characters, white space before the block).\<close>

theorem prompt_suggestions_shown:
  assumes "CHR 0xF0 \<notin> set t" "js_trim t = t" "list_all is_ws w"
  shows "chat_message_view False True \<lparr>author = ''assistant'', content = t @ w @ prompt_suggestions\<rparr> = (t, True)"
proof -
  let ?s = "t @ w @ prompt_suggestions"
  let ?k = "length (t @ w)"
  have early: "\<not> suggestion_tail (drop i ?s)" if "i < ?k" for i
  proof
    assume st: "suggestion_tail (drop i ?s)"
    have "hd (drop i ?s) = ?s ! i" using that by (intro hd_drop_conv_nth) simp
    moreover have "?s ! i = (t @ w) ! i" using that by (metis append.assoc nth_append)
    ultimately have "hd (drop i ?s) = (t @ w) ! i" by simp
    with suggestion_tail_hd [OF st] have "(t @ w) ! i = CHR 0xF0" by simp
    moreover have "(t @ w) ! i \<in> set t \<or> (t @ w) ! i \<in> set w" using that nth_mem [OF that] by simp
    moreover have "\<not> is_ws (CHR 0xF0)" by (simp add: is_ws_def)
    ultimately show False using assms(1,3) by (auto simp: list_all_iff)
  qed
  have "suggestion_tail (drop ?k ?s)" using suggestion_tail_prompt by simp
  then have m: "suggestion_match ?s = Some ?k"
    unfolding suggestion_match_def using early by (intro find_upt_least) simp_all
  have "js_trim (take ?k ?s) = t" using js_trim_append_ws [OF assms(3,2)] by simp
  with m show ?thesis by (simp add: chat_message_view_def)
qed

theorem prompt_suggestions_shown_witness:
  "CHR 0xF0 \<notin> set ''Here is the plan.'' \<and> js_trim ''Here is the plan.'' = ''Here is the plan.'' \<and> list_all is_ws [nl]
   \<and> chat_message_view False True \<lparr>author = ''assistant'', content = ''Here is the plan.'' @ [nl] @ prompt_suggestions\<rparr>
       = (''Here is the plan.'', True)"
proof -
  have h1: "CHR 0xF0 \<notin> set ''Here is the plan.''" by simp
  have h2: "js_trim ''Here is the plan.'' = ''Here is the plan.''" by (simp add: js_trim_def is_ws_def)
  have h3: "list_all is_ws [nl]" by (simp add: is_ws_def nl_def)
  show ?thesis using prompt_suggestions_shown [OF h1 h2 h3] h1 h2 h3 by simp
qed

end
