(* ===== verification/Settings.thy ===== *)
theory Settings
  imports Controller
begin

text \<open>
  The provider settings: the settings panel
  (\<open>src/components/SettingsPanel.tsx\<close>), whose two controls dispatch the
  controller's \<open>ChooseProvider\<close> and \<open>EnterKey\<close> events, and the two effects
  of \<open>src/App.tsx\<close> that keep the settings in \<open>localStorage\<close>.  The storage is
  a map from keys to strings; \<open>JSON.stringify\<close> is a parameter
  \<open>stringify\<close>, as \<open>JSON.parse\<close> is \<open>parse\<close>.  The object handed to
  \<open>JSON.stringify\<close> is built with its keys in a fixed order, which does not
  change what is read back.  The load effect is modelled as the list of
  actions it dispatches; a stored provider name other than the two of
  \<open>LLMProvider\<close>, or a stored key that is not a string, would put a value
  outside the declared types into the state, which the model does not
  represent (\<open>None\<close>).
\<close>

subsection \<open>Definitions\<close>

type_synonym local_storage = "string \<Rightarrow> string option"

definition eacute :: string where
  "eacute = [CHR 0xC3, CHR 0xA9]"

definition provider_name :: "llm_provider \<Rightarrow> string" where
  "provider_name p = (case p of Google \<Rightarrow> ''google'' | OpenRouter \<Rightarrow> ''openrouter'')"

definition provider_of_name :: "string \<Rightarrow> llm_provider option" where
  "provider_of_name n =
     (if n = ''google'' then Some Google else if n = ''openrouter'' then Some OpenRouter else None)"

text \<open>\<open>provider === 'google' ? 'Google Gemini' : 'OpenRouter'\<close>.\<close>

definition provider_label :: "llm_provider \<Rightarrow> string" where
  "provider_label p = (if p = Google then ''Google Gemini'' else ''OpenRouter'')"

text \<open>\<open>apiKeys[provider] || ''\<close>, the value of the key field.\<close>

definition settings_key_value :: "app_state \<Rightarrow> llm_provider \<Rightarrow> string" where
  "settings_key_value s p = (case apiKeys s p of Some k \<Rightarrow> k | None \<Rightarrow> [])"

record settings_view =
  sv_provider :: llm_provider
  sv_key_label :: string
  sv_key_value :: string
  sv_placeholder :: string
  sv_note :: string

definition settings_panel_view :: "app_state \<Rightarrow> settings_view" where
  "settings_panel_view s =
     (let p = llmProvider s in
      \<lparr>sv_provider = p,
       sv_key_label = ''Cl'' @ eacute @ '' d'' @ [apos] @ ''API '' @ provider_label p,
       sv_key_value = settings_key_value s p,
       sv_placeholder = ''Entrez votre cl'' @ eacute @ '' d'' @ [apos] @ ''API '' @ provider_label p,
       sv_note = (if p = OpenRouter
                  then '' Assurez-vous que votre cl'' @ eacute @ '' est valide et que votre compte OpenRouter a acc''
                       @ [CHR 0xC3, CHR 0xA8] @ ''s au mod'' @ [CHR 0xC3, CHR 0xA8] @ ''le `google/gemini-flash-1.5`.''
                  else [])
                 @ (if p = Google
                    then '' Votre cl'' @ eacute @ '' d'' @ [apos] @ ''API Google Gemini est n'' @ eacute
                         @ ''cessaire pour utiliser ce fournisseur.''
                    else [])\<rparr>)"

text \<open>The object \<open>JSON.stringify(state.apiKeys)\<close> serialises.\<close>

definition keys_json :: "(llm_provider \<Rightarrow> string option) \<Rightarrow> json" where
  "keys_json keys =
     JObj ((case keys Google of Some k \<Rightarrow> [(''google'', JStr k)] | None \<Rightarrow> [])
           @ (case keys OpenRouter of Some k \<Rightarrow> [(''openrouter'', JStr k)] | None \<Rightarrow> []))"

text \<open>The effect on \<open>[state.llmProvider, state.apiKeys]\<close>: both items written.\<close>

definition save_settings :: "(json \<Rightarrow> string) \<Rightarrow> app_state \<Rightarrow> local_storage \<Rightarrow> local_storage" where
  "save_settings stringify s ls =
     ls(''llmProvider'' \<mapsto> provider_name (llmProvider s), ''apiKeys'' \<mapsto> stringify (keys_json (apiKeys s)))"

text \<open>\<open>if (parsedKeys.p) dispatch(SET_API_KEY ...)\<close> for one provider.\<close>

definition key_action :: "llm_provider \<Rightarrow> json option \<Rightarrow> action list option" where
  "key_action p v =
     (if truthy v then (case v of Some (JStr k) \<Rightarrow> Some [SET_API_KEY p k] | _ \<Rightarrow> None) else Some [])"

text \<open>The mount effect: the actions dispatched, in order, until the end of the
  \<open>try\<close> block or the exception that the \<open>catch\<close> swallows (a stored text
  that \<open>JSON.parse\<close> rejects, or that parses to \<open>null\<close>).\<close>

definition load_settings :: "json_parser \<Rightarrow> local_storage \<Rightarrow> action list option" where
  "load_settings parse ls =
     (let provider_actions =
        (case ls ''llmProvider'' of
           None \<Rightarrow> Some []
         | Some n \<Rightarrow> if n = [] then Some [] else map_option (\<lambda>p. [SET_LLM_PROVIDER p]) (provider_of_name n));
      key_actions =
        (case ls ''apiKeys'' of
           None \<Rightarrow> Some []
         | Some txt \<Rightarrow>
             if txt = [] then Some []
             else (case parse txt of
                     Inl e \<Rightarrow> Some []
                   | Inr keys \<Rightarrow>
                       (case get_prop keys ''openrouter'' of
                          Inl e \<Rightarrow> Some []
                        | Inr ov \<Rightarrow>
                            (case key_action OpenRouter ov of
                               None \<Rightarrow> None
                             | Some a1 \<Rightarrow> map_option (\<lambda>a2. a1 @ a2)
                                            (key_action Google (opt_prop (Some keys) ''google''))))))
      in case (provider_actions, key_actions) of
           (Some a, Some b) \<Rightarrow> Some (a @ b)
         | _ \<Rightarrow> None)"

fun dispatch_all :: "app_state \<Rightarrow> action list \<Rightarrow> reducer_error + app_state" where
  "dispatch_all s [] = Inr s"
| "dispatch_all s (a # as) = bind_r (app_reducer s a) (\<lambda>s'. dispatch_all s' as)"

subsection \<open>Lemmas\<close>

lemma provider_of_name_inv [simp]: "provider_of_name (provider_name p) = Some p"
  by (cases p) (simp_all add: provider_of_name_def provider_name_def)

lemma provider_name_ne [simp]: "provider_name p \<noteq> []"
  by (cases p) (simp_all add: provider_name_def)

lemma dispatch_all_append:
  "dispatch_all s (as @ bs) = bind_r (dispatch_all s as) (\<lambda>s'. dispatch_all s' bs)"
  by (induction s as rule: dispatch_all.induct) (simp_all add: bind_r_def split: sum.splits)

lemma keys_json_google [simp]: "opt_prop (Some (keys_json k)) ''google'' = map_option JStr (k Google)"
  by (cases "k Google"; cases "k OpenRouter") (simp_all add: keys_json_def)

lemma keys_json_openrouter [simp]: "get_prop (keys_json k) ''openrouter'' = Inr (map_option JStr (k OpenRouter))"
  by (cases "k Google"; cases "k OpenRouter") (simp_all add: keys_json_def)

lemma key_action_str [simp]:
  "key_action p (map_option JStr k) = Some (case k of Some x \<Rightarrow> if x = [] then [] else [SET_API_KEY p x] | None \<Rightarrow> [])"
  by (cases k) (simp_all add: key_action_def)

lemma load_saved_settings:
  assumes "parse (stringify (keys_json (apiKeys s))) = Inr (keys_json (apiKeys s))"
    and "stringify (keys_json (apiKeys s)) \<noteq> []"
  shows "load_settings parse (save_settings stringify s ls) =
           Some ([SET_LLM_PROVIDER (llmProvider s)]
                 @ (case apiKeys s OpenRouter of Some x \<Rightarrow> if x = [] then [] else [SET_API_KEY OpenRouter x] | None \<Rightarrow> [])
                 @ (case apiKeys s Google of Some x \<Rightarrow> if x = [] then [] else [SET_API_KEY Google x] | None \<Rightarrow> []))"
  using assms by (simp add: load_settings_def save_settings_def)

lemma dispatch_key_action:
  "dispatch_all s (case k of Some x \<Rightarrow> if x = [] then [] else [SET_API_KEY p x] | None \<Rightarrow> []) =
     Inr (s\<lparr>apiKeys := (case k of Some x \<Rightarrow> if x = [] then apiKeys s else (apiKeys s)(p \<mapsto> x) | None \<Rightarrow> apiKeys s)\<rparr>)"
  by (cases k) (simp_all add: bind_r_def)

lemma settings_panel_view_sel [simp]:
  "sv_provider (settings_panel_view s) = llmProvider s"
  "sv_key_value (settings_panel_view s) = settings_key_value s (llmProvider s)"
  by (simp_all add: settings_panel_view_def Let_def)

lemma settings_panel_view_eq:
  "llmProvider s' = llmProvider s \<Longrightarrow> settings_key_value s' (llmProvider s) = settings_key_value s (llmProvider s)
     \<Longrightarrow> settings_panel_view s' = settings_panel_view s"
  by (simp add: settings_panel_view_def Let_def)

lemma provider_fun_eq: "f = g \<longleftrightarrow> f Google = g Google \<and> f OpenRouter = g OpenRouter"
  by (metis ext llm_provider.exhaust)

text \<open>What a reload rebuilds from the saved settings: the initial state with the
  saved provider and, for each provider, the key field's value.\<close>

lemma reload_settings_state:
  assumes "parse (stringify (keys_json (apiKeys s))) = Inr (keys_json (apiKeys s))"
    and "stringify (keys_json (apiKeys s)) \<noteq> []"
  shows "\<exists>as. load_settings parse (save_settings stringify s ls) = Some as
           \<and> dispatch_all s0 as =
               Inr (s0\<lparr>llmProvider := llmProvider s,
                       apiKeys := (\<lambda>p. case apiKeys s p of Some x \<Rightarrow> if x = [] then apiKeys s0 p else Some x
                                                       | None \<Rightarrow> apiKeys s0 p)\<rparr>)"
  using load_saved_settings [of parse stringify s ls] assms
  by (cases "apiKeys s Google"; cases "apiKeys s OpenRouter")
    (auto simp: bind_r_def dispatch_all_append provider_fun_eq)

lemma reloaded_view:
  assumes "apiKeys s0 = [Google \<mapsto> [], OpenRouter \<mapsto> []]"
  shows "settings_panel_view
           (s0\<lparr>llmProvider := llmProvider s,
               apiKeys := (\<lambda>p. case apiKeys s p of Some x \<Rightarrow> if x = [] then apiKeys s0 p else Some x
                                               | None \<Rightarrow> apiKeys s0 p)\<rparr>) = settings_panel_view s"
  using assms
  by (intro settings_panel_view_eq) (auto simp: settings_key_value_def split: option.splits llm_provider.splits)

text \<open>With no cycle running and a non-empty message, Send does nothing
  when the key field of the settings panel is empty (the alert), and
  otherwise starts a cycle with exactly the provider and key the panel
  shows.\<close>

theorem shown_key_starts_cycle:
  assumes "\<not> running c" "js_trim msg \<noteq> []"
  shows "(sv_key_value (settings_panel_view (st c)) = [] \<longrightarrow> handle_send_message msg c = Inr c)
       \<and> (sv_key_value (settings_panel_view (st c)) \<noteq> [] \<longrightarrow>
            (\<exists>c'. handle_send_message msg c = Inr c'
              \<and> inflight c' = inflight c @ [(next_cycle c, sv_provider (settings_panel_view (st c)),
                                             sv_key_value (settings_panel_view (st c)))]))"
  using assms send_starts_cycle [OF assms]
  by (auto simp: settings_key_value_def handle_send_message_def split: option.splits)


theorem shown_key_starts_cycle_witness:
  "\<not> running (initial_ctrl\<lparr>st := initial_app_state\<lparr>apiKeys := [Google \<mapsto> ''k'', OpenRouter \<mapsto> []]\<rparr>\<rparr>)
   \<and> js_trim ''hi'' \<noteq> []
   \<and> (\<exists>c'. handle_send_message ''hi'' (initial_ctrl\<lparr>st := initial_app_state\<lparr>apiKeys := [Google \<mapsto> ''k'', OpenRouter \<mapsto> []]\<rparr>\<rparr>) = Inr c'
         \<and> inflight c' = [(0, Google, ''k'')])"
proof -
  let ?c = "initial_ctrl\<lparr>st := initial_app_state\<lparr>apiKeys := [Google \<mapsto> ''k'', OpenRouter \<mapsto> []]\<rparr>\<rparr>"
  have h: "\<not> running ?c" "js_trim ''hi'' \<noteq> []"
    by (simp_all add: initial_ctrl_def js_trim_def is_ws_def)
  have "sv_key_value (settings_panel_view (st ?c)) = ''k''" "sv_provider (settings_panel_view (st ?c)) = Google"
    by (simp_all add: settings_key_value_def initial_app_state_def)
  then show ?thesis using shown_key_starts_cycle [OF h] h by (simp add: initial_ctrl_def)
qed

end
