(* ===== verification/AppShell.thy ===== *)
theory AppShell
  imports Settings "HOL-Library.Countable"
begin

text \<open>
  The application shell of \<open>src/App.tsx\<close> around the session controller:
  the tab bar (\<open>src/components/Tabs.tsx\<close> over \<open>TABS\<close>) and the panel the
  active tab shows, the header's two buttons (\<open>src/components/Header.tsx\<close>),
  the theme and its toggle, the alert of \<open>handleSendMessage\<close> that switches
  to the Settings tab when the provider has no key, and the two
  \<open>localStorage\<close> effects run at mount and after each change of the settings.
  A shell is mounted on a storage (the page load) and then steps on the
  user's and the network's events.
\<close>

subsection \<open>Definitions\<close>

record tab =
  tab_id :: string
  tab_label :: string
  tab_icon :: string

text \<open>\<open>TABS\<close>, with the icons and the accented label as the bytes the source
  file holds.\<close>

definition TABS :: "tab list" where
  "TABS =
     [\<lparr>tab_id = ''chat'', tab_label = ''Chat'',
       tab_icon = [CHR 0xEF, CHR 0xA3, CHR 0xBF, CHR 0xC3, CHR 0xBC, CHR 0xC3, CHR 0xAD, CHR 0xC2, CHR 0xA8]\<rparr>,
      \<lparr>tab_id = ''mission'', tab_label = ''Mission'',
       tab_icon = [CHR 0xE2, CHR 0x80, CHR 0x9A, CHR 0xC3, CHR 0xB6, CHR 0xC3, CHR 0xB4, CHR 0xC3, CHR 0x94,
                   CHR 0xE2, CHR 0x88, CHR 0x8F, CHR 0xC3, CHR 0xA8]\<rparr>,
      \<lparr>tab_id = ''reasoning'', tab_label = ''Raisonnement'',
       tab_icon = [CHR 0xEF, CHR 0xA3, CHR 0xBF, CHR 0xC3, CHR 0xBC, CHR 0xC3, CHR 0xAE, CHR 0xC2, CHR 0xA8]\<rparr>,
      \<lparr>tab_id = ''settings'', tab_label = ''Param'' @ [CHR 0xE2, CHR 0x88, CHR 0x9A, CHR 0xC2, CHR 0xAE] @ ''tres'',
       tab_icon = [CHR 0xEF, CHR 0xA3, CHR 0xBF, CHR 0xC3, CHR 0xBC, CHR 0xC3, CHR 0xAE, CHR 0xC3, CHR 0x9F]\<rparr>]"

text \<open>\<open>Tabs\<close>: one button per tab, its text \<open>{tab.icon} {tab.label}\<close> and its
  class \<open>active\<close> when \<open>activeTab === tab.id\<close>.\<close>

definition tabs_view :: "tab list \<Rightarrow> string \<Rightarrow> (string \<times> bool) list" where
  "tabs_view tabs active = map (\<lambda>t. (tab_icon t @ '' '' @ tab_label t, tab_id t = active)) tabs"

text \<open>The panels rendered under the tab bar: \<open>{activeTab === 'chat' && ...}\<close>
  and the three like it, in that order.\<close>

datatype tab_panel = ChatTab | MissionTab | ReasoningTab | SettingsTab settings_view

definition tab_panels :: "string \<Rightarrow> app_state \<Rightarrow> tab_panel list" where
  "tab_panels active s =
     (if active = ''chat'' then [ChatTab] else [])
     @ (if active = ''mission'' then [MissionTab] else [])
     @ (if active = ''reasoning'' then [ReasoningTab] else [])
     @ (if active = ''settings'' then [SettingsTab (settings_panel_view s)] else [])"

record shell =
  ctl :: ctrl
  activeTab :: string
  theme :: string
  storage :: local_storage

text \<open>\<open>localStorage.getItem('theme') || 'light'\<close>.\<close>

definition theme_of_storage :: "local_storage \<Rightarrow> string" where
  "theme_of_storage ls = (case ls ''theme'' of Some t \<Rightarrow> if t = [] then ''light'' else t | None \<Rightarrow> ''light'')"

text \<open>\<open>handleToggleTheme\<close>: \<open>light\<close> becomes \<open>dark\<close>, anything else \<open>light\<close>;
  the new theme is written to the storage.\<close>

definition toggle_theme :: "shell \<Rightarrow> shell" where
  "toggle_theme sh =
     (let t = (if theme sh = ''light'' then ''dark'' else ''light'') in
      sh\<lparr>theme := t, storage := (storage sh)(''theme'' \<mapsto> t)\<rparr>)"

definition dark_class :: "shell \<Rightarrow> bool" where
  "dark_class sh \<longleftrightarrow> theme sh = ''dark''"

text \<open>The call \<open>handleSendMessage(message, currentState)\<close> an event makes, with
  the controller state at that moment: a submitted message (\<open>ChatPanel\<close>
  trims it) or the pending prompt when the continuation timer fires.\<close>

definition send_target :: "ui_event \<Rightarrow> ctrl \<Rightarrow> (string \<times> ctrl) option" where
  "send_target e c =
     (case e of
        Submit input \<Rightarrow> if js_trim input \<noteq> [] \<and> \<not> isLoading (st c) then Some (js_trim input, c) else None
      | TimerFires \<Rightarrow>
          if timer_armed c \<and> \<not> running c
          then map_option (\<lambda>p. (p, set_next_auto None (c\<lparr>timer_armed := False\<rparr>))) (next_auto c)
          else None
      | _ \<Rightarrow> None)"

text \<open>The early return of \<open>handleSendMessage\<close> on a missing key, with its alert.\<close>

definition key_missing :: "string \<Rightarrow> ctrl \<Rightarrow> bool" where
  "key_missing msg c \<longleftrightarrow>
     js_trim msg \<noteq> [] \<and> \<not> running c \<and> settings_key_value (st c) (llmProvider (st c)) = []"

definition alert_text :: "llm_provider \<Rightarrow> string" where
  "alert_text p = ''Please set your '' @ provider_label p @ '' API key in the Settings tab.''"

definition send_alert :: "ui_event \<Rightarrow> ctrl \<Rightarrow> string option" where
  "send_alert e c =
     (case send_target e c of
        Some (m, c0) \<Rightarrow> if key_missing m c0 then Some (alert_text (llmProvider (st c0))) else None
      | None \<Rightarrow> None)"

text \<open>The save effect after a render: it runs when \<open>state.llmProvider\<close> or
  \<open>state.apiKeys\<close> has changed.  The model compares values where React
  compares identities; an unchanged value rewrites what the storage already
  holds.\<close>

definition persist :: "(json \<Rightarrow> string) \<Rightarrow> app_state \<Rightarrow> app_state \<Rightarrow> local_storage \<Rightarrow> local_storage" where
  "persist stringify s s' ls =
     (if llmProvider s' = llmProvider s \<and> apiKeys s' = apiKeys s then ls else save_settings stringify s' ls)"

datatype shell_event = UiEvent ui_event | ClickTab nat | ToggleTheme | DownloadScaffold

fun shell_step :: "json_parser \<Rightarrow> (json \<Rightarrow> string) \<Rightarrow> shell \<Rightarrow> shell_event \<Rightarrow> reducer_error + shell" where
  "shell_step parse stringify sh (UiEvent e) =
     bind_r (ctrl_step parse (ctl sh) e) (\<lambda>c'.
       Inr (sh\<lparr>ctl := c',
               activeTab := (if send_alert e (ctl sh) = None then activeTab sh else ''settings''),
               storage := persist stringify (st (ctl sh)) (st c') (storage sh)\<rparr>))"
| "shell_step parse stringify sh (ClickTab i) =
     Inr (if i < length TABS then sh\<lparr>activeTab := tab_id (TABS ! i)\<rparr> else sh)"
| "shell_step parse stringify sh ToggleTheme = Inr (toggle_theme sh)"
| "shell_step parse stringify sh DownloadScaffold = Inr sh"

text \<open>\<open>handleDownloadScaffold\<close>: the archive built from the current tree.\<close>

definition scaffold_archive :: "shell \<Rightarrow> zip_entry list" where
  "scaffold_archive sh = add_node_to_zip (docStructure (st (ctl sh))) []"

text \<open>The page load: the load effect reads the storage and dispatches, the
  save effect then runs on the initial state (its first run) and, the
  settings having changed, again on the loaded one.\<close>

definition shell_mount :: "json_parser \<Rightarrow> (json \<Rightarrow> string) \<Rightarrow> local_storage \<Rightarrow> shell option" where
  "shell_mount parse stringify ls =
     (case load_settings parse ls of
        None \<Rightarrow> None
      | Some as \<Rightarrow>
          (case dispatch_all initial_app_state as of
             Inl e \<Rightarrow> None
           | Inr s \<Rightarrow>
               Some \<lparr>ctl = initial_ctrl\<lparr>st := s\<rparr>, activeTab = ''chat'', theme = theme_of_storage ls,
                     storage = persist stringify initial_app_state s
                                 (save_settings stringify initial_app_state ls)\<rparr>))"

inductive shell_reachable :: "json_parser \<Rightarrow> (json \<Rightarrow> string) \<Rightarrow> shell \<Rightarrow> bool"
  for parse stringify where
  mount: "shell_mount parse stringify ls = Some sh \<Longrightarrow> shell_reachable parse stringify sh"
| step: "shell_reachable parse stringify sh \<Longrightarrow> shell_step parse stringify sh ev = Inr sh'
           \<Longrightarrow> shell_reachable parse stringify sh'"

text \<open>What the storage holds about the session: the saved settings of its state
  and the theme it shows.\<close>

definition settings_saved :: "(json \<Rightarrow> string) \<Rightarrow> shell \<Rightarrow> bool" where
  "settings_saved stringify sh \<longleftrightarrow>
     storage sh ''llmProvider'' = Some (provider_name (llmProvider (st (ctl sh))))
     \<and> storage sh ''apiKeys'' = Some (stringify (keys_json (apiKeys (st (ctl sh)))))
     \<and> theme sh = theme_of_storage (storage sh)"

fun shell_run :: "json_parser \<Rightarrow> (json \<Rightarrow> string) \<Rightarrow> shell \<Rightarrow> shell_event list \<Rightarrow> reducer_error + shell" where
  "shell_run parse stringify sh [] = Inr sh"
| "shell_run parse stringify sh (ev # evs) = bind_r (shell_step parse stringify sh ev) (\<lambda>sh'. shell_run parse stringify sh' evs)"

text \<open>A serialiser and its parser for the samples: any injective encoding
  does, here the one of the \<open>countable\<close> instance of \<open>json\<close>.\<close>

instance json :: countable
  by countable_datatype

definition demo_stringify :: "json \<Rightarrow> string" where
  "demo_stringify v = replicate (Suc (to_nat v)) (CHR ''x'')"

definition demo_parse :: json_parser where
  "demo_parse t = Inr (from_nat (length t - 1))"

definition demo_mount :: shell where
  "demo_mount = the (shell_mount demo_parse demo_stringify Map.empty)"

definition demo_shell :: shell where
  "demo_shell = projr (shell_run demo_parse demo_stringify demo_mount
     [UiEvent (EnterKey OpenRouter ''k''), UiEvent (ChooseProvider OpenRouter), ToggleTheme, ClickTab 3])"

subsection \<open>Lemmas\<close>

lemma shell_run_reachable:
  "shell_reachable parse stringify sh \<Longrightarrow> shell_run parse stringify sh evs = Inr sh'
     \<Longrightarrow> shell_reachable parse stringify sh'"
  by (induction evs arbitrary: sh) (auto simp: bind_r_eq_Inr intro: shell_reachable.step)

lemma demo_codec: "demo_parse (demo_stringify v) = Inr v \<and> demo_stringify v \<noteq> []"
  by (simp add: demo_parse_def demo_stringify_def)

lemma demo_mount_eq:
  "shell_mount demo_parse demo_stringify Map.empty = Some demo_mount"
  "demo_mount = \<lparr>ctl = initial_ctrl, activeTab = ''chat'', theme = ''light'',
                 storage = save_settings demo_stringify initial_app_state Map.empty\<rparr>"
  by (simp_all add: demo_mount_def shell_mount_def load_settings_def persist_def theme_of_storage_def initial_ctrl_def)

lemma demo_shell_reachable: "shell_reachable demo_parse demo_stringify demo_shell"
proof -
  have "shell_reachable demo_parse demo_stringify demo_mount"
    using demo_mount_eq(1) by (rule shell_reachable.mount)
  moreover have "shell_run demo_parse demo_stringify demo_mount
     [UiEvent (EnterKey OpenRouter ''k''), UiEvent (ChooseProvider OpenRouter), ToggleTheme, ClickTab 3] = Inr demo_shell"
    by (simp add: demo_shell_def demo_mount_eq(2) bind_r_def dispatch_def send_alert_def send_target_def toggle_theme_def)
  ultimately show ?thesis by (rule shell_run_reachable)
qed

lemma send_target_call:
  assumes "send_target e c = Some (m, c0)"
  shows "ctrl_step parse c e = handle_send_message m c0 \<and> st c0 = st c"
  using assms
  by (cases e) (auto simp: send_target_def timer_fires_def set_next_auto_def Let_def split: if_splits)

lemma key_missing_send:
  "key_missing m c \<Longrightarrow> handle_send_message m c = Inr c"
  by (auto simp: key_missing_def settings_key_value_def handle_send_message_def split: option.splits)

lemma theme_of_save [simp]: "theme_of_storage (save_settings stringify s ls) = theme_of_storage ls"
  by (simp add: theme_of_storage_def save_settings_def)

lemma persist_saved:
  assumes "ls ''llmProvider'' = Some (provider_name (llmProvider s))"
    and "ls ''apiKeys'' = Some (stringify (keys_json (apiKeys s)))"
  shows "persist stringify s s' ls ''llmProvider'' = Some (provider_name (llmProvider s'))
       \<and> persist stringify s s' ls ''apiKeys'' = Some (stringify (keys_json (apiKeys s')))
       \<and> theme_of_storage (persist stringify s s' ls) = theme_of_storage ls"
  using assms by (simp add: persist_def save_settings_def theme_of_storage_def)

lemma tab_ids: "map tab_id TABS = [''chat'', ''mission'', ''reasoning'', ''settings'']"
  by (simp add: TABS_def)

lemma click_tab_valid: "i < length TABS \<Longrightarrow> tab_id (TABS ! i) \<in> set (map tab_id TABS)"
  by (metis nth_map length_map nth_mem)

text \<open>The shell's invariant: the storage holds the session's settings and its
  theme, and the active tab is one of \<open>TABS\<close>.\<close>

lemma shell_invariant:
  assumes "shell_reachable parse stringify sh"
  shows "settings_saved stringify sh \<and> activeTab sh \<in> set (map tab_id TABS)"
  using assms
proof (induction rule: shell_reachable.induct)
  case (mount ls sh)
  then obtain as s where "load_settings parse ls = Some as" "dispatch_all initial_app_state as = Inr s"
    and sh: "sh = \<lparr>ctl = initial_ctrl\<lparr>st := s\<rparr>, activeTab = ''chat'', theme = theme_of_storage ls,
                  storage = persist stringify initial_app_state s (save_settings stringify initial_app_state ls)\<rparr>"
    by (auto simp: shell_mount_def split: option.splits sum.splits)
  moreover have "save_settings stringify initial_app_state ls ''llmProvider'' = Some (provider_name (llmProvider initial_app_state))"
    "save_settings stringify initial_app_state ls ''apiKeys'' = Some (stringify (keys_json (apiKeys initial_app_state)))"
    by (simp_all add: save_settings_def)
  ultimately show ?case
    using persist_saved [of "save_settings stringify initial_app_state ls" initial_app_state stringify s]
    by (simp add: settings_saved_def tab_ids)
next
  case (step sh ev sh')
  then show ?case
  proof (cases ev)
    case (UiEvent e)
    with step show ?thesis
      using persist_saved [of "storage sh" "st (ctl sh)" stringify]
      by (auto simp: settings_saved_def tab_ids bind_r_eq_Inr split: if_splits)
  next
    case (ClickTab i)
    with step show ?thesis by (auto simp: settings_saved_def click_tab_valid split: if_splits)
  next
    case ToggleTheme
    with step show ?thesis
      by (auto simp: settings_saved_def toggle_theme_def theme_of_storage_def Let_def)
  qed (use step in simp)
qed

lemma saved_storage_fixed:
  "settings_saved stringify sh \<Longrightarrow> save_settings stringify (st (ctl sh)) (storage sh) = storage sh"
  by (auto simp: settings_saved_def save_settings_def fun_upd_idem)

lemma panels_of_valid_tab:
  "active \<in> set (map tab_id TABS) \<Longrightarrow>
     length (filter snd (tabs_view TABS active)) = 1 \<and> length (tab_panels active s) = 1"
  by (auto simp: tab_ids tabs_view_def tab_panels_def TABS_def)

text \<open>C22. A page reload restores the settings and the theme: for every shell
  reached from a page load by any events, mounting the page again on the
  storage it has left shows the same settings panel (provider, key field,
  labels) and the same theme, provided \<open>JSON.parse\<close> reads back what
  \<open>JSON.stringify\<close> writes for the keys object.\<close>

theorem session_reload_restores_settings:
  assumes "\<forall>k. parse (stringify (keys_json k)) = Inr (keys_json k) \<and> stringify (keys_json k) \<noteq> []"
    and "shell_reachable parse stringify sh"
  shows "\<exists>sh'. shell_mount parse stringify (storage sh) = Some sh'
           \<and> settings_panel_view (st (ctl sh')) = settings_panel_view (st (ctl sh))
           \<and> theme sh' = theme sh"
proof -
  let ?s = "st (ctl sh)"
  have saved: "settings_saved stringify sh" using shell_invariant [OF assms(2)] by blast
  obtain as where
    load: "load_settings parse (save_settings stringify ?s (storage sh)) = Some as"
    and run: "dispatch_all initial_app_state as =
               Inr (initial_app_state\<lparr>llmProvider := llmProvider ?s,
                       apiKeys := (\<lambda>p. case apiKeys ?s p of Some x \<Rightarrow> if x = [] then apiKeys initial_app_state p else Some x
                                                       | None \<Rightarrow> apiKeys initial_app_state p)\<rparr>)"
    using reload_settings_state [of parse stringify ?s "storage sh" initial_app_state] assms(1) by blast
  have "apiKeys initial_app_state = [Google \<mapsto> [], OpenRouter \<mapsto> []]"
    by (simp add: initial_app_state_def)
  then show ?thesis
    using load run saved saved_storage_fixed [OF saved] reloaded_view
    by (simp add: shell_mount_def settings_saved_def)
qed

theorem session_reload_restores_settings_witness:
  "(\<forall>k. demo_parse (demo_stringify (keys_json k)) = Inr (keys_json k) \<and> demo_stringify (keys_json k) \<noteq> [])
   \<and> shell_reachable demo_parse demo_stringify demo_shell
   \<and> (\<exists>sh'. shell_mount demo_parse demo_stringify (storage demo_shell) = Some sh'
           \<and> settings_panel_view (st (ctl sh')) = settings_panel_view (st (ctl demo_shell))
           \<and> theme sh' = theme demo_shell)"
  using session_reload_restores_settings [of demo_parse demo_stringify demo_shell] demo_codec demo_shell_reachable
  by simp

text \<open>An event that reaches \<open>handleSendMessage\<close> while the provider's key
  field is empty (a submitted message or the continuation timer) changes no
  session state, shows the alert naming the provider, and opens the
  Settings tab, which then shows that empty key field.\<close>

theorem missing_key_opens_settings:
  assumes "send_target e (ctl sh) = Some (m, c0)" "key_missing m c0"
  shows "shell_step parse stringify sh (UiEvent e) = Inr (sh\<lparr>ctl := c0, activeTab := ''settings''\<rparr>)
       \<and> st c0 = st (ctl sh)
       \<and> send_alert e (ctl sh) = Some (alert_text (llmProvider (st (ctl sh))))
       \<and> tab_panels ''settings'' (st c0) = [SettingsTab (settings_panel_view (st (ctl sh)))]
       \<and> sv_key_value (settings_panel_view (st c0)) = []"
  using send_target_call [OF assms(1), of parse] key_missing_send [OF assms(2)] assms
  by (auto simp: send_alert_def persist_def tab_panels_def key_missing_def)

theorem missing_key_opens_settings_witness:
  "send_target (Submit ''hello'') (ctl demo_mount) = Some (''hello'', ctl demo_mount)
   \<and> key_missing ''hello'' (ctl demo_mount)
   \<and> shell_step demo_parse demo_stringify demo_mount (UiEvent (Submit ''hello''))
       = Inr (demo_mount\<lparr>ctl := ctl demo_mount, activeTab := ''settings''\<rparr>)
   \<and> st (ctl demo_mount) = st (ctl demo_mount)
   \<and> send_alert (Submit ''hello'') (ctl demo_mount) = Some (alert_text (llmProvider (st (ctl demo_mount))))
   \<and> tab_panels ''settings'' (st (ctl demo_mount)) = [SettingsTab (settings_panel_view (st (ctl demo_mount)))]
   \<and> sv_key_value (settings_panel_view (st (ctl demo_mount))) = []"
proof -
  have t: "send_target (Submit ''hello'') (ctl demo_mount) = Some (''hello'', ctl demo_mount)"
    and k: "key_missing ''hello'' (ctl demo_mount)"
    by (simp_all add: demo_mount_eq(2) send_target_def key_missing_def settings_key_value_def js_trim_def
        is_ws_def initial_ctrl_def initial_app_state_def)
  show ?thesis using missing_key_opens_settings [OF t k, of demo_parse demo_stringify] t k by blast
qed

text \<open>In every shell reached from a page load, exactly one tab button is
  marked active and exactly one panel is shown under the tab bar.\<close>

theorem one_active_tab:
  assumes "shell_reachable parse stringify sh"
  shows "length (filter snd (tabs_view TABS (activeTab sh))) = 1
       \<and> length (tab_panels (activeTab sh) (st (ctl sh))) = 1"
  using shell_invariant [OF assms] panels_of_valid_tab by blast

theorem one_active_tab_witness:
  "shell_reachable demo_parse demo_stringify demo_shell
   \<and> length (filter snd (tabs_view TABS (activeTab demo_shell))) = 1
   \<and> length (tab_panels (activeTab demo_shell) (st (ctl demo_shell))) = 1"
  using one_active_tab [OF demo_shell_reachable] demo_shell_reachable by simp

end
