(* ===== verification/Instruction.thy ===== *)
theory Instruction
  imports Backend Panels ChatPanel
begin

text \<open>
  The request text of an agent cycle (\<open>src/services/geminiService.ts\<close>):
  \<open>getSystemInstruction\<close>, the fixed protocol description around the
  serialised schema and the file listing, and the Gemini \<open>contents\<close>
  string around the history context.  The text is kept byte for byte; its
  three follow-up questions are the \<open>prompt_suggestions\<close> the chat panel
  looks for, and its separator is the sentinel the cycle splits on.
  \<open>JSON.stringify(agentSchema, null, 2)\<close> is a parameter.
\<close>

subsection \<open>Definitions\<close>

text \<open>The template of \<open>getSystemInstruction\<close>, cut at its substitutions and
  at the three questions.\<close>

definition instruction_intro :: string where
  "instruction_intro =
     ''You are '' @ [CHR 0xF0, CHR 0x9F, CHR 0x8C, CHR 0x80] @ '' AGENTX, an autonomous AI software architect. Your mission is to help a user create a complete project documentation scaffold. You operate based on a REASONING_SCHEMA which represents your internal state.'' @ [nl]
     @ [nl]
     @ ''**Autonomous Operation:**'' @ [nl]
     @ ''- For high-level goals, you MUST first create a multi-step plan in '' @ [apos] @ ''chain.steps'' @ [apos] @ ''.'' @ [nl]
     @ ''- Then, execute the FIRST step of your plan.'' @ [nl]
     @ ''- When you complete a step, you MUST update its status to '' @ [apos] @ ''completed'' @ [apos] @ ''. For the next cycle, you will move this completed step from '' @ [apos] @ ''chain.steps'' @ [apos] @ '' to '' @ [apos] @ ''wm.pr.completed'' @ [apos] @ ''.'' @ [nl]
     @ ''- In your response, if there are more steps pending in '' @ [apos] @ ''chain.steps'' @ [apos] @ '', set '' @ [apos] @ ''autoContinue'' @ [apos] @ '' to true. The system will automatically send you a '' @ [CHR 0x22] @ ''Continue'' @ [CHR 0x22] @ '' prompt.'' @ [nl]
     @ ''- When all steps are completed and moved, set '' @ [apos] @ ''autoContinue'' @ [apos] @ '' to false.'' @ [nl]
     @ [nl]
     @ ''**Response Protocol (MANDATORY):**'' @ [nl]
     @ ''1.  First, stream your friendly chat message to the user as plain text. This message MUST end with the three specific follow-up questions.'' @ [nl]
     @ ''2.  After the chat message, output the exact separator token: ''"

definition instruction_rules :: string where
  "instruction_rules =
     [nl]
     @ ''3.  Finally, output a SINGLE, VALID JSON object containing your updates.'' @ [nl]
     @ [nl]
     @ ''**Rules:**'' @ [nl]
     @ ''-   **CRITICAL JSON RULE**: The final JSON object MUST NOT be wrapped in markdown fences (```json) or any other text. It must be a raw JSON object.'' @ [nl]
     @ ''-   **Schema Update**: Always update '' @ [apos] @ ''wm.sg'' @ [apos] @ '' (sub-goal), '' @ [apos] @ ''wm.ctx'' @ [apos] @ '' (context), and '' @ [apos] @ ''chain.reflect'' @ [apos] @ '' (your reasoning).'' @ [nl]
     @ ''-   **Planning**: '' @ [apos] @ ''chain.steps'' @ [apos] @ '' MUST be an array of objects with this structure: { '' @ [CHR 0x22] @ ''step'' @ [CHR 0x22] @ '': '' @ [CHR 0x22] @ ''description'' @ [CHR 0x22] @ '', '' @ [CHR 0x22] @ ''status'' @ [CHR 0x22] @ '': '' @ [CHR 0x22] @ ''pending'' @ [CHR 0x22] @ '' }.'' @ [nl]
     @ ''-   **Execution**: When continuing, identify the next '' @ [CHR 0x22] @ ''pending'' @ [CHR 0x22] @ '' step, execute it, and update its status to '' @ [CHR 0x22] @ ''completed'' @ [CHR 0x22] @ ''.'' @ [nl]
     @ ''-   **File Update**: If you update a file, provide its FULL path and FULL new content.'' @ [nl]
     @ ''-   **Chat Response**: Your streamed chat response MUST end with these three questions on new lines:'' @ [nl]"

definition instruction_closing :: string where
  "instruction_closing =
     [nl]
     @ ''-   **JSON Integrity**: Your final JSON object must be perfect. Properly escape all special characters within the strings (e.g., use '' @ [apos] @ [CHR 0x5C, CHR 0x22] @ [apos] @ '' for quotes, '' @ [apos] @ [CHR 0x5C] @ ''n'' @ [apos] @ '' for newlines).'' @ [nl]
     @ [nl]
     @ ''Your current REASONING_SCHEMA is:'' @ [nl]"

definition file_list_header :: string where
  "file_list_header =
     [nl]
     @ [nl]
     @ ''The documentation file structure is:'' @ [nl]"

definition system_instruction :: "(json \<Rightarrow> string) \<Rightarrow> json \<Rightarrow> string \<Rightarrow> string" where
  "system_instruction stringify2 agentSchema fileList =
     instruction_intro @ JSON_RESPONSE_SEPARATOR @ instruction_rules @ prompt_suggestions
     @ instruction_closing @ stringify2 agentSchema @ file_list_header @ fileList"

text \<open>\<open>getFileTree(docStructure).join('\n')\<close>.\<close>

definition file_list :: "doc_node \<Rightarrow> string" where
  "file_list tree = js_join nl (get_file_tree tree [])"

text \<open>The \<open>contents\<close> of the Gemini request.\<close>

definition gemini_contents :: "message list \<Rightarrow> string \<Rightarrow> string" where
  "gemini_contents history prompt =
     ''Conversation History:'' @ [nl] @ history_context history @ [nl, nl]
     @ ''Latest User Prompt: '' @ [CHR 0x22] @ prompt @ [CHR 0x22]"

text \<open>The request an agent cycle sends, or none when the selected provider has
  no key (\<open>if (!apiKey) throw\<close> comes before the client or the \<open>fetch\<close>).
  The Gemini call carries its model, \<open>contents\<close> and \<open>systemInstruction\<close>;
  the OpenRouter call its headers and the value whose \<open>JSON.stringify\<close> is
  the body.  \<open>location.href\<close> and \<open>document.title\<close> are parameters.\<close>

datatype model_request =
    GeminiRequest string string string
  | OpenRouterRequest "(string \<times> string) list" json

definition gemini_model :: string where
  "gemini_model = ''gemini-2.5-flash-preview-04-17''"

definition openrouter_model :: string where
  "openrouter_model = ''google/gemini-flash-1.5''"

definition openrouter_headers :: "string \<Rightarrow> string \<Rightarrow> string \<Rightarrow> (string \<times> string) list" where
  "openrouter_headers apiKey href title =
     [(''Authorization'', ''Bearer '' @ apiKey), (''Content-Type'', ''application/json''),
      (''HTTP-Referer'', href), (''X-Title'', title)]"

definition openrouter_body :: "(string \<times> string) list \<Rightarrow> json" where
  "openrouter_body messages =
     JObj [(''model'', JStr openrouter_model),
           (''messages'', JArr (map (\<lambda>(r, c). JObj [(''role'', JStr r), (''content'', JStr c)]) messages)),
           (''stream'', JBool True)]"

definition cycle_request ::
  "(json \<Rightarrow> string) \<Rightarrow> string \<Rightarrow> string \<Rightarrow> llm_provider \<Rightarrow> string \<Rightarrow> string \<Rightarrow> message list \<Rightarrow> doc_node \<Rightarrow> json
     \<Rightarrow> model_request option" where
  "cycle_request stringify2 href title provider apiKey prompt history tree agentSchema =
     (let systemInstruction = system_instruction stringify2 agentSchema (file_list tree) in
      if apiKey = [] then None
      else (case provider of
              Google \<Rightarrow> Some (GeminiRequest gemini_model (gemini_contents history prompt) systemInstruction)
            | OpenRouter \<Rightarrow>
                Some (OpenRouterRequest (openrouter_headers apiKey href title)
                        (openrouter_body (openrouter_messages systemInstruction history prompt)))))"

subsection \<open>Lemmas\<close>

lemma system_instruction_split:
  "system_instruction s2 v fl =
     (instruction_intro @ JSON_RESPONSE_SEPARATOR @ instruction_rules @ prompt_suggestions
      @ instruction_closing @ s2 v @ [nl, nl] @ ''The documentation file structure is:'') @ nl # fl"
  by (simp add: system_instruction_def file_list_header_def)

lemma intro_moves_completed_steps:
  "sublist (''move this completed step from '' @ [apos] @ ''chain.steps'' @ [apos] @ '' to ''
            @ [apos] @ ''wm.pr.completed'' @ [apos]) instruction_intro"
  by (simp add: instruction_intro_def apos_def sublist_code)

lemma gemini_contents_lines:
  assumes "h \<noteq> []" "list_all (\<lambda>m. nl \<notin> set (author m @ '': '' @ content m)) h" "nl \<notin> set prompt"
  shows "js_split nl (gemini_contents h prompt) =
           ''Conversation History:'' # map (\<lambda>m. author m @ '': '' @ content m) (last_six h)
           @ [[], ''Latest User Prompt: '' @ [CHR 0x22] @ prompt @ [CHR 0x22]]"
proof -
  let ?L = "map (\<lambda>m. author m @ '': '' @ content m) (last_six h)"
  have "0 < length h" using assms(1) by simp
  then have "\<not> length h \<le> length h - 6" by linarith
  then have ne: "?L \<noteq> []" by (simp add: last_six_def)
  have nonl: "\<forall>w\<in>set ?L. nl \<notin> set w"
    using assms(2) by (auto simp: last_six_def list_all_iff dest: in_set_dropD)
  have "gemini_contents h prompt =
          ''Conversation History:'' @ nl # (js_join nl ?L @ nl # (nl # (''Latest User Prompt: '' @ [CHR 0x22] @ prompt @ [CHR 0x22])))"
    by (simp add: gemini_contents_def history_context_def)
  moreover have "nl \<notin> set (''Latest User Prompt: '' @ [CHR 0x22] @ prompt @ [CHR 0x22])"
    using assms(3) by (simp add: nl_def)
  ultimately show ?thesis
    using ne nonl by (simp add: js_split_append_sep js_split_append_sep_general js_split_js_join js_split_no_sep nl_def)
qed

text \<open>C32. A cycle without a key for the selected provider makes no request
  and yields exactly one error event naming the provider, whatever the
  network would have answered.\<close>

theorem missing_key_no_request:
  "cycle_request stringify2 href title provider [] prompt history tree agentSchema = None
   \<and> run_cycle parse provider [] gr orr = [EventError (''Error calling API: '' @ missing_key_message provider)]"
  by (simp add: cycle_request_def run_cycle_def stream_agent_cycle_def)

text \<open>C33. The two backends are given the same conversation: with a key, the
  Gemini request and the OpenRouter request carry the same system
  instruction, and the lines of the Gemini history block are the
  OpenRouter history turns (at most six) rendered as \<open>role: content\<close>, when
  no message and no prompt contains a line break.\<close>

theorem backends_same_conversation:
  assumes "apiKey \<noteq> []" "history \<noteq> []"
    and "list_all (\<lambda>m. nl \<notin> set (author m @ '': '' @ content m)) history" "nl \<notin> set prompt"
  shows "\<exists>sysI turns contents.
     cycle_request stringify2 href title Google apiKey prompt history tree agentSchema
       = Some (GeminiRequest gemini_model contents sysI)
   \<and> cycle_request stringify2 href title OpenRouter apiKey prompt history tree agentSchema
       = Some (OpenRouterRequest (openrouter_headers apiKey href title)
                (openrouter_body ((''system'', sysI) # turns @ [(''user'', prompt)])))
   \<and> js_split nl contents = ''Conversation History:'' # map (\<lambda>(r, c). r @ '': '' @ c) turns
        @ [[], ''Latest User Prompt: '' @ [CHR 0x22] @ prompt @ [CHR 0x22]]
   \<and> length turns \<le> 6"
proof (intro exI conjI)
  show "cycle_request stringify2 href title Google apiKey prompt history tree agentSchema
    = Some (GeminiRequest gemini_model (gemini_contents history prompt)
             (system_instruction stringify2 agentSchema (file_list tree)))"
    using assms(1) by (simp add: cycle_request_def)
  show "cycle_request stringify2 href title OpenRouter apiKey prompt history tree agentSchema
    = Some (OpenRouterRequest (openrouter_headers apiKey href title)
             (openrouter_body ((''system'', system_instruction stringify2 agentSchema (file_list tree))
                # map (\<lambda>m. (author m, content m)) (last_six history) @ [(''user'', prompt)])))"
    using assms(1) by (simp add: cycle_request_def openrouter_messages_def)
  show "js_split nl (gemini_contents history prompt) = ''Conversation History:''
     # map (\<lambda>(r, c). r @ '': '' @ c) (map (\<lambda>m. (author m, content m)) (last_six history))
     @ [[], ''Latest User Prompt: '' @ [CHR 0x22] @ prompt @ [CHR 0x22]]"
    using gemini_contents_lines [OF assms(2-4)] by (simp add: comp_def)
  show "length (map (\<lambda>m. (author m, content m)) (last_six history)) \<le> 6"
    by (simp add: last_six_def)
qed

theorem backends_same_conversation_witness:
  "\<exists>sysI turns contents.
     cycle_request (\<lambda>_. ''{}'') ''http://localhost/'' ''AGENTX'' Google ''k'' ''hi''
        [\<lparr>author = ''user'', content = ''hello''\<rparr>] documentationStructure (JObj [])
       = Some (GeminiRequest gemini_model contents sysI)
   \<and> cycle_request (\<lambda>_. ''{}'') ''http://localhost/'' ''AGENTX'' OpenRouter ''k'' ''hi''
        [\<lparr>author = ''user'', content = ''hello''\<rparr>] documentationStructure (JObj [])
       = Some (OpenRouterRequest (openrouter_headers ''k'' ''http://localhost/'' ''AGENTX'')
                (openrouter_body ((''system'', sysI) # turns @ [(''user'', ''hi'')])))
   \<and> js_split nl contents = ''Conversation History:'' # map (\<lambda>(r, c). r @ '': '' @ c) turns
        @ [[], ''Latest User Prompt: '' @ [CHR 0x22] @ ''hi'' @ [CHR 0x22]]
   \<and> length turns \<le> 6"
proof -
  have h: "list_all (\<lambda>m. nl \<notin> set (author m @ '': '' @ content m)) [\<lparr>author = ''user'', content = ''hello''\<rparr>]"
    "nl \<notin> set ''hi''"
    by (simp_all add: nl_def)
  show ?thesis
    using backends_same_conversation [of "''k''" "[\<lparr>author = ''user'', content = ''hello''\<rparr>]" "''hi''", OF _ _ h] by simp
qed

text \<open>C31. The system instruction ends with the file listing of the tree, one
  path per line: splitting it into lines gives some lines of the fixed text
  and the serialised schema, then exactly the paths \<open>getFileTree\<close> lists,
  in order (paths without line breaks).\<close>

theorem instruction_ends_with_files:
  assumes "\<forall>p\<in>set (get_file_tree tree []). nl \<notin> set p"
  shows "\<exists>pre. js_split nl (system_instruction stringify2 agentSchema (file_list tree))
                 = pre @ get_file_tree tree []"
proof (cases "get_file_tree tree [] = []")
  case True
  then show ?thesis by (simp add: file_list_def)
next
  case False
  have "js_split nl (file_list tree) = get_file_tree tree []"
    using False assms by (simp add: file_list_def js_split_js_join)
  then show ?thesis
    by (simp only: system_instruction_split js_split_append_sep_general) blast
qed

theorem instruction_ends_with_files_witness:
  "\<exists>pre. js_split nl (system_instruction (\<lambda>_. ''{}'') (JObj []) (file_list documentationStructure))
          = pre @ get_file_tree documentationStructure []"
proof -
  have h: "\<forall>p\<in>set (get_file_tree documentationStructure []). nl \<notin> set p"
    by (simp add: seed_tree_defs nl_def slash_def)
  show ?thesis using instruction_ends_with_files [OF h] .
qed

text \<open>The instruction asks the model to move a completed step from
  \<open>chain.steps\<close>, an array of objects, to \<open>wm.pr.completed\<close>, declared a
  string array.  A working memory holding such a step renders its
  Completed line as \<open>[object Object]\<close>: the step's text is lost.\<close>

theorem instructed_completed_step_unreadable:
  "sublist (''move this completed step from '' @ [apos] @ ''chain.steps'' @ [apos] @ '' to ''
            @ [apos] @ ''wm.pr.completed'' @ [apos]) (system_instruction stringify2 agentSchema fileList)
   \<and> wm_text (Some (JObj [(''g'', JStr g), (''sg'', JStr sg), (''ctx'', JStr ctx),
        (''pr'', JObj [(''completed'', JArr [JObj [(''step'', JStr s), (''status'', JStr ''completed'')]]),
                       (''current'', JArr [])])]))
     = Inr (''Goal       : '' @ g @ [nl] @ ''Subgoal    : '' @ sg @ [nl]
            @ ''Completed  : [object Object]'' @ [nl] @ ''Current    : None'' @ [nl] @ ''Context    : '' @ ctx)"
proof (rule conjI)
  show "sublist (''move this completed step from '' @ [apos] @ ''chain.steps'' @ [apos] @ '' to ''
            @ [apos] @ ''wm.pr.completed'' @ [apos]) (system_instruction stringify2 agentSchema fileList)"
    unfolding system_instruction_def
    by (rule sublist_order.order.trans [OF intro_moves_completed_steps sublist_append_rightI])
qed (simp add: wm_text_def js_call_join_def)

end
