(* ===== verification/Spec2Isabelle.thy ===== *)
theory Spec2Isabelle
  imports Controller Backend Panels Workspace ChatPanel AppShell Instruction
begin

text \<open>
  \<^bold>\<open>A verification library for AGENTX\<close>, the browser application of
  \<open>src/\<close> that drives a language model to write a documentation scaffold.
  One session holds a chat history, an agent schema (the model's opaque
  reasoning state), a tree of documentation files and the provider settings.
  A user message starts an \<^emph>\<open>agent cycle\<close>.  The cycle sends the history to a
  model backend and buffers the whole reply.  It splits the reply at the
  sentinel \<open>|||AGENT_RESPONSE_JSON|||\<close> into chat text and a JSON payload.
  It reports what it found as a chunk, an update or an error event.  The
  session controller applies these events to the session through a reducer.
  When an update asks for it, the controller schedules a continuation prompt.

  \<^bold>\<open>Theories and what they model.\<close>
  \<^item> \<open>Prelude\<close>: the JavaScript string primitives the code calls.
    \<open>js_split\<close> and \<open>js_join\<close> are \<open>split\<close>/\<open>join\<close> on one character;
    \<open>index_of\<close> is \<open>indexOf\<close>, the first occurrence; \<open>js_trim\<close> is \<open>trim\<close>
    on ASCII white space.  Exceptions are the left side of a sum type, with
    \<open>bind_r\<close> as the sequencing of statements.
  \<^item> \<open>DocTree\<close>: \<open>DocNode\<close> (\<open>src/types.ts\<close>) as the nested datatype
    \<open>doc_node\<close>.  The operations of \<open>src/utils.ts\<close>: \<open>find_node_by_path\<close>
    (\<open>findNodeByPath\<close>), \<open>find_and_update_file\<close> and \<open>recurse_update\<close>
    (\<open>findAndUpdateFile\<close> and its inner \<open>recurse\<close>), and \<open>add_node_to_zip\<close>
    (\<open>addNodeToZip\<close>, as the list of JSZip calls it makes).  Also
    \<open>get_file_tree\<close> (\<open>getFileTree\<close> of \<open>src/services/geminiService.ts\<close>).
    A reference model updates by a list of path segments (\<open>upd_segs\<close>).  The
    tree is also read as a map from paths to file bodies (\<open>doc_contents\<close>).
  \<^item> \<open>DocumentationData\<close>: the seed tree of \<open>src/documentationData.ts\<close>,
    one definition per top-level folder.
  \<^item> \<open>Types\<close>: the JSON values \<open>JSON.parse\<close> returns, with JavaScript
    truthiness, property access (\<open>v.k\<close> throws on \<open>null\<close>, \<open>v?.k\<close> does
    not) and \<open>typeof\<close>.  Also the declared types of \<open>src/types.ts\<close>.
  \<^item> \<open>AgentCycle\<close>: \<open>streamAgentCycle\<close>, from the buffered reply on.
    \<open>stream_agent_cycle\<close> makes the missing-key check first.  An exception of
    the backend call becomes one error event.  \<open>process_buffer\<close> is lines
    147--178: split at the first sentinel, trim, strip a code fence (the
    regular expression is modelled with its lazy backtracking order in
    \<open>fence_match\<close>), parse, check the payload (\<open>validate_payload\<close>).
    \<open>JSON.parse\<close> is a parameter \<open>parse\<close>: every theorem holds for any parser.
  \<^item> \<open>Reducer\<close>: \<open>appReducer\<close> of \<open>src/state.ts\<close> as \<open>app_reducer\<close>, over the
    record \<open>app_state\<close> (\<open>AppState\<close>) and a datatype of actions.
    \<open>apply_file_update\<close> is the file write of \<open>APPLY_AGENT_UPDATE\<close> on an
    untyped payload, with the exception it can throw.  The initial state
    comes from \<open>src/constants.ts\<close> and the \<open>useReducer\<close> call of
    \<open>src/App.tsx\<close>.
  \<^item> \<open>Backend\<close>: the two backends that fill the buffer
    (\<open>streamAgentCycle\<close> lines 61--145).
    \<^item> \<open>gemini_call\<close> is the SDK loop \<open>buffer += chunk.text\<close>, over the list of
      the chunks' \<open>text\<close> fields (\<open>undefined\<close> is \<open>None\<close>).
    \<^item> \<open>openrouter_call\<close> is the \<open>fetch\<close> branch: the status check, the read
      loop \<open>openrouter_read\<close> that splits each network chunk into lines on
      its own, the line handler \<open>sse_line\<close> with the envelope access
      \<open>delta_content\<close>, and the error remap \<open>openrouter_remap\<close>.
    \<^item> \<open>read_loop\<close> is the \<open>while (true)\<close> loop over \<open>reader.read()\<close> itself,
      over a body given as a function from read numbers to outcomes, which
      may never report \<open>done\<close>.  It is a \<open>partial_function (option)\<close>: not
      returning is the value \<open>None\<close>.
    \<^item> \<open>run_cycle\<close> composes the selected backend with
      \<open>stream_agent_cycle\<close>.
    \<^item> \<open>last_six\<close>, \<open>history_context\<close> and \<open>openrouter_messages\<close> render
      the history the request carries.
  \<^item> \<open>Controller\<close>: the session controller of \<open>src/App.tsx\<close> as a step
    function \<open>ctrl_step\<close> over user and network events.
    \<^item> The state \<open>ctrl\<close> holds the React state (with \<open>selectedNodePath\<close>
      and \<open>lastUpdatedFile\<close>, which hold whatever value an update names),
      \<open>isRunningRef\<close> (\<open>running\<close>), \<open>nextAutoPrompt\<close>, whether the 2.5 s
      timer is armed, and the cycles in flight.  Each cycle in flight has its
      number, provider and key.
    \<^item> \<open>handle_send_message\<close> is \<open>handleSendMessage\<close> up to its network call.
      \<open>Respond k r\<close> resumes cycle \<open>k\<close> with the outcome \<open>r\<close> of the call;
      \<open>handle_events\<close> is the \<open>for await\<close> loop of that handler.
    \<^item> \<open>handle_stop\<close> is \<open>handleStop\<close>; \<open>timer_fires\<close> is
      \<open>executeNextStep\<close>; \<open>set_next_auto\<close> is \<open>setNextAutoPrompt\<close> with the
      effect that arms or clears the timer.
    \<^item> \<open>Submit\<close> carries the guard of \<open>handleSubmit\<close> in
      \<open>src/components/ChatPanel.tsx\<close>.
    Responses of different cycles may arrive in any order and between any
    user events.  \<open>reachable\<close> collects the states of all such
    interleavings; \<open>reachable_no_stop\<close> collects those in which Stop is
    never clicked.
  \<^item> \<open>Panels\<close>: \<open>AgentConfigPanel\<close> and \<open>ReasoningPanel\<close> as functions from
    the stored schema value to the texts they render, or the exception
    rendering throws (a property of \<open>undefined\<close>, an array method on a
    non-array, an object as a React child).  The parent's expressions are
    evaluated before its children, as React does.  The declared type
    \<open>AgentSchema\<close> is the predicate \<open>agent_schema_typed\<close>.
  \<^item> \<open>FileTree\<close>: the mounted \<open>TreeNode\<close> instances with their own
    \<open>isExpanded\<close> state (\<open>tree_node\<close>), the rows they render
    (\<open>tree_rows\<close>), and \<open>handleToggle\<close> on the instance a route of child
    indices reaches (\<open>click_tree_node\<close>).  Collapsing unmounts the children,
    so their state is lost.
  \<^item> \<open>FileViewer\<close>: the viewer's \<open>viewMode\<close>, \<open>editedContent\<close> and \<open>isDirty\<close>
    as a record, its effect on \<open>[node]\<close> (\<open>node_effect\<close>), its handlers,
    and what it renders.
  \<^item> \<open>Workspace\<close>: \<open>App\<close> joining the controller, the tree view and the
    viewer.  After each handler the render recomputes
    \<open>findNodeByPath(state.docStructure, selectedNodePath || '')\<close>, which may
    throw, and runs the viewer's effect when that node is another object.
    The object is identified by the path that resolved it and by the
    \<open>findAndUpdateFile\<close> calls of the step (\<open>node_replaced\<close>).
    \<open>ws_reachable\<close> collects every interleaving of controller events, row
    clicks and viewer actions.
  \<^item> \<open>ChatPanel\<close>: \<open>suggestionRegex\<close> as a matcher (\<open>suggestion_match\<close>,
    the leftmost start from which the pattern reaches the end of the text),
    the text and buttons of each message, and the two handlers.
  \<^item> \<open>Instruction\<close>: \<open>getSystemInstruction\<close> as \<open>system_instruction\<close>.
    Its template is kept byte for byte and cut at its substitutions: the
    sentinel, \<open>JSON.stringify(agentSchema, null, 2)\<close> (a parameter) and the
    file list \<open>file_list\<close>.  It is also cut at its three questions, which
    are the chat panel's \<open>prompt_suggestions\<close>.  \<open>gemini_contents\<close> is the
    \<open>contents\<close> string of the Gemini request.  \<open>cycle_request\<close> is the
    request a cycle sends (Gemini: model, contents, instruction; OpenRouter:
    headers and the body value), or none when the key is empty.  With
    \<open>run_cycle\<close> it covers \<open>streamAgentCycle\<close> from its arguments to its
    events.
  \<^item> \<open>Settings\<close>: what \<open>SettingsPanel\<close> renders for a state
    (\<open>settings_panel_view\<close>), and the two \<open>localStorage\<close> effects of
    \<open>src/App.tsx\<close>.  \<open>save_settings\<close> writes the provider and
    \<open>JSON.stringify(apiKeys)\<close>.  \<open>load_settings\<close> gives the actions the load
    effect dispatches before its \<open>try\<close> block ends or throws.  The storage is
    a map from keys to strings.  \<open>JSON.stringify\<close> and \<open>JSON.parse\<close> are
    parameters.
  \<^item> \<open>AppShell\<close>: \<open>App\<close>'s \<open>activeTab\<close> and \<open>theme\<close> beside the controller.
    It models the tab bar of \<open>src/components/Tabs.tsx\<close> and the panel it
    selects, the buttons of \<open>src/components/Header.tsx\<close> and
    \<open>handleToggleTheme\<close>.  \<open>send_alert\<close> is the missing-key branch of
    \<open>handleSendMessage\<close>, which opens the Settings tab.  \<open>persist\<close> is the
    save effect after each change of the settings.  \<open>shell_mount\<close> is the
    page load: the load effect, the first save, then the theme.
    \<open>shell_reachable\<close> collects every shell reached from a page load.

  \<^bold>\<open>What is proved.\<close>
  \<^item> Agent cycle (\<open>AgentCycle\<close>):
    \<^item> the three outcomes of a cycle: a valid reply, a missing sentinel, a
      payload without the required fields;
    \<^item> that a chat text ending in a proper prefix of the sentinel is cut
      early;
    \<^item> \<open>index_of\<close> equals its specification, the least index at which the
      needle occurs (\<open>Prelude\<close>).
  \<^item> Document store (\<open>DocTree\<close>):
    \<^item> lookup after update;
    \<^item> refinement of \<open>findAndUpdateFile\<close> to a map update on
      \<open>doc_contents\<close>;
    \<^item> that the archive lists exactly the files of \<open>getFileTree\<close>.
    Idempotence, the no-op on folders and missing paths and shape
    preservation are lemmas of the theory.
  \<^item> Backends (\<open>Backend\<close>):
    \<^item> whole server-sent events decode to the concatenation of their deltas;
    \<^item> a data line cut by a network chunk boundary is lost;
    \<^item> a request carries at most the six latest messages, so at most
      eight messages in all;
    \<^item> the system instruction ends with the tree's file paths, one per line
      (\<open>Instruction\<close>);
    \<^item> an empty key means no request and a single error event; with a key,
      both backends are sent the same instruction and the same turns
      (\<open>Instruction\<close>);
    \<^item> the instruction tells the model to move step objects into a string
      array, which the reasoning panel then shows as \<open>[object Object]\<close>
      (\<open>Instruction\<close>);
    \<^item> a Gemini chunk without text appends \<open>undefined\<close> to the JSON text;
    \<^item> the read loop returns exactly when some later read reports done or
      fails; on a finite body it computes what \<open>openrouter_read\<close> computes;
      on a body that never ends it never returns (there is no timeout).
  \<^item> Reducer (\<open>Reducer\<close>):
    \<^item> the placeholder invariant of the history;
    \<^item> the functional behaviour of \<open>APPLY_AGENT_UPDATE\<close>, including an empty
      body that is skipped.
  \<^item> Controller (\<open>Controller\<close>), by rule induction over \<open>reachable\<close> and
    \<open>reachable_no_stop\<close>:
    \<^item> without Stop, at most one cycle is in flight;
    \<^item> the outcome of an error and of a final update;
    \<^item> the concurrency guard;
    \<^item> Send does nothing on an empty key field, and otherwise starts a
      cycle with the provider and key the settings panel shows
      (\<open>Settings\<close>);
    \<^item> the autonomous continuation never fires: once an update asks for
      it, no event other than Stop starts a cycle or clears the loading
      indicator;
    \<^item> a cycle that never answers blocks the session until Stop;
    \<^item> Stop cancels a pending continuation: a firing timer starts no cycle;
    \<^item> from any state where a cycle is loading and the provider has a key,
      Stop followed by any message that is not blank starts a second cycle
      beside the first; in a sample run the first one's late answer then
      unlocks the interface (a lemma).
  \<^item> Shell (\<open>AppShell\<close>), by rule induction over \<open>shell_reachable\<close>:
    \<^item> the storage always holds the session's settings and theme, so a page
      reload shows the same settings panel and theme;
    \<^item> a message sent without a key opens the Settings tab;
    \<^item> exactly one tab is active and one panel is shown (a lemma).
  \<^item> Panels (\<open>Panels\<close>): a schema of the declared type renders in both
    panels; a schema without \<open>wm\<close>, which the cycle accepts, makes both
    throw.
  \<^item> Workspace (\<open>FileTree\<close>, \<open>Workspace\<close>, \<open>ChatPanel\<close>):
    \<^item> every rendered row's path resolves to the row's node (a lemma);
    \<^item> in every reachable workspace the tree instances mirror the tree;
    \<^item> editing and saving writes the file and reloads the viewer;
    \<^item> an update that writes a file discards the user's unsaved edit;
    \<^item> an update naming the file by a number crashes the next render;
    \<^item> the suggestion buttons appear for the prompt's layout, and never when
      the chat text ends with a line break.
  \<^item> Across components (this theory):
    \<^item> a payload of the declared type \<open>AgentUpdatePayload\<close> passes the
      payload check, applies without exception, and its schema renders in
      both panels;
    \<^item> in every reachable session the tree's root is a folder, so a valid
      reply whose \<open>fileUpdate\<close> names the file by a truthy value that is
      not a string passes the cycle and makes the reducer throw;
    \<^item> in every reachable session the tree stays well-formed and lists the
      seed tree's files, so no update or save can create a file.

  Every recursion is structural or has a measure (the nested tree functions
  terminate through \<open>map\<close> congruence), with one exception: the OpenRouter
  read loop, which runs as long as the server keeps the body open.  It is a
  partial function, and the theorems say exactly when it returns.  No fuel
  bound is used.

  \<^bold>\<open>Not modelled.\<close>
  \<^item> Of the backend adapters: \<open>JSON.stringify\<close> of the schema inside the
    system instruction (a parameter), the \<open>fetch\<close> and SDK calls themselves
    (the request is the value \<open>cycle_request\<close>), and the byte level of
    \<open>TextDecoder\<close> (the model takes each network chunk as already
    decoded text).
  \<^item> The icons (imported from outside \<open>src/\<close>) and the markup and
    styling of every component: only rendered texts, handlers and
    exceptions are modelled.
  \<^item> showdown's Markdown-to-HTML conversion (the viewer keeps its input)
    and the chat panel's scrolling.
  \<^item> \<open>saveAs\<close> and JSZip's archive generation: browser I/O.  The archive's
    content is \<open>add_node_to_zip\<close>.  Quota errors of \<open>localStorage\<close>, which
    the save effect catches, are not modelled.
  \<^item> \<open>TextDecoder\<close> at the byte level, and the catch block of
    \<open>handleSendMessage\<close>, which is dead code (the generator catches every
    exception of its body).
  \<^item> Unicode white space in \<open>trim\<close> and \<open>\s\<close>: characters are bytes, and only
    ASCII white space is modelled.
\<close>

subsection \<open>Properties across components\<close>





text \<open>C18. A payload of the declared type \<open>AgentUpdatePayload\<close> (a typed
  schema, a typed file update or \<open>null\<close>, a boolean flag) passes the cycle's
  payload check unchanged, and applying it never throws: the reducer
  stores its schema, which then renders in both the Mission and the
  Reasoning panel.\<close>

theorem typed_payload_applies:
  assumes "update_payload_typed v"
  shows "validate_payload v = Inr v
    \<and> (\<exists>s'. app_reducer s (APPLY_AGENT_UPDATE v) = Inr s'
        \<and> agent_schema s' = opt_prop (Some v) ''updatedSchema''
        \<and> (\<exists>t. agent_config_panel (agent_schema s') = Inr t)
        \<and> (\<exists>t. reasoning_panel (agent_schema s') = Inr t))"
proof -
  obtain kvs us where v: "v = JObj kvs" and us: "map_of (rev kvs) ''updatedSchema'' = Some us"
    and ty: "agent_schema_typed us" and ac: "\<exists>b. map_of (rev kvs) ''autoContinue'' = Some (JBool b)"
    and fu: "map_of (rev kvs) ''fileUpdate'' = Some JNull
        \<or> (\<exists>p c. opt_prop (map_of (rev kvs) ''fileUpdate'') ''fileName'' = Some (JStr p)
                \<and> opt_prop (map_of (rev kvs) ''fileUpdate'') ''content'' = Some (JStr c))"
    using update_payload_typedD [OF assms] by blast
  have obj: "is_obj us" using ty by (simp add: agent_schema_typed_def)
  have "validate_payload v = Inr v"
    using v us ac obj by (auto simp: validate_payload_def dest!: is_objE)
  moreover have "\<exists>tree. apply_file_update (docStructure s) (opt_prop (Some v) ''fileUpdate'') = Inr tree"
    using fu v by (auto simp: apply_file_update_def Let_def)
  ultimately show ?thesis
    using v us config_panel_typed [OF ty] reasoning_panel_typed [OF ty]
    by (auto simp: bind_r_def)
qed

theorem typed_payload_applies_witness:
  "validate_payload (JObj [(''updatedSchema'', INITIAL_AGENT_SCHEMA), (''fileUpdate'', JNull), (''autoContinue'', JBool True)])
     = Inr (JObj [(''updatedSchema'', INITIAL_AGENT_SCHEMA), (''fileUpdate'', JNull), (''autoContinue'', JBool True)])
   \<and> (\<exists>s'. app_reducer initial_app_state
           (APPLY_AGENT_UPDATE (JObj [(''updatedSchema'', INITIAL_AGENT_SCHEMA), (''fileUpdate'', JNull), (''autoContinue'', JBool True)])) = Inr s'
        \<and> agent_schema s' = Some INITIAL_AGENT_SCHEMA
        \<and> (\<exists>t. agent_config_panel (agent_schema s') = Inr t)
        \<and> (\<exists>t. reasoning_panel (agent_schema s') = Inr t))"
proof -
  have h: "update_payload_typed (JObj [(''updatedSchema'', INITIAL_AGENT_SCHEMA), (''fileUpdate'', JNull), (''autoContinue'', JBool True)])"
  proof -
    obtain kvs where e: "INITIAL_AGENT_SCHEMA = JObj kvs"
      using initial_schema_typed is_objE by (auto simp: agent_schema_typed_def)
    show ?thesis using initial_schema_typed unfolding e by (simp add: update_payload_typed_def obj_field_def)
  qed
  show ?thesis using typed_payload_applies [OF h, of initial_app_state] by simp
qed

text \<open>C20. Every session state reachable by any interleaving of user and
  network events keeps a well-formed document tree whose file listing is the
  seed tree's: neither the agent's updates nor the user's saves can create,
  remove or rename a file.\<close>

theorem session_files_fixed:
  assumes "reachable parse c"
  shows "wf_tree (docStructure (st c)) \<and> get_file_tree (docStructure (st c)) = get_file_tree documentationStructure"
  using assms
proof (induction rule: reachable.induct)
  case init
  show ?case using seed_tree_wf by (simp add: initial_ctrl_def initial_app_state_def)
next
  case (step c e c')
  then show ?case using skeleton_eq_shape [OF ctrl_step_keeps_shape [OF step.hyps(2)]] by simp
qed

theorem session_files_fixed_witness:
  "reachable sample_parser sample_session \<and> wf_tree (docStructure (st sample_session))
   \<and> get_file_tree (docStructure (st sample_session)) = get_file_tree documentationStructure"
  using session_files_fixed [of sample_parser sample_session] sample_session_reachable by simp

end
